theory Spec2Isabelle
  imports Complex_Main
begin

section \<open>Numbers and the \<open>Math\<close> functions of the engine\<close>

text \<open>
  The engine computes with JavaScript numbers. They are modelled as the reals: every
  comparison, branch and assignment of the source is kept, rounding is not modelled, and
  neither are NaN, the infinities and the sign of zero. \<open>Math.pow\<close> with a positive base
  is \<open>powr\<close>, \<open>Math.sqrt\<close> is \<open>sqrt\<close>, \<open>Math.floor\<close> is \<open>\<lfloor>_\<rfloor>\<close>.
\<close>

definition atan2 :: "real \<Rightarrow> real \<Rightarrow> real" where
  \<comment> \<open>\<open>Math.atan2(y, x)\<close>: the angle of the point \<open>(x, y)\<close>, in \<open>(-\<pi>, \<pi>]\<close>; 0 at the origin.\<close>
  "atan2 y x =
     (if 0 < x then arctan (y / x)
      else if x < 0 then (if 0 \<le> y then arctan (y / x) + pi else arctan (y / x) - pi)
      else if 0 < y then pi / 2
      else if y < 0 then - (pi / 2)
      else 0)"

definition js_rem :: "real \<Rightarrow> real \<Rightarrow> real" where
  \<comment> \<open>The operator \<open>%\<close>: the remainder of the division truncated toward zero, so the
      result has the sign of the dividend.\<close>
  "js_rem a b =
     a - b * of_int (if 0 \<le> a / b then \<lfloor>a / b\<rfloor> else \<lceil>a / b\<rceil>)"

definition TWO_PI :: real where
  "TWO_PI = pi * 2"

definition normAngle :: "real \<Rightarrow> real" where
  \<comment> \<open>The idiom \<open>((raw % TWO_PI) + TWO_PI) % TWO_PI\<close>.\<close>
  "normAngle raw = js_rem (js_rem raw TWO_PI + TWO_PI) TWO_PI"

definition js_round :: "real \<Rightarrow> int" where
  \<comment> \<open>\<open>Math.round\<close>: to the nearest integer, halves upward.\<close>
  "js_round x = \<lfloor>x + 1 / 2\<rfloor>"

section \<open>World constants\<close>

definition LANE_W :: real where "LANE_W = 3.5"
definition ROAD_W :: real where "ROAD_W = 14"
definition RB_IN :: real where "RB_IN = 12"
definition RB_MID :: real where "RB_MID = 17"
definition RB_OUT :: real where "RB_OUT = 22"
definition ROAD_L :: real where "ROAD_L = 110"

definition SOUTH_ENTRY_ANGLE :: real where "SOUTH_ENTRY_ANGLE = 3 * pi / 2"

definition NPC_SPEED :: real where "NPC_SPEED = 0.22"
definition NPC_INNER_R :: real where "NPC_INNER_R = (RB_IN + RB_MID) / 2"
definition NPC_OUTER_R :: real where "NPC_OUTER_R = (RB_MID + RB_OUT) / 2"
definition ENTRY_ADVANCE :: real where "ENTRY_ADVANCE = 0.4"
definition EXIT_ADVANCE :: real where "EXIT_ADVANCE = 0.4"

definition MAX_SPEED :: real where "MAX_SPEED = 0.55"
definition MAX_REV :: real where "MAX_REV = 0.18"
definition ACCEL :: real where "ACCEL = 0.009"
definition BRAKE :: real where "BRAKE = 0.018"
definition FRICTION :: real where "FRICTION = 0.965"
definition MAX_STEER :: real where "MAX_STEER = 0.062"

section \<open>Missions\<close>

text \<open>
  The four arms, in the order of \<open>ARM_NAMES\<close>. The name of a mission's exit is the name
  of an arm too (\<open>west\<close>, \<open>north\<close> or \<open>east\<close>).
\<close>

datatype arm = South | North | East | West

definition ARM_NAMES :: "arm list" where
  "ARM_NAMES = [South, North, East, West]"

datatype lane = Outer | Inner | Either | Match

record mission =
  name :: arm
  num :: nat
  travelAngle :: real
  m_requiredLane :: lane
  m_requiredRingLane :: lane

definition EXITS :: "mission list" where
  "EXITS =
     [\<lparr>name = West, num = 1, travelAngle = pi / 2,
        m_requiredLane = Outer, m_requiredRingLane = Outer\<rparr>,
      \<lparr>name = North, num = 2, travelAngle = pi,
        m_requiredLane = Either, m_requiredRingLane = Match\<rparr>,
      \<lparr>name = East, num = 3, travelAngle = 3 * pi / 2,
        m_requiredLane = Inner, m_requiredRingLane = Inner\<rparr>]"

text \<open>
  A requirement a grace period waits for: the argument of \<open>condOk\<close> and \<open>startGrace\<close>.
  \<open>ENTRY_IND\<close> maps the exit number to the indicator required at the ring boundary; a
  number outside the table gives \<open>undefined\<close>, here \<open>None\<close>.
\<close>

datatype req =
  ReqLeft | ReqRight | ReqNone | ApproachOuter | ApproachInner | RingOuter | RingInner | Signal

definition ENTRY_IND :: "nat \<Rightarrow> req option" where
  "ENTRY_IND n =
     (if n = 1 then Some ReqLeft else if n = 2 then Some ReqNone
      else if n = 3 then Some ReqRight else None)"

section \<open>The player vehicle\<close>

datatype phase = Approaching | OnRoundabout | Exiting | Completed

text \<open>The five messages of \<open>failReason\<close>, in the order the source assigns them.\<close>

datatype fail_reason =
  CentreIsland  \<comment> \<open>You drove into the centre island. Stay focused next time!\<close>
| Grass  \<comment> \<open>That's grass, not asphalt. Stay on the road.\<close>
| Crashed  \<comment> \<open>You crashed into the traffic. Stay focused next time!\<close>
| NoSignal  \<comment> \<open>No signal? Other drivers can't read your mind.\<close>
| WrongLane  \<comment> \<open>You didn't move into the correct lane in time.\<close>

record car =
  pos_x :: real
  pos_z :: real
  heading :: real
  speed :: real
  steer :: real
  yawRate :: real
  phase :: phase
  targetExit :: arm
  targetExitNum :: nat
  exitTravelTarget :: real
  requiredLane :: lane
  requiredRingLane :: lane
  leftIndicator :: bool
  rightIndicator :: bool
  entryAngle :: real
  traveledAngle :: real
  approachLane :: lane
  ringLane :: lane
  graceActive :: bool
  graceTimer :: real
  graceRequired :: "req option"
  failed :: bool
  failReason :: "fail_reason option"

datatype key = ArrowLeft | ArrowRight | ArrowUp | ArrowDown | KeyQ | KeyE | OtherKey

section \<open>The physics integrator\<close>

definition steerStep :: "real \<Rightarrow> key set \<Rightarrow> real \<Rightarrow> real" where
  \<comment> \<open>The steering keys: toward \<open>\<plusminus>1\<close> while a key is held, geometric decay otherwise.\<close>
  "steerStep dtScale ks st =
     (if ArrowLeft \<in> ks then max (st - 0.13 * dtScale) (- 1)
      else if ArrowRight \<in> ks then min (st + 0.13 * dtScale) 1
      else st * (0.88 powr dtScale))"

definition speedStep :: "real \<Rightarrow> key set \<Rightarrow> real \<Rightarrow> real" where
  \<comment> \<open>Accelerate, brake (weaker once nearly stopped or reversing), or friction.\<close>
  "speedStep dtScale ks sp =
     (if ArrowUp \<in> ks then sp + ACCEL * dtScale
      else if ArrowDown \<in> ks then
        (if sp > 0.01 then sp - BRAKE * dtScale else sp - ACCEL * 0.5 * dtScale)
      else sp * (FRICTION powr dtScale))"

definition clampSpeed :: "real \<Rightarrow> real" where
  \<comment> \<open>\<open>car.speed = Math.max(-MAX_REV, Math.min(MAX_SPEED, car.speed))\<close>, then
      \<open>if (Math.abs(car.speed) < 0.0005) car.speed = 0\<close>.\<close>
  "clampSpeed sp =
     (let sp2 = max (- MAX_REV) (min MAX_SPEED sp)
      in if \<bar>sp2\<bar> < 0.0005 then 0 else sp2)"

definition physics :: "real \<Rightarrow> key set \<Rightarrow> car \<Rightarrow> car" where
  \<comment> \<open>The integrator of \<open>_update\<close>, from the steering keys to the position; the first
      argument is \<open>dtScale\<close>.\<close>
  "physics dtScale ks c =
     (let steer1 = steerStep dtScale ks (steer c);
          speed1 = clampSpeed (speedStep dtScale ks (speed c));
          spd = \<bar>speed1\<bar>;
          sFactor = min (spd / MAX_SPEED * 2 + 0.3) 1 * (1 - spd / MAX_SPEED * 0.2);
          targetYaw = MAX_STEER * steer1 * sFactor * (if speed1 \<ge> 0 then 1 else - 1);
          yawRate1 = yawRate c + (targetYaw - yawRate c) * min (0.2 * dtScale) 1;
          heading1 = heading c + yawRate1 * dtScale
      in c\<lparr>steer := steer1, speed := speed1, yawRate := yawRate1, heading := heading1,
           pos_x := pos_x c + sin heading1 * speed1 * dtScale,
           pos_z := pos_z c + - cos heading1 * speed1 * dtScale\<rparr>)"

section \<open>Traffic agents and the game state\<close>

datatype npc_state =
  Npc_despawned | Npc_approaching | Npc_entering_ring | Npc_on_roundabout
| Npc_leaving_ring | Npc_exiting

text \<open>
  One entry of \<open>this.npcs\<close>. \<open>mesh_x\<close> and \<open>mesh_z\<close> are \<open>npc.mesh.position\<close>; the
  fields that only the renderer reads (visibility, rotation, indicator meshes) are left
  out. \<open>entryArm\<close> and \<open>exitArm\<close> are \<open>null\<close> until the first spawn; they are read only in
  states that follow a spawn, so the model gives them an arm from the start.
\<close>

record npc =
  npc_state :: npc_state
  respawnTimer :: real
  entryArm :: arm
  exitArm :: arm
  npc_heading :: real
  ringAngle :: real
  ringRadius :: real
  ringTravelNeeded :: real
  ringTravelDone :: real
  npc_speed :: real
  npc_leftIndicator :: bool
  npc_rightIndicator :: bool
  nearExitSignaled :: bool
  transProgress :: real
  transDuration :: real
  transFromX :: real
  transFromZ :: real
  transFromH :: real
  transToX :: real
  transToZ :: real
  transToH :: real
  mesh_x :: real
  mesh_z :: real

text \<open>
  The fields of \<open>RoundaboutGame\<close> that the simulation reads or writes. \<open>rng\<close> counts the
  calls of \<open>Math.random()\<close> made so far: the random source is a function from that count
  to the value returned, passed to every operation that draws from it. The renderer, the
  camera, the audio (with the horn timers) and the blink timer are left out: nothing of
  the simulation reads what they write.
\<close>

record game =
  car :: car
  keys :: "key set"
  npcs :: "npc list"
  rng :: nat
  prevRingAngle :: "real option"
  prevDistFromCenter :: "real option"
  checkADone :: bool
  checkBDone :: bool
  checkCDone :: bool
  checkDDone :: bool
  checkLaneApproachDone :: bool
  missionIndex :: nat
  completeTimer :: real
  preview :: bool
  indDebug :: bool

section \<open>The rule engine: \<open>_updateStateMachine\<close>\<close>

text \<open>
  The locals \<open>dist\<close> and \<open>norm\<close> of the source are written \<open>dst\<close> and \<open>nrm\<close>: HOL has
  constants of those two names.
\<close>

definition distFromCenter :: "car \<Rightarrow> real" where
  "distFromCenter c = sqrt (pos_x c * pos_x c + pos_z c * pos_z c)"

definition ARM_OVERLAP :: real where "ARM_OVERLAP = 1.5"

definition onRoad :: "car \<Rightarrow> real \<Rightarrow> bool" where
  \<comment> \<open>The ring, then the south, north, east and west arms.\<close>
  "onRoad c dst \<longleftrightarrow>
     (dst > RB_IN \<and> dst < RB_OUT) \<or>
     (\<bar>pos_x c\<bar> < ROAD_W / 2 \<and> pos_z c > RB_OUT - ARM_OVERLAP \<and> pos_z c < RB_OUT + ROAD_L) \<or>
     (\<bar>pos_x c\<bar> < ROAD_W / 2 \<and> pos_z c < - RB_OUT + ARM_OVERLAP \<and> pos_z c > - (RB_OUT + ROAD_L)) \<or>
     (\<bar>pos_z c\<bar> < ROAD_W / 2 \<and> pos_x c > RB_OUT - ARM_OVERLAP \<and> pos_x c < RB_OUT + ROAD_L) \<or>
     (\<bar>pos_z c\<bar> < ROAD_W / 2 \<and> pos_x c < - RB_OUT + ARM_OVERLAP \<and> pos_x c > - (RB_OUT + ROAD_L))"

definition offRoadReason :: "real \<Rightarrow> fail_reason" where
  "offRoadReason dst = (if dst < RB_IN then CentreIsland else Grass)"

definition hitsNpc :: "car \<Rightarrow> npc \<Rightarrow> bool" where
  \<comment> \<open>The body of the collision loop for one agent.\<close>
  "hitsNpc c n \<longleftrightarrow>
     npc_state n \<noteq> Npc_despawned \<and>
     (let dx = pos_x c - mesh_x n; dz = pos_z c - mesh_z n
      in dx * dx + dz * dz < 3.5 * 3.5)"

fun collision :: "car \<Rightarrow> npc list \<Rightarrow> bool" where
  \<comment> \<open>The loop over \<open>this.npcs\<close>: true when it reaches its \<open>return\<close>.\<close>
  "collision c [] = False"
| "collision c (n # ns) = (if hitsNpc c n then True else collision c ns)"

definition condOk :: "car \<Rightarrow> real \<Rightarrow> req option \<Rightarrow> bool" where
  "condOk c dst r =
     (case r of
        Some ReqLeft \<Rightarrow> leftIndicator c
      | Some ReqRight \<Rightarrow> rightIndicator c
      | Some ReqNone \<Rightarrow> \<not> leftIndicator c \<and> \<not> rightIndicator c
      | Some ApproachOuter \<Rightarrow> pos_x c < - LANE_W
      | Some ApproachInner \<Rightarrow> pos_x c \<ge> - LANE_W \<and> pos_x c < 0
      | Some RingOuter \<Rightarrow> dst > RB_MID
      | Some RingInner \<Rightarrow> dst < RB_MID
      | Some Signal \<Rightarrow> leftIndicator c \<or> rightIndicator c
      | None \<Rightarrow> True)"

definition graceFailReason :: "req option \<Rightarrow> fail_reason" where
  \<comment> \<open>\<open>indViolations.includes(car.graceRequired)\<close> chooses the message.\<close>
  "graceFailReason r =
     (if r \<in> {Some ReqLeft, Some ReqRight, Some ReqNone} then NoSignal else WrongLane)"

definition graceCountdown :: "real \<Rightarrow> real \<Rightarrow> car \<Rightarrow> car + car" where
  \<comment> \<open>The grace period countdown. \<open>Inl\<close> is the branch that fails and returns from
      \<open>_updateStateMachine\<close>; \<open>Inr\<close> goes on to the phases.\<close>
  "graceCountdown dt dst c =
     (if graceActive c then
        (let c1 = c\<lparr>graceTimer := graceTimer c - dt\<rparr>
         in if condOk c1 dst (graceRequired c1) then Inr (c1\<lparr>graceActive := False\<rparr>)
            else if graceTimer c1 \<le> 0 then
              Inl (c1\<lparr>failed := True, graceActive := False,
                       failReason := Some (graceFailReason (graceRequired c1))\<rparr>)
            else Inr c1)
      else Inr c)"

definition startGrace :: "req option \<Rightarrow> real \<Rightarrow> car \<Rightarrow> car" where
  \<comment> \<open>Start a grace period only if none is active.\<close>
  "startGrace r duration c =
     (if \<not> graceActive c
      then c\<lparr>graceActive := True, graceTimer := duration, graceRequired := r\<rparr>
      else c)"

subsection \<open>Phase \<open>approaching\<close>\<close>

definition checkLaneApproach :: "real \<Rightarrow> game \<Rightarrow> game" where
  "checkLaneApproach dst g =
     (if \<not> checkLaneApproachDone g \<and> dst < RB_OUT + 20 then
        (let inOuter = pos_x (car g) < - LANE_W;
             c1 = (if targetExitNum (car g) = 1 \<and> \<not> inOuter
                   then startGrace (Some ApproachOuter) 4.0 (car g) else car g);
             c2 = (if targetExitNum c1 = 3 \<and> inOuter
                   then startGrace (Some ApproachInner) 4.0 c1 else c1)
         in g\<lparr>checkLaneApproachDone := True, car := c2\<rparr>)
      else g)"

definition checkA :: "real \<Rightarrow> game \<Rightarrow> game" where
  \<comment> \<open>Check (a), the entry indicator; the default duration of \<open>startGrace\<close> is 3.0.\<close>
  "checkA dst g =
     (if \<not> checkADone g then
        (let r = ENTRY_IND (targetExitNum (car g))
         in g\<lparr>checkADone := True,
              car := (if \<not> condOk (car g) dst r then startGrace r 3.0 (car g) else car g)\<rparr>)
      else g)"

definition ringAngleOf :: "car \<Rightarrow> real" where
  \<comment> \<open>\<open>raw = Math.atan2(-car.pos.z, car.pos.x)\<close>, normalised to \<open>[0, 2\<pi>)\<close>.\<close>
  "ringAngleOf c = normAngle (atan2 (- pos_z c) (pos_x c))"

definition enterRing :: "real \<Rightarrow> game \<Rightarrow> game" where
  "enterRing dst g =
     g\<lparr>car := (car g)\<lparr>phase := OnRoundabout, traveledAngle := 0\<rparr>,
       prevRingAngle := Some (ringAngleOf (car g)),
       prevDistFromCenter := Some dst\<rparr>"

definition phaseApproaching :: "real \<Rightarrow> game \<Rightarrow> game" where
  "phaseApproaching dst g =
     (let g1 = g\<lparr>car := (car g)\<lparr>approachLane :=
                   (if pos_x (car g) < - LANE_W then Outer else Inner)\<rparr>\<rparr>;
          g2 = checkLaneApproach dst g1
      in if dst \<le> RB_OUT + 1 then enterRing dst (checkA dst g2) else g2)"

subsection \<open>Phase \<open>on_roundabout\<close>\<close>

definition angleDelta :: "real \<Rightarrow> real \<Rightarrow> real" where
  \<comment> \<open>\<open>d = nrm - prev\<close>, brought back by the two \<open>if\<close> statements, in their order.\<close>
  "angleDelta prev nrm =
     (let d = nrm - prev;
          d1 = (if d < - pi then d + TWO_PI else d);
          d2 = (if d1 > pi then d1 - TWO_PI else d1)
      in d2)"

definition accumulate :: "real option \<Rightarrow> real \<Rightarrow> real \<Rightarrow> real" where
  \<comment> \<open>The new \<open>traveledAngle\<close>, from \<open>_prevRingAngle\<close>, \<open>nrm\<close> and the old value.\<close>
  "accumulate prev nrm traveled =
     (case prev of None \<Rightarrow> traveled | Some p \<Rightarrow> traveled - angleDelta p nrm)"

definition trackAngle :: "game \<Rightarrow> game" where
  "trackAngle g =
     (let nrm = ringAngleOf (car g)
      in g\<lparr>car := (car g)\<lparr>traveledAngle :=
                accumulate (prevRingAngle g) nrm (traveledAngle (car g))\<rparr>,
           prevRingAngle := Some nrm\<rparr>)"

definition checkB :: "real \<Rightarrow> game \<Rightarrow> game" where
  \<comment> \<open>Check (b), 12 o'clock: the third exit must still signal right.\<close>
  "checkB dst g =
     (if \<not> checkBDone g \<and> traveledAngle (car g) \<ge> pi - 0.1 then
        g\<lparr>checkBDone := True,
          car := (if targetExitNum (car g) = 3 \<and> \<not> condOk (car g) dst (Some ReqRight)
                  then startGrace (Some ReqRight) 3.0 (car g) else car g)\<rparr>
      else g)"

definition checkD :: "real \<Rightarrow> game \<Rightarrow> game" where
  \<comment> \<open>Check (d), exit 2: left indicator after passing exit 1.\<close>
  "checkD dst g =
     (if \<not> checkDDone g \<and> targetExitNum (car g) = 2 \<and> traveledAngle (car g) \<ge> pi / 2 then
        g\<lparr>checkDDone := True,
          car := (if \<not> condOk (car g) dst (Some ReqLeft)
                  then startGrace (Some ReqLeft) 3.0 (car g) else car g)\<rparr>
      else g)"

definition checkC :: "real \<Rightarrow> game \<Rightarrow> game" where
  \<comment> \<open>Check (c), near the exit: every exit needs the left indicator.\<close>
  "checkC dst g =
     (if \<not> checkCDone g \<and> traveledAngle (car g) \<ge> exitTravelTarget (car g) - 0.7 then
        g\<lparr>checkCDone := True,
          car := (if \<not> condOk (car g) dst (Some ReqLeft)
                  then startGrace (Some ReqLeft) 3.0 (car g) else car g)\<rparr>
      else g)"

definition needOuterRing :: "car \<Rightarrow> bool" where
  "needOuterRing c =
     (if targetExitNum c = 1 then True
      else if targetExitNum c = 2 then approachLane c = Outer
      else traveledAngle c \<ge> exitTravelTarget c - 0.7)"

definition ringLaneCheck :: "real \<Rightarrow> car \<Rightarrow> car" where
  "ringLaneCheck dst c =
     (if needOuterRing c \<noteq> (dst > RB_MID)
      then startGrace (Some (if needOuterRing c then RingOuter else RingInner)) 3.0 c
      else c)"

definition laneChangeCheck :: "real \<Rightarrow> game \<Rightarrow> game" where
  "laneChangeCheck dst g =
     (let c1 = (case prevDistFromCenter g of
                  None \<Rightarrow> car g
                | Some pd \<Rightarrow>
                    (let radialDelta = \<bar>dst - pd\<bar>
                     in if radialDelta > 0.5 \<and> \<not> leftIndicator (car g)
                           \<and> \<not> rightIndicator (car g)
                        then startGrace (Some Signal) 2.0 (car g) else car g))
      in g\<lparr>car := c1, prevDistFromCenter := Some dst\<rparr>)"

definition onExitArm :: "car \<Rightarrow> bool" where
  "onExitArm c \<longleftrightarrow>
     (targetExit c = West \<and> pos_x c < - RB_OUT \<and> \<bar>pos_z c\<bar> < ROAD_W / 2) \<or>
     (targetExit c = North \<and> pos_z c < - RB_OUT \<and> \<bar>pos_x c\<bar> < ROAD_W / 2) \<or>
     (targetExit c = East \<and> pos_x c > RB_OUT \<and> \<bar>pos_z c\<bar> < ROAD_W / 2)"

definition exitTransition :: "car \<Rightarrow> car" where
  "exitTransition c =
     (let c1 = (if onExitArm c then c\<lparr>graceActive := False\<rparr> else c)
      in if traveledAngle c1 \<ge> exitTravelTarget c1 - 0.15 \<or> onExitArm c
         then c1\<lparr>phase := Exiting\<rparr> else c1)"

definition phaseOnRoundabout :: "real \<Rightarrow> game \<Rightarrow> game" where
  "phaseOnRoundabout dst g =
     (let g1 = g\<lparr>car := (car g)\<lparr>ringLane := (if dst < RB_MID then Inner else Outer)\<rparr>\<rparr>;
          g2 = trackAngle g1;
          g3 = checkC dst (checkD dst (checkB dst g2));
          g4 = g3\<lparr>car := ringLaneCheck dst (car g3)\<rparr>;
          g5 = laneChangeCheck dst g4
      in g5\<lparr>car := exitTransition (car g5)\<rparr>)"

subsection \<open>Phase \<open>exiting\<close> and the engine\<close>

definition phaseExiting :: "real \<Rightarrow> game \<Rightarrow> game" where
  "phaseExiting dst g =
     (if dst \<ge> RB_OUT + 8
      then g\<lparr>car := (car g)\<lparr>phase := Completed\<rparr>, completeTimer := 2.0\<rparr>
      else g)"

definition phaseStep :: "real \<Rightarrow> game \<Rightarrow> game" where
  "phaseStep dst g =
     (case phase (car g) of
        Approaching \<Rightarrow> phaseApproaching dst g
      | OnRoundabout \<Rightarrow> phaseOnRoundabout dst g
      | Exiting \<Rightarrow> phaseExiting dst g
      | Completed \<Rightarrow> g)"

definition updateStateMachine :: "real \<Rightarrow> game \<Rightarrow> game" where
  "updateStateMachine dt g =
     (if failed (car g) \<or> phase (car g) = Completed then g
      else
        (let dst = distFromCenter (car g)
         in if \<not> onRoad (car g) dst then
              g\<lparr>car := (car g)\<lparr>failed := True, failReason := Some (offRoadReason dst)\<rparr>\<rparr>
            else if collision (car g) (npcs g) then
              g\<lparr>car := (car g)\<lparr>failed := True, failReason := Some Crashed\<rparr>\<rparr>
            else
              (case graceCountdown dt dst (car g) of
                 Inl c \<Rightarrow> g\<lparr>car := c\<rparr>
               | Inr c \<Rightarrow> phaseStep dst (g\<lparr>car := c\<rparr>))))"

section \<open>The traffic engine\<close>

subsection \<open>The arms: \<open>ARM_CFG\<close>\<close>

definition approachHeading :: "arm \<Rightarrow> real" where
  "approachHeading a =
     (case a of South \<Rightarrow> 0 | North \<Rightarrow> pi | East \<Rightarrow> - pi / 2 | West \<Rightarrow> pi / 2)"

definition departHeading :: "arm \<Rightarrow> real" where
  "departHeading a =
     (case a of South \<Rightarrow> pi | North \<Rightarrow> 0 | East \<Rightarrow> pi / 2 | West \<Rightarrow> - pi / 2)"

definition approachLanePos :: "arm \<Rightarrow> bool \<Rightarrow> real \<times> real" where
  \<comment> \<open>The spawn point \<open>[x, z]\<close> of the approach lane.\<close>
  "approachLanePos a outer =
     (case a of
        South \<Rightarrow> (if outer then - LANE_W * 1.5 else - LANE_W * 0.5, RB_OUT + ROAD_L * 0.65)
      | North \<Rightarrow> (if outer then LANE_W * 1.5 else LANE_W * 0.5, - (RB_OUT + ROAD_L * 0.65))
      | East \<Rightarrow> (RB_OUT + ROAD_L * 0.65, if outer then LANE_W * 1.5 else LANE_W * 0.5)
      | West \<Rightarrow> (- (RB_OUT + ROAD_L * 0.65), if outer then - LANE_W * 1.5 else - LANE_W * 0.5))"

definition despawnCheck :: "arm \<Rightarrow> real \<Rightarrow> real \<Rightarrow> bool" where
  "despawnCheck a x z =
     (case a of
        South \<Rightarrow> z > RB_OUT + ROAD_L * 0.6
      | North \<Rightarrow> z < - (RB_OUT + ROAD_L * 0.6)
      | East \<Rightarrow> x > RB_OUT + ROAD_L * 0.6
      | West \<Rightarrow> x < - (RB_OUT + ROAD_L * 0.6))"

subsection \<open>\<open>_ringIntersect\<close>, \<open>_spawnNPC\<close> and the blend curve\<close>

record intersect =
  int_x :: real
  int_z :: real
  int_ringAngle :: real
  tangentH :: real

definition ringIntersect :: "arm \<Rightarrow> real \<Rightarrow> bool \<Rightarrow> bool \<Rightarrow> intersect" where
  "ringIntersect a r outer isEntry =
     (let w = (if outer then LANE_W * 1.5 else LANE_W * 0.5);
          h = sqrt (r * r - w * w);
          x = (case a of
                 South \<Rightarrow> (if isEntry then - w else w)
               | North \<Rightarrow> (if isEntry then w else - w)
               | East \<Rightarrow> h
               | West \<Rightarrow> - h);
          z = (case a of
                 South \<Rightarrow> h
               | North \<Rightarrow> - h
               | East \<Rightarrow> (if isEntry then w else - w)
               | West \<Rightarrow> (if isEntry then - w else w));
          rawAngle = atan2 x (- z);
          ringAng = normAngle rawAngle
      in \<lparr>int_x = x, int_z = z, int_ringAngle = ringAng,
          tangentH = atan2 (cos ringAng) (- sin ringAng)\<rparr>)"

text \<open>
  \<open>_spawnNPC\<close> draws two or three random numbers: the entry arm, the exit arm among the
  three others and, for a straight crossing only, the lane. It returns the agent and the
  new count of draws. \<open>Math.random()\<close> lies in \<open>[0, 1)\<close>, which keeps both indices in range.
\<close>

definition spawnNPC :: "(nat \<Rightarrow> real) \<Rightarrow> nat \<Rightarrow> npc \<Rightarrow> npc \<times> nat" where
  "spawnNPC rnd k n =
     (let entryName = ARM_NAMES ! nat \<lfloor>rnd k * real (length ARM_NAMES)\<rfloor>;
          exitCands = filter (\<lambda>a. a \<noteq> entryName) ARM_NAMES;
          exitName = exitCands ! nat \<lfloor>rnd (k + 1) * real (length exitCands)\<rfloor>;
          tempEntry = ringIntersect entryName NPC_OUTER_R True True;
          tempExit = ringIntersect exitName NPC_OUTER_R True False;
          tempAdv = js_rem (int_ringAngle tempEntry + ENTRY_ADVANCE + TWO_PI) TWO_PI;
          tempAdvX = js_rem (int_ringAngle tempExit - EXIT_ADVANCE + TWO_PI) TWO_PI;
          approx0 = js_rem (tempAdvX - tempAdv + TWO_PI) TWO_PI;
          approxTravel = (if approx0 < 0.2 then approx0 + TWO_PI else approx0);
          drawLane = \<not> approxTravel < pi * 0.65 \<and> \<not> approxTravel > pi * 1.35;
          outer = (if approxTravel < pi * 0.65 then True
                   else if approxTravel > pi * 1.35 then False
                   else rnd (k + 2) < 0.5);
          radius = (if outer then NPC_OUTER_R else NPC_INNER_R);
          entryInt = ringIntersect entryName radius outer True;
          exitInt = ringIntersect exitName radius outer False;
          advEntryAngle = js_rem (int_ringAngle entryInt + ENTRY_ADVANCE + TWO_PI) TWO_PI;
          advExitAngle = js_rem (int_ringAngle exitInt - EXIT_ADVANCE + TWO_PI) TWO_PI;
          needed0 = js_rem (advExitAngle - advEntryAngle + TWO_PI) TWO_PI;
          needed = (if needed0 < 0.2 then needed0 + TWO_PI else needed0)
      in (n\<lparr>entryArm := entryName, exitArm := exitName,
             npc_heading := approachHeading entryName,
             ringRadius := radius,
             ringTravelNeeded := needed, ringTravelDone := 0,
             npc_state := Npc_approaching,
             npc_leftIndicator := approxTravel < pi * 0.65,
             npc_rightIndicator := approxTravel > pi * 1.35,
             nearExitSignaled := False,
             mesh_x := fst (approachLanePos entryName outer),
             mesh_z := snd (approachLanePos entryName outer)\<rparr>,
          if drawLane then k + 3 else k + 2))"

definition bezierPoint :: "real \<Rightarrow> real \<Rightarrow> real \<Rightarrow> real \<Rightarrow> real \<Rightarrow> real" where
  \<comment> \<open>One coordinate of the cubic curve with control values \<open>f\<close>, \<open>p1\<close>, \<open>p2\<close>, \<open>t\<close> at \<open>u\<close>.\<close>
  "bezierPoint f p1 p2 t u =
     (let mt = 1 - u
      in mt * mt * mt * f + 3 * mt * mt * u * p1 + 3 * mt * u * u * p2 + u * u * u * t)"

definition bezierArcLen :: "real \<Rightarrow> real \<Rightarrow> real \<Rightarrow> real \<Rightarrow> real \<Rightarrow> real \<Rightarrow> real" where
  \<comment> \<open>The length of the curve, by 12 segments. The loop state is \<open>(len, px, pz)\<close>.\<close>
  "bezierArcLen fx fz fh tx tz th =
     (let d = sqrt ((tx - fx)\<^sup>2 + (tz - fz)\<^sup>2);
          sc = d / 3;
          p1x = fx + sin fh * sc; p1z = fz - cos fh * sc;
          p2x = tx - sin th * sc; p2z = tz + cos th * sc
      in fst (fold
           (\<lambda>i (len, px, pz).
              (let u = real i / 12;
                   x = bezierPoint fx p1x p2x tx u;
                   z = bezierPoint fz p1z p2z tz u
               in (len + sqrt ((x - px)\<^sup>2 + (z - pz)\<^sup>2), x, z)))
           [1..<13] (0, fx, fz)))"

record arc_point =
  arc_x :: real
  arc_z :: real
  arc_h :: real

definition bezierArc ::
  "real \<Rightarrow> real \<Rightarrow> real \<Rightarrow> real \<Rightarrow> real \<Rightarrow> real \<Rightarrow> real \<Rightarrow> arc_point" where
  "bezierArc fx fz fh tx tz th u =
     (let d = sqrt ((tx - fx)\<^sup>2 + (tz - fz)\<^sup>2);
          sc = d / 3;
          p1x = fx + sin fh * sc; p1z = fz - cos fh * sc;
          p2x = tx - sin th * sc; p2z = tz + cos th * sc;
          mt = 1 - u;
          x = bezierPoint fx p1x p2x tx u;
          z = bezierPoint fz p1z p2z tz u;
          bx = 3 * mt * mt * (p1x - fx) + 6 * mt * u * (p2x - p1x) + 3 * u * u * (tx - p2x);
          bz = 3 * mt * mt * (p1z - fz) + 6 * mt * u * (p2z - p1z) + 3 * u * u * (tz - p2z);
          h = (if bx * bx + bz * bz > 1 / 1000000 then atan2 bx (- bz)
               else if u < 0.5 then fh else th)
      in \<lparr>arc_x = x, arc_z = z, arc_h = h\<rparr>)"

subsection \<open>Speed: \<open>_arcSpeedScale\<close> and \<open>_npcFollowSpeed\<close>\<close>

definition arcSpeedScale :: "car \<Rightarrow> real \<Rightarrow> real \<Rightarrow> real" where
  "arcSpeedScale c x z =
     (if failed c then 1
      else
        (let dx = pos_x c - x; dz = pos_z c - z;
             d = sqrt (dx * dx + dz * dz)
         in if d \<ge> 10 then 1 else if d \<le> 4 then 0 else (d - 4) / (10 - 4)))"

definition angleGap :: "real \<Rightarrow> real \<Rightarrow> real \<Rightarrow> real" where
  \<comment> \<open>\<open>gap = (entryAngle - angle + TWO_PI) % TWO_PI\<close>, the angle being that of the
      point \<open>(x, z)\<close> in the convention of the agents, \<open>atan2(x, -z)\<close>.\<close>
  "angleGap entryAng x z =
     js_rem (entryAng - normAngle (atan2 x (- z)) + TWO_PI) TWO_PI"

definition playerYield :: "car \<Rightarrow> real \<Rightarrow> bool" where
  \<comment> \<open>Yield to the player only if they are on the ring and have not failed.\<close>
  "playerYield c entryAng =
     (if \<not> failed c \<and> phase c = OnRoundabout
      then angleGap entryAng (pos_x c) (pos_z c) < 0.9
      else False)"

definition otherYield :: "intersect \<Rightarrow> npc \<Rightarrow> bool" where
  \<comment> \<open>The body of the loop over the other agents: true where it returns 0.\<close>
  "otherYield entryInt other =
     (if npc_state other = Npc_despawned \<or> npc_state other = Npc_approaching then False
      else if npc_state other = Npc_on_roundabout then
        angleGap (int_ringAngle entryInt) (mesh_x other) (mesh_z other) < 0.9
      else
        (let dx = mesh_x other - int_x entryInt; dz = mesh_z other - int_z entryInt
         in dx * dx + dz * dz < 10 * 10))"

fun yieldLoop :: "intersect \<Rightarrow> nat \<Rightarrow> nat \<Rightarrow> npc list \<Rightarrow> bool" where
  \<comment> \<open>\<open>for (const other of this.npcs)\<close>, from index \<open>j\<close> on; \<open>i\<close> is the index of the
      agent itself, which \<open>other === npc\<close> skips.\<close>
  "yieldLoop entryInt i j [] = False"
| "yieldLoop entryInt i j (other # rest) =
     (if j = i then yieldLoop entryInt i (Suc j) rest
      else if otherYield entryInt other then True
      else yieldLoop entryInt i (Suc j) rest)"

definition entryYield :: "car \<Rightarrow> npc list \<Rightarrow> nat \<Rightarrow> bool" where
  \<comment> \<open>The roundabout entry yield: true where \<open>_npcFollowSpeed\<close> returns 0 from it.\<close>
  "entryYield c ns i =
     (let n = ns ! i
      in if npc_state n = Npc_approaching then
           (let dst = sqrt (mesh_x n * mesh_x n + mesh_z n * mesh_z n)
            in if dst < RB_OUT + 14 then
                 (let isOuter = (ringRadius n = NPC_OUTER_R);
                      entryInt = ringIntersect (entryArm n) (ringRadius n) isOuter True
                  in if playerYield c (int_ringAngle entryInt) then True
                     else yieldLoop entryInt i 0 ns)
               else False)
         else False)"

definition obstacles :: "car \<Rightarrow> npc list \<Rightarrow> nat \<Rightarrow> (real \<times> real) list" where
  \<comment> \<open>The player unless failed, then every other agent that is not despawned.\<close>
  "obstacles c ns i =
     (if \<not> failed c then [(pos_x c, pos_z c)] else []) @
     map (\<lambda>(j, other). (mesh_x other, mesh_z other))
       (filter (\<lambda>(j, other). j \<noteq> i \<and> npc_state other \<noteq> Npc_despawned) (enumerate 0 ns))"

definition closestFwd ::
  "real \<Rightarrow> real \<Rightarrow> real \<Rightarrow> real \<Rightarrow> (real \<times> real) list \<Rightarrow> real option" where
  \<comment> \<open>The loop over the obstacles; \<open>None\<close> is \<open>Infinity\<close>.\<close>
  "closestFwd x z dirX dirZ obs =
     fold
       (\<lambda>(ox, oz) best.
          (let dx = ox - x; dz = oz - z;
               fwd = dx * dirX + dz * dirZ;
               lat = \<bar>dx * dirZ - dz * dirX\<bar>
           in if fwd > 0 \<and> fwd < 12 \<and> lat < 2.2
              then Some (case best of None \<Rightarrow> fwd | Some b \<Rightarrow> min b fwd)
              else best))
       obs None"

definition npcFollowSpeed :: "car \<Rightarrow> npc list \<Rightarrow> nat \<Rightarrow> real" where
  "npcFollowSpeed c ns i =
     (if entryYield c ns i then 0
      else
        (let n = ns ! i;
             dirX = (if npc_state n = Npc_on_roundabout then cos (ringAngle n)
                     else sin (npc_heading n));
             dirZ = (if npc_state n = Npc_on_roundabout then sin (ringAngle n)
                     else - cos (npc_heading n))
         in case closestFwd (mesh_x n) (mesh_z n) dirX dirZ (obstacles c ns i) of
              None \<Rightarrow> NPC_SPEED
            | Some cf \<Rightarrow>
                if cf \<le> 4 then 0 else NPC_SPEED * (cf - 4) / (12 - 4)))"

subsection \<open>\<open>_updateNPCs\<close>\<close>

definition stepApproaching :: "real \<Rightarrow> npc \<Rightarrow> npc" where
  "stepApproaching dtScale n =
     (let x = mesh_x n + sin (npc_heading n) * npc_speed n * dtScale;
          z = mesh_z n - cos (npc_heading n) * npc_speed n * dtScale;
          n1 = n\<lparr>mesh_x := x, mesh_z := z\<rparr>;
          dst = sqrt (x * x + z * z)
      in if dst \<le> RB_OUT + 6 then
           (let isOuter = (ringRadius n1 = NPC_OUTER_R);
                entryInt = ringIntersect (entryArm n1) (ringRadius n1) isOuter True;
                advEntryAng = js_rem (int_ringAngle entryInt + ENTRY_ADVANCE + pi * 2) (pi * 2);
                advEntryX = ringRadius n1 * sin advEntryAng;
                advEntryZ = - ringRadius n1 * cos advEntryAng;
                advEntryH = atan2 (cos advEntryAng) (- sin advEntryAng)
            in n1\<lparr>ringAngle := advEntryAng,
                  transFromX := x, transFromZ := z, transFromH := npc_heading n1,
                  transToX := advEntryX, transToZ := advEntryZ, transToH := advEntryH,
                  transDuration :=
                    bezierArcLen x z (npc_heading n1) advEntryX advEntryZ advEntryH
                      / (NPC_SPEED * 60),
                  transProgress := 0,
                  npc_state := Npc_entering_ring\<rparr>)
         else n1)"

definition followArc :: "real \<Rightarrow> car \<Rightarrow> npc \<Rightarrow> npc" where
  \<comment> \<open>The part the two transition states share: advance the progress, scaled by the
      distance to the player, and move to the point of the curve.\<close>
  "followArc dt c n =
     (let prog = min (transProgress n
                      + dt / transDuration n * arcSpeedScale c (mesh_x n) (mesh_z n)) 1;
          arc = bezierArc (transFromX n) (transFromZ n) (transFromH n)
                  (transToX n) (transToZ n) (transToH n) prog
      in n\<lparr>transProgress := prog, mesh_x := arc_x arc, mesh_z := arc_z arc,
           npc_heading := arc_h arc\<rparr>)"

definition stepEntering :: "real \<Rightarrow> car \<Rightarrow> npc \<Rightarrow> npc" where
  "stepEntering dt c n =
     (let n1 = followArc dt c n
      in if transProgress n1 \<ge> 1 then
           n1\<lparr>mesh_x := transToX n1, mesh_z := transToZ n1, npc_heading := transToH n1,
              ringTravelDone := 0, npc_state := Npc_on_roundabout\<rparr>
         else n1)"

definition stepOnRing :: "real \<Rightarrow> npc \<Rightarrow> npc" where
  "stepOnRing dtScale n =
     (let dtheta = npc_speed n * dtScale / ringRadius n;
          ang = js_rem (ringAngle n + dtheta) TWO_PI;
          x = ringRadius n * sin ang;
          z = - ringRadius n * cos ang;
          n1 = n\<lparr>ringAngle := ang, ringTravelDone := ringTravelDone n + dtheta,
                 mesh_x := x, mesh_z := z\<rparr>;
          n2 = (if \<not> nearExitSignaled n1 \<and> ringTravelDone n1 \<ge> ringTravelNeeded n1 - 0.7
                then n1\<lparr>nearExitSignaled := True, npc_leftIndicator := True,
                        npc_rightIndicator := False\<rparr>
                else n1)
      in if ringTravelDone n2 \<ge> ringTravelNeeded n2 then
           (let isOuter = (ringRadius n2 = NPC_OUTER_R);
                exitInt = ringIntersect (exitArm n2) (ringRadius n2) isOuter False;
                dh = departHeading (exitArm n2);
                fromH = atan2 (cos (ringAngle n2)) (- sin (ringAngle n2));
                toX = int_x exitInt + sin dh * 8;
                toZ = int_z exitInt - cos dh * 8
            in n2\<lparr>transFromX := x, transFromZ := z, transFromH := fromH,
                  transToX := toX, transToZ := toZ, transToH := dh,
                  transDuration := bezierArcLen x z fromH toX toZ dh / (NPC_SPEED * 60),
                  transProgress := 0,
                  npc_state := Npc_leaving_ring\<rparr>)
         else n2)"

definition stepLeaving :: "real \<Rightarrow> car \<Rightarrow> npc \<Rightarrow> npc" where
  "stepLeaving dt c n =
     (let n1 = followArc dt c n
      in if transProgress n1 \<ge> 1 then
           n1\<lparr>mesh_x := transToX n1, mesh_z := transToZ n1, npc_heading := transToH n1,
              npc_leftIndicator := False, npc_rightIndicator := False,
              npc_state := Npc_exiting\<rparr>
         else n1)"

definition stepExiting :: "(nat \<Rightarrow> real) \<Rightarrow> nat \<Rightarrow> real \<Rightarrow> npc \<Rightarrow> npc \<times> nat" where
  \<comment> \<open>Despawning draws the cooldown, \<open>3 + Math.random() * 3\<close>.\<close>
  "stepExiting rnd k dtScale n =
     (let x = mesh_x n + sin (npc_heading n) * npc_speed n * dtScale;
          z = mesh_z n - cos (npc_heading n) * npc_speed n * dtScale;
          n1 = n\<lparr>mesh_x := x, mesh_z := z\<rparr>
      in if despawnCheck (exitArm n1) x z
         then (n1\<lparr>npc_state := Npc_despawned, respawnTimer := 3 + rnd k * 3\<rparr>, k + 1)
         else (n1, k))"

definition updateNPC ::
  "real \<Rightarrow> real \<Rightarrow> (nat \<Rightarrow> real) \<Rightarrow> car \<Rightarrow> nat \<Rightarrow> npc list \<times> nat \<Rightarrow> npc list \<times> nat" where
  \<comment> \<open>The callback of \<open>this.npcs.forEach\<close> for the agent of index \<open>i\<close>. It reads the
      list as the agents before it have left it.\<close>
  "updateNPC dt dtScale rnd c i st =
     (let ns = fst st; k = snd st; n = ns ! i
      in if npc_state n = Npc_despawned then
           (let n1 = n\<lparr>respawnTimer := respawnTimer n - dt\<rparr>
            in if respawnTimer n1 \<le> 0
               then (ns[i := fst (spawnNPC rnd k n1)], snd (spawnNPC rnd k n1))
               else (ns[i := n1], k))
         else
           (let n1 = (if npc_state n = Npc_approaching \<or> npc_state n = Npc_on_roundabout
                         \<or> npc_state n = Npc_exiting
                      then n\<lparr>npc_speed := npcFollowSpeed c ns i\<rparr> else n)
            in case npc_state n1 of
                 Npc_approaching \<Rightarrow> (ns[i := stepApproaching dtScale n1], k)
               | Npc_entering_ring \<Rightarrow> (ns[i := stepEntering dt c n1], k)
               | Npc_on_roundabout \<Rightarrow> (ns[i := stepOnRing dtScale n1], k)
               | Npc_leaving_ring \<Rightarrow> (ns[i := stepLeaving dt c n1], k)
               | Npc_exiting \<Rightarrow>
                   (ns[i := fst (stepExiting rnd k dtScale n1)],
                    snd (stepExiting rnd k dtScale n1))
               | Npc_despawned \<Rightarrow> (ns[i := n1], k)))"

definition updateNPCs ::
  "real \<Rightarrow> real \<Rightarrow> (nat \<Rightarrow> real) \<Rightarrow> car \<Rightarrow> npc list \<Rightarrow> nat \<Rightarrow> npc list \<times> nat" where
  "updateNPCs dt dtScale rnd c ns k =
     fold (updateNPC dt dtScale rnd c) [0..<length ns] (ns, k)"

section \<open>The mission sequencer and the commands\<close>

definition assignMission :: "game \<Rightarrow> game" where
  "assignMission g =
     (let exit = EXITS ! (missionIndex g mod length EXITS)
      in g\<lparr>car := (car g)\<lparr>targetExit := name exit, targetExitNum := num exit,
                exitTravelTarget := travelAngle exit,
                requiredLane := m_requiredLane exit,
                requiredRingLane := m_requiredRingLane exit\<rparr>,
           checkADone := False, checkBDone := False, checkCDone := False,
           checkDDone := False, checkLaneApproachDone := False\<rparr>)"

definition restart :: "game \<Rightarrow> game" where
  "restart g =
     assignMission
       (g\<lparr>car := (car g)\<lparr>pos_x := - LANE_W * 1.5, pos_z := RB_OUT + ROAD_L * 0.55,
               heading := 0, speed := 0, steer := 0, yawRate := 0,
               phase := Approaching, leftIndicator := False, rightIndicator := False,
               entryAngle := SOUTH_ENTRY_ANGLE, traveledAngle := 0,
               approachLane := Outer, ringLane := Outer,
               graceActive := False, graceTimer := 0, graceRequired := None,
               failed := False, failReason := None\<rparr>,
          prevRingAngle := None, prevDistFromCenter := None, completeTimer := 0\<rparr>)"

definition nextMission :: "game \<Rightarrow> game" where
  "nextMission g = restart (g\<lparr>missionIndex := missionIndex g + 1\<rparr>)"

definition startGame :: "game \<Rightarrow> game" where
  "startGame g = g\<lparr>preview := False\<rparr>"

datatype side = LeftSide | RightSide

definition toggleIndicator :: "side \<Rightarrow> game \<Rightarrow> game" where
  "toggleIndicator sd g =
     (case sd of
        LeftSide \<Rightarrow>
          g\<lparr>car := (car g)\<lparr>leftIndicator := \<not> leftIndicator (car g), rightIndicator := False\<rparr>\<rparr>
      | RightSide \<Rightarrow>
          g\<lparr>car := (car g)\<lparr>rightIndicator := \<not> rightIndicator (car g), leftIndicator := False\<rparr>\<rparr>)"



section \<open>The tick: \<open>_update\<close>\<close>

datatype gear = GearD | GearR

text \<open>The snapshot handed to \<open>onHUD\<close>.\<close>

record hud =
  hud_speed :: int
  hud_speedRatio :: real
  hud_gear :: gear
  hud_steer :: real
  hud_phase :: phase
  hud_showComplete :: bool
  hud_targetExit :: arm
  hud_targetExitNum :: nat
  hud_requiredLane :: lane
  hud_leftIndicator :: bool
  hud_rightIndicator :: bool
  hud_approachLane :: lane
  hud_ringLane :: lane
  hud_graceActive :: bool
  hud_graceTimer :: real
  hud_graceRequired :: "req option"
  hud_failed :: bool
  hud_failReason :: "fail_reason option"
  hud_missionIndex :: nat

definition snapshot :: "real \<Rightarrow> game \<Rightarrow> hud" where
  \<comment> \<open>\<open>spd\<close> is the local of \<open>_update\<close>, computed by the integrator before the rule
      engine ran.\<close>
  "snapshot spd g =
     \<lparr>hud_speed = js_round ((spd / MAX_SPEED) * 80),
      hud_speedRatio = spd / MAX_SPEED,
      hud_gear = (if speed (car g) \<ge> 0 then GearD else GearR),
      hud_steer = steer (car g),
      hud_phase = phase (car g),
      hud_showComplete = (completeTimer g > 0),
      hud_targetExit = targetExit (car g),
      hud_targetExitNum = targetExitNum (car g),
      hud_requiredLane = requiredLane (car g),
      hud_leftIndicator = leftIndicator (car g),
      hud_rightIndicator = rightIndicator (car g),
      hud_approachLane = approachLane (car g),
      hud_ringLane = ringLane (car g),
      hud_graceActive = graceActive (car g),
      hud_graceTimer = graceTimer (car g),
      hud_graceRequired = graceRequired (car g),
      hud_failed = failed (car g),
      hud_failReason = failReason (car g),
      hud_missionIndex = missionIndex g\<rparr>"

definition completeCountdown :: "real \<Rightarrow> game \<Rightarrow> game + game" where
  \<comment> \<open>The complete-mission countdown. \<open>Inl\<close> is the branch that advances the mission,
      restarts and returns; \<open>Inr\<close> goes on to the snapshot.\<close>
  "completeCountdown dt g =
     (if completeTimer g > 0 then
        (let g1 = g\<lparr>completeTimer := completeTimer g - dt\<rparr>
         in if completeTimer g1 \<le> 0
            then Inl (restart (g1\<lparr>completeTimer := 0, missionIndex := missionIndex g1 + 1\<rparr>))
            else Inr g1)
      else Inr g)"

definition tick :: "real \<Rightarrow> (nat \<Rightarrow> real) \<Rightarrow> game \<Rightarrow> game \<times> hud option" where
  \<comment> \<open>The body of \<open>_update\<close> once \<open>dt\<close> is known: the integrator, the traffic, the rule
      engine, the countdown and the snapshot, in that order. The traffic sees the player's
      new position, and the phase and failure of the tick before. The result is the new
      state and the snapshot, if one is emitted. The preview and the indicator debug mode
      return before any simulation.\<close>
  "tick dt rnd g =
     (if preview g then (g, None)
      else if indDebug g then (g, None)
      else
        (let dtScale = dt * 60;
             c1 = physics dtScale (keys g) (car g);
             spd = \<bar>speed c1\<bar>;
             tr = updateNPCs dt dtScale rnd c1 (npcs g) (rng g);
             g2 = updateStateMachine dt (g\<lparr>car := c1, npcs := fst tr, rng := snd tr\<rparr>)
         in case completeCountdown dt g2 of
              Inl g3 \<Rightarrow> (g3, None)
            | Inr g3 \<Rightarrow> (g3, Some (snapshot spd g3))))"

definition update :: "real \<Rightarrow> (nat \<Rightarrow> real) \<Rightarrow> game \<Rightarrow> game \<times> hud option" where
  \<comment> \<open>\<open>_update\<close>; \<open>delta\<close> is what \<open>this.clock.getDelta()\<close> returns, in seconds.\<close>
  "update delta rnd g = (let dt = min delta 0.1 in tick dt rnd g)"

section \<open>The constructor\<close>

definition newNpc :: "nat \<Rightarrow> npc" where
  \<comment> \<open>The agent \<open>i\<close> of \<open>_buildNPCs\<close>. The arms stand for \<open>null\<close>.\<close>
  "newNpc i =
     \<lparr>npc_state = Npc_despawned, respawnTimer = real i * 2.5,
      entryArm = South, exitArm = South,
      npc_heading = 0, ringAngle = 0, ringRadius = NPC_OUTER_R,
      ringTravelNeeded = 0, ringTravelDone = 0, npc_speed = NPC_SPEED,
      npc_leftIndicator = False, npc_rightIndicator = False, nearExitSignaled = False,
      transProgress = 0, transDuration = 0.5,
      transFromX = 0, transFromZ = 0, transFromH = 0,
      transToX = 0, transToZ = 0, transToH = 0,
      mesh_x = 0, mesh_z = 0\<rparr>"

definition newCar :: car where
  \<comment> \<open>The literal \<open>this.car\<close> of the constructor. \<open>targetExit\<close> and \<open>targetExitNum\<close> are
      \<open>null\<close> there; \<open>South\<close> and 0 stand for it until \<open>_assignMission\<close>, called by the
      constructor, overwrites them.\<close>
  "newCar =
     \<lparr>pos_x = - LANE_W * 1.5, pos_z = RB_OUT + ROAD_L * 0.55,
      heading = 0, speed = 0, steer = 0, yawRate = 0,
      phase = Approaching, targetExit = South, targetExitNum = 0,
      exitTravelTarget = 0, requiredLane = Outer, requiredRingLane = Outer,
      leftIndicator = False, rightIndicator = False,
      entryAngle = SOUTH_ENTRY_ANGLE, traveledAngle = 0,
      approachLane = Outer, ringLane = Outer,
      graceActive = False, graceTimer = 0, graceRequired = None,
      failed = False, failReason = None\<rparr>"

definition newGame :: game where
  "newGame =
     assignMission
       \<lparr>car = newCar, keys = {}, npcs = map newNpc [0..<5], rng = 0,
        prevRingAngle = None, prevDistFromCenter = None,
        checkADone = False, checkBDone = False, checkCDone = False, checkDDone = False,
        checkLaneApproachDone = False,
        missionIndex = 0, completeTimer = 0, preview = True, indDebug = False\<rparr>"

section \<open>Predicates and states used in the statements\<close>

text \<open>
  \<open>sameVehicle\<close> lists the fields of the car that the rule engine never writes, and
  \<open>sameWorld\<close> adds the fields of the game it never writes. \<open>activeMission\<close> is the entry
  that \<open>_assignMission\<close> reads, \<open>EXITS[this._missionIndex % EXITS.length]\<close>, and
  \<open>missionOk\<close> says that the car carries that entry. \<open>reachable\<close> closes the constructed
  game under the tick, the commands and the key handlers.
\<close>

definition sameVehicle :: "car \<Rightarrow> car \<Rightarrow> bool" where
  "sameVehicle c c' \<longleftrightarrow>
     pos_x c' = pos_x c \<and> pos_z c' = pos_z c \<and> heading c' = heading c \<and>
     speed c' = speed c \<and> steer c' = steer c \<and> yawRate c' = yawRate c \<and>
     targetExit c' = targetExit c \<and> targetExitNum c' = targetExitNum c \<and>
     exitTravelTarget c' = exitTravelTarget c \<and> requiredLane c' = requiredLane c \<and>
     requiredRingLane c' = requiredRingLane c \<and> leftIndicator c' = leftIndicator c \<and>
     rightIndicator c' = rightIndicator c \<and> entryAngle c' = entryAngle c"

definition sameWorld :: "game \<Rightarrow> game \<Rightarrow> bool" where
  "sameWorld g g' \<longleftrightarrow>
     sameVehicle (car g) (car g') \<and> keys g' = keys g \<and> npcs g' = npcs g \<and>
     rng g' = rng g \<and> missionIndex g' = missionIndex g \<and> preview g' = preview g \<and>
     indDebug g' = indDebug g"

definition activeMission :: "game \<Rightarrow> mission" where
  "activeMission g = EXITS ! (missionIndex g mod length EXITS)"

definition missionOk :: "game \<Rightarrow> bool" where
  "missionOk g \<longleftrightarrow>
     targetExit (car g) = name (activeMission g) \<and>
     targetExitNum (car g) = num (activeMission g) \<and>
     exitTravelTarget (car g) = travelAngle (activeMission g) \<and>
     requiredLane (car g) = m_requiredLane (activeMission g) \<and>
     requiredRingLane (car g) = m_requiredRingLane (activeMission g)"


definition gDrive :: game where
  "gDrive = newGame\<lparr>preview := False, npcs := [], keys := {ArrowUp}\<rparr>"

definition gGrace :: game where
  "gGrace = newGame\<lparr>preview := False,
          car := (car newGame)\<lparr>graceActive := True, graceTimer := 2, graceRequired := Some ReqLeft\<rparr>\<rparr>"


definition gFailed :: game where
  "gFailed = (nextMission (startGame newGame))\<lparr>car :=
           (car (nextMission (startGame newGame)))\<lparr>pos_x := 50, pos_z := 50, speed := 0.3,
              phase := OnRoundabout, traveledAngle := 1, leftIndicator := True,
              failed := True, failReason := Some Grass\<rparr>,
         checkADone := True, prevRingAngle := Some 1\<rparr>"


definition gRing :: game where
  "gRing = (nextMission (nextMission (startGame newGame)))\<lparr>npcs := [],
      car := (car (nextMission (nextMission (startGame newGame))))\<lparr>phase := OnRoundabout,
        pos_x := 0, pos_z := 15, traveledAngle := pi - 0.1\<rparr>,
      prevRingAngle := Some (3 * pi / 2), prevDistFromCenter := Some 15\<rparr>"

definition entryAngleOf :: "npc \<Rightarrow> real" where
  \<comment> \<open>\<open>entryAngle\<close> of \<open>_npcFollowSpeed\<close>: the ring angle where the agent's lane meets
      its ring radius on the entry arm.\<close>
  "entryAngleOf n =
     int_ringAngle (ringIntersect (entryArm n) (ringRadius n) (ringRadius n = NPC_OUTER_R) True)"

definition approachingNpc :: npc where
  "approachingNpc =
     (newNpc 0)\<lparr>npc_state := Npc_approaching, entryArm := South, exitArm := North,
        ringRadius := NPC_OUTER_R, mesh_x := - 5.25, mesh_z := 30\<rparr>"

definition ringNpc :: npc where
  "ringNpc =
     (newNpc 1)\<lparr>npc_state := Npc_on_roundabout, entryArm := West, exitArm := East,
        ringRadius := NPC_OUTER_R,
        mesh_x := int_x (ringIntersect South NPC_OUTER_R True True),
        mesh_z := int_z (ringIntersect South NPC_OUTER_R True True)\<rparr>"


definition gWait :: game where
  "gWait = (startGame newGame)\<lparr>completeTimer := 1.5,
      car := (car newGame)\<lparr>phase := Completed\<rparr>,
      npcs := map newNpc [1..<6]\<rparr>"

definition gLate :: game where
  "gLate = (startGame newGame)\<lparr>
      car := (car newGame)\<lparr>graceActive := True, graceTimer := 3, graceRequired := Some ReqLeft\<rparr>,
      npcs := map newNpc [1..<6]\<rparr>"

definition clockwiseStep :: "real \<Rightarrow> real \<Rightarrow> real" where
  \<comment> \<open>How far the ring angle has gone down from \<open>prev\<close> to \<open>nrm\<close>, modulo the wrap at
      \<open>2\<pi>\<close>: the clockwise travel between two samples of the normalised angle.\<close>
  "clockwiseStep prev nrm = (if nrm \<le> prev then prev - nrm else prev - nrm + TWO_PI)"

definition ringPos :: "real \<Rightarrow> real \<Rightarrow> real \<times> real" where
  \<comment> \<open>The point \<open>(x, z)\<close> at distance \<open>r\<close> from the centre whose ring angle
      \<open>atan2(-z, x)\<close> is \<open>th\<close>.\<close>
  "ringPos r th = (r * cos th, - (r * sin th))"

definition placeCar :: "real \<times> real \<Rightarrow> game \<Rightarrow> game" where
  "placeCar p g = g\<lparr>car := (car g)\<lparr>pos_x := fst p, pos_z := snd p\<rparr>\<rparr>"

definition gTurn :: game where
  "gTurn = gRing\<lparr>prevRingAngle := Some (3 * pi / 2 + 0.1),
             car := (car gRing)\<lparr>traveledAngle := 1\<rparr>\<rparr>"

definition gLap :: game where
  "gLap = gRing\<lparr>prevRingAngle := Some 0, car := (car gRing)\<lparr>traveledAngle := 0\<rparr>\<rparr>"

fun circulate :: "(real \<times> real) list \<Rightarrow> game \<Rightarrow> game" where
  \<comment> \<open>The angle tracking of the ring phase, over the successive positions of the car.\<close>
  "circulate [] g = g"
| "circulate (p # ps) g = circulate ps (trackAngle (placeCar p g))"

text \<open>
  \<open>ringHeld\<close> holds of the states of a run in which the car of \<open>gRing\<close> stays where it
  is, on the inner ring lane at the south, with its mission and what it has travelled: the
  fields that a tick of the rule engine reads on the ring, apart from the indicators, the
  grace period and the flags. In \<open>gSignal\<close> the player answers the first tick by switching
  the right indicator on; in \<open>gCancel\<close> they switch it off again after the second tick.
\<close>

definition ringHeld :: "game \<Rightarrow> bool" where
  "ringHeld g \<longleftrightarrow>
     pos_x (car g) = 0 \<and> pos_z (car g) = 15 \<and> phase (car g) = OnRoundabout \<and>
     \<not> failed (car g) \<and> npcs g = [] \<and> prevRingAngle g = Some (3 * pi / 2) \<and>
     prevDistFromCenter g = Some 15 \<and> targetExit (car g) = East \<and>
     targetExitNum (car g) = 3 \<and> exitTravelTarget (car g) = 3 * pi / 2 \<and>
     traveledAngle (car g) = pi - 0.1"

definition gSignal :: game where
  "gSignal = toggleIndicator RightSide (updateStateMachine 0.016 gRing)"

definition gCancel :: game where
  "gCancel = toggleIndicator RightSide (updateStateMachine 0.016 gSignal)"

section \<open>Theorems\<close>

lemma clampSpeed_bounds: "- MAX_REV \<le> clampSpeed sp \<and> clampSpeed sp \<le> MAX_SPEED"
  by (auto simp: clampSpeed_def Let_def MAX_REV_def MAX_SPEED_def max_def min_def)

lemma physics_speed: "speed (physics dtScale ks c) = clampSpeed (speedStep dtScale ks (speed c))"
  by (simp add: physics_def Let_def)

lemma clampSpeed_snap: "clampSpeed sp = 0 \<or> 0.0005 \<le> \<bar>clampSpeed sp\<bar>"
  by (auto simp: clampSpeed_def Let_def)

lemma sameVehicle_refl [simp]: "sameVehicle c c"
  by (simp add: sameVehicle_def)

lemma sameVehicle_trans: "sameVehicle a b \<Longrightarrow> sameVehicle b c \<Longrightarrow> sameVehicle a c"
  by (simp add: sameVehicle_def)

lemma sameWorld_refl [simp]: "sameWorld g g"
  by (simp add: sameWorld_def)

lemma sameWorld_trans: "sameWorld a b \<Longrightarrow> sameWorld b c \<Longrightarrow> sameWorld a c"
  by (auto simp: sameWorld_def intro: sameVehicle_trans)

lemma startGrace_same [simp]: "sameVehicle c (startGrace r d c)"
  by (simp add: startGrace_def sameVehicle_def)

lemma graceCountdown_same:
  "graceCountdown dt dst c = Inl c' \<or> graceCountdown dt dst c = Inr c' \<Longrightarrow> sameVehicle c c'"
  by (auto simp: graceCountdown_def Let_def sameVehicle_def split: if_splits)

lemma checkLaneApproach_same [simp]: "sameWorld g (checkLaneApproach dst g)"
  by (simp add: checkLaneApproach_def Let_def sameWorld_def sameVehicle_def startGrace_def)

lemma checkA_same [simp]: "sameWorld g (checkA dst g)"
  by (simp add: checkA_def Let_def sameWorld_def sameVehicle_def startGrace_def)

lemma enterRing_same [simp]: "sameWorld g (enterRing dst g)"
  by (simp add: enterRing_def sameWorld_def sameVehicle_def)

lemma phaseApproaching_same [simp]: "sameWorld g (phaseApproaching dst g)"
proof -
  let ?g1 = "g\<lparr>car := (car g)\<lparr>approachLane := (if pos_x (car g) < - LANE_W then Outer else Inner)\<rparr>\<rparr>"
  have 1: "sameWorld g ?g1" by (simp add: sameWorld_def sameVehicle_def)
  have 2: "sameWorld ?g1 (checkLaneApproach dst ?g1)" by simp
  have 3: "sameWorld g (checkLaneApproach dst ?g1)" using sameWorld_trans[OF 1 2] .
  have 4: "sameWorld g (enterRing dst (checkA dst (checkLaneApproach dst ?g1)))"
    by (rule sameWorld_trans[OF 3], rule sameWorld_trans[OF checkA_same enterRing_same])
  show ?thesis using 3 4 by (simp add: phaseApproaching_def Let_def)
qed

lemma trackAngle_same [simp]: "sameWorld g (trackAngle g)"
  by (simp add: trackAngle_def Let_def sameWorld_def sameVehicle_def)

lemma checkB_same [simp]: "sameWorld g (checkB dst g)"
  by (simp add: checkB_def sameWorld_def sameVehicle_def startGrace_def)

lemma checkC_same [simp]: "sameWorld g (checkC dst g)"
  by (simp add: checkC_def sameWorld_def sameVehicle_def startGrace_def)

lemma checkD_same [simp]: "sameWorld g (checkD dst g)"
  by (simp add: checkD_def sameWorld_def sameVehicle_def startGrace_def)

lemma ringLaneCheck_same [simp]: "sameVehicle c (ringLaneCheck dst c)"
  by (simp add: ringLaneCheck_def)

lemma laneChangeCheck_same [simp]: "sameWorld g (laneChangeCheck dst g)"
  by (simp add: laneChangeCheck_def Let_def sameWorld_def split: option.splits)

lemma exitTransition_same [simp]: "sameVehicle c (exitTransition c)"
  by (simp add: exitTransition_def Let_def sameVehicle_def)

lemma car_upd_same: "sameVehicle (car g) c \<Longrightarrow> sameWorld g (g\<lparr>car := c\<rparr>)"
  by (simp add: sameWorld_def)

lemma phaseOnRoundabout_same [simp]: "sameWorld g (phaseOnRoundabout dst g)"
  unfolding phaseOnRoundabout_def Let_def
  by (intro sameWorld_trans[OF _ car_upd_same[OF exitTransition_same]]
        sameWorld_trans[OF _ laneChangeCheck_same]
        sameWorld_trans[OF _ car_upd_same[OF ringLaneCheck_same]]
        sameWorld_trans[OF _ checkC_same] sameWorld_trans[OF _ checkD_same]
        sameWorld_trans[OF _ checkB_same] sameWorld_trans[OF _ trackAngle_same])
     (simp add: sameWorld_def sameVehicle_def)

lemma phaseExiting_same [simp]: "sameWorld g (phaseExiting dst g)"
  by (simp add: phaseExiting_def sameWorld_def sameVehicle_def)

lemma phaseStep_same [simp]: "sameWorld g (phaseStep dst g)"
  by (simp add: phaseStep_def split: phase.splits)

lemma updateStateMachine_same: "sameWorld g (updateStateMachine dt g)"
proof -
  have a: "\<And>c. sameVehicle (car g) c \<Longrightarrow> sameWorld g (phaseStep dst (g\<lparr>car := c\<rparr>))" for dst
    by (rule sameWorld_trans[OF car_upd_same phaseStep_same])
  show ?thesis
    unfolding updateStateMachine_def Let_def
    by (auto simp: a car_upd_same sameVehicle_def graceCountdown_same split: sum.splits
          intro!: car_upd_same a dest: graceCountdown_same[OF disjI1] graceCountdown_same[OF disjI2])
qed


lemma physics_snap: "speed (physics s ks c) = 0 \<or> 0.0005 \<le> \<bar>speed (physics s ks c)\<bar>"
  using clampSpeed_snap by (simp add: physics_speed)

lemma physics_bounds: "- 0.18 \<le> speed (physics s ks c) \<and> speed (physics s ks c) \<le> 0.55"
  using clampSpeed_bounds[of "speedStep s ks (speed c)"] by (simp add: physics_speed MAX_REV_def MAX_SPEED_def)

lemma restart_speed: "speed (car (restart g)) = 0"
  by (simp add: restart_def assignMission_def Let_def)

lemma completeCountdown_cases:
  "(completeCountdown dt g = Inl (restart (g\<lparr>completeTimer := 0, missionIndex := missionIndex g + 1\<rparr>))
      \<and> 0 < completeTimer g \<and> completeTimer g - dt \<le> 0) \<or>
   (completeCountdown dt g = Inr (g\<lparr>completeTimer := completeTimer g - dt\<rparr>)
      \<and> 0 < completeTimer g \<and> 0 < completeTimer g - dt) \<or>
   (completeCountdown dt g = Inr g \<and> completeTimer g \<le> 0)"
  by (auto simp: completeCountdown_def Let_def)

lemma tick_speed:
  assumes "\<not> preview g" "\<not> indDebug g"
  shows "speed (car (fst (tick dt rnd g))) = speed (physics (dt * 60) (keys g) (car g)) \<or>
         speed (car (fst (tick dt rnd g))) = 0"
proof -
  let ?c1 = "physics (dt * 60) (keys g) (car g)"
  let ?tr = "updateNPCs dt (dt * 60) rnd ?c1 (npcs g) (rng g)"
  let ?g1 = "g\<lparr>car := ?c1, npcs := fst ?tr, rng := snd ?tr\<rparr>"
  let ?g2 = "updateStateMachine dt ?g1"
  have s: "speed (car ?g2) = speed ?c1"
    using updateStateMachine_same[of ?g1 dt] by (simp add: sameWorld_def sameVehicle_def)
  show ?thesis
    using assms completeCountdown_cases[of dt ?g2] s
    by (auto simp: tick_def Let_def restart_speed)
qed

lemma tick_hud:
  assumes "snd (tick dt rnd g) = Some h"
  shows "hud_speedRatio h = \<bar>speed (car (fst (tick dt rnd g)))\<bar> / MAX_SPEED \<and>
         hud_gear h = (if speed (car (fst (tick dt rnd g))) \<ge> 0 then GearD else GearR)"
proof -
  let ?c1 = "physics (dt * 60) (keys g) (car g)"
  let ?tr = "updateNPCs dt (dt * 60) rnd ?c1 (npcs g) (rng g)"
  let ?g1 = "g\<lparr>car := ?c1, npcs := fst ?tr, rng := snd ?tr\<rparr>"
  let ?g2 = "updateStateMachine dt ?g1"
  have s: "speed (car ?g2) = speed ?c1"
    using updateStateMachine_same[of ?g1 dt] by (simp add: sameWorld_def sameVehicle_def)
  show ?thesis
    using assms completeCountdown_cases[of dt ?g2] s
    by (auto simp: tick_def Let_def snapshot_def split: if_splits)
qed

text \<open>
  Claim C10. Whatever the keys, the previous state and the tick duration, the integrator
  leaves the speed in \<open>[-MAX_REV, MAX_SPEED] = [-0.18, 0.55]\<close>, and a speed of absolute
  value below 0.0005 is exactly 0. The same holds for the car after a whole tick outside
  the preview and the debug mode, and every snapshot carries the speed ratio and the gear
  of that bounded speed: the ratio is \<open>|speed| / MAX_SPEED\<close>, in \<open>[0, 1]\<close>, and the gear is
  forward exactly when the speed is not negative.
\<close>

theorem speed_clamp_invariant:
  "(let s = speed (physics dtScale ks c)
    in - 0.18 \<le> s \<and> s \<le> 0.55 \<and> (s = 0 \<or> 0.0005 \<le> \<bar>s\<bar>)) \<and>
   (\<not> preview g \<and> \<not> indDebug g \<longrightarrow>
      (let s = speed (car (fst (update delta rnd g)))
       in - 0.18 \<le> s \<and> s \<le> 0.55 \<and> (s = 0 \<or> 0.0005 \<le> \<bar>s\<bar>))) \<and>
   (\<forall>h. snd (update delta rnd g) = Some h \<longrightarrow>
      hud_speedRatio h = \<bar>speed (car (fst (update delta rnd g)))\<bar> / MAX_SPEED \<and>
      0 \<le> hud_speedRatio h \<and> hud_speedRatio h \<le> 1 \<and>
      hud_gear h = (if speed (car (fst (update delta rnd g))) \<ge> 0 then GearD else GearR))"
proof (intro conjI impI allI)
  show "let s = speed (physics dtScale ks c)
    in - 0.18 \<le> s \<and> s \<le> 0.55 \<and> (s = 0 \<or> 0.0005 \<le> \<bar>s\<bar>)"
    using physics_bounds[of dtScale ks c] physics_snap[of dtScale ks c] by (simp add: Let_def)
next
  assume a: "\<not> preview g \<and> \<not> indDebug g"
  let ?dt = "min delta 0.1"
  have u: "update delta rnd g = tick ?dt rnd g" by (simp add: update_def Let_def)
  from a tick_speed[of g ?dt rnd]
  have "speed (car (fst (tick ?dt rnd g))) = speed (physics (?dt * 60) (keys g) (car g)) \<or>
        speed (car (fst (tick ?dt rnd g))) = 0" by simp
  then show "let s = speed (car (fst (update delta rnd g)))
       in - 0.18 \<le> s \<and> s \<le> 0.55 \<and> (s = 0 \<or> 0.0005 \<le> \<bar>s\<bar>)"
    using physics_bounds[of "?dt * 60" "keys g" "car g"] physics_snap[of "?dt * 60" "keys g" "car g"]
    unfolding u Let_def by auto
next
  fix h assume h: "snd (update delta rnd g) = Some h"
  let ?dt = "min delta 0.1"
  have u: "update delta rnd g = tick ?dt rnd g" by (simp add: update_def Let_def)
  have np: "\<not> preview g \<and> \<not> indDebug g" using h unfolding u by (auto simp: tick_def split: if_splits)
  from h tick_hud[of ?dt rnd g h]
  have r: "hud_speedRatio h = \<bar>speed (car (fst (tick ?dt rnd g)))\<bar> / MAX_SPEED"
    and ge: "hud_gear h = (if speed (car (fst (tick ?dt rnd g))) \<ge> 0 then GearD else GearR)"
    unfolding u by simp_all
  from np tick_speed[of g ?dt rnd]
  have "speed (car (fst (tick ?dt rnd g))) = speed (physics (?dt * 60) (keys g) (car g)) \<or>
        speed (car (fst (tick ?dt rnd g))) = 0" by simp
  then have b: "- 0.18 \<le> speed (car (fst (tick ?dt rnd g))) \<and> speed (car (fst (tick ?dt rnd g))) \<le> 0.55"
    using physics_bounds[of "?dt * 60" "keys g" "car g"] by auto
  show "hud_speedRatio h = \<bar>speed (car (fst (update delta rnd g)))\<bar> / MAX_SPEED" using r u by simp
  show "0 \<le> hud_speedRatio h" using r by (simp add: MAX_SPEED_def)
  show "hud_speedRatio h \<le> 1" using r b by (auto simp: MAX_SPEED_def abs_if split: if_splits)
  show "hud_gear h = (if speed (car (fst (update delta rnd g))) \<ge> 0 then GearD else GearR)"
    using ge u by simp
qed

subsection \<open>The speed clamp\<close>

lemma gDrive_flags: "\<not> preview gDrive \<and> \<not> indDebug gDrive \<and> keys gDrive = {ArrowUp} \<and> speed (car gDrive) = 0"
  by (simp add: gDrive_def newGame_def assignMission_def Let_def newCar_def)

theorem speed_clamp_invariant_witness:
  "\<not> preview gDrive \<and> \<not> indDebug gDrive \<and>
   speed (physics 6 (keys gDrive) (car gDrive)) = 0.054 \<and>
   (let s = speed (car (fst (update 1 (\<lambda>_. 0) gDrive)))
    in - 0.18 \<le> s \<and> s \<le> 0.55 \<and> (s = 0 \<or> 0.0005 \<le> \<bar>s\<bar>))"
  using speed_clamp_invariant[of 6 "keys gDrive" "car gDrive" gDrive 1 "\<lambda>_. 0"] gDrive_flags
  by (simp add: physics_speed speedStep_def clampSpeed_def ACCEL_def MAX_REV_def MAX_SPEED_def Let_def)

subsection \<open>Grace periods\<close>

lemma startGrace_active: "graceActive c \<Longrightarrow> startGrace r duration c = c"
  by (simp add: startGrace_def)

lemma checkLaneApproach_active: "graceActive (car g) \<Longrightarrow> car (checkLaneApproach dst g) = car g"
  by (simp add: checkLaneApproach_def Let_def startGrace_active)

lemma checkA_active: "graceActive (car g) \<Longrightarrow> car (checkA dst g) = car g"
  by (simp add: checkA_def Let_def startGrace_active)

lemma checkB_active: "graceActive (car g) \<Longrightarrow> car (checkB dst g) = car g"
  by (simp add: checkB_def startGrace_active)

lemma checkC_active: "graceActive (car g) \<Longrightarrow> car (checkC dst g) = car g"
  by (simp add: checkC_def startGrace_active)

lemma checkD_active: "graceActive (car g) \<Longrightarrow> car (checkD dst g) = car g"
  by (simp add: checkD_def startGrace_active)

lemma ringLaneCheck_active: "graceActive c \<Longrightarrow> ringLaneCheck dst c = c"
  by (simp add: ringLaneCheck_def startGrace_active)

lemma laneChangeCheck_active: "graceActive (car g) \<Longrightarrow> car (laneChangeCheck dst g) = car g"
  by (simp add: laneChangeCheck_def Let_def startGrace_active split: option.splits)

lemma phaseApproaching_active:
  assumes "graceActive (car g)"
  shows "graceRequired (car (phaseApproaching dst g)) = graceRequired (car g) \<and>
         graceTimer (car (phaseApproaching dst g)) = graceTimer (car g)"
proof -
  let ?g1 = "g\<lparr>car := (car g)\<lparr>approachLane := (if pos_x (car g) < - LANE_W then Outer else Inner)\<rparr>\<rparr>"
  have a1: "graceActive (car ?g1)" using assms by simp
  have c2: "car (checkLaneApproach dst ?g1) = car ?g1" by (rule checkLaneApproach_active[OF a1])
  have a2: "graceActive (car (checkLaneApproach dst ?g1))" using c2 a1 by simp
  have c3: "car (checkA dst (checkLaneApproach dst ?g1)) = car ?g1"
    using checkA_active[OF a2] c2 by simp
  show ?thesis
    by (simp add: phaseApproaching_def Let_def enterRing_def c2 c3)
qed

lemma phaseOnRoundabout_active:
  assumes "graceActive (car g)"
  shows "graceRequired (car (phaseOnRoundabout dst g)) = graceRequired (car g) \<and>
         graceTimer (car (phaseOnRoundabout dst g)) = graceTimer (car g)"
proof -
  let ?g1 = "g\<lparr>car := (car g)\<lparr>ringLane := (if dst < RB_MID then Inner else Outer)\<rparr>\<rparr>"
  let ?g2 = "trackAngle ?g1"
  have a2: "graceActive (car ?g2)" using assms by (simp add: trackAngle_def Let_def)
  have k2: "graceRequired (car ?g2) = graceRequired (car g) \<and> graceTimer (car ?g2) = graceTimer (car g)"
    by (simp add: trackAngle_def Let_def)
  have cB: "car (checkB dst ?g2) = car ?g2" by (rule checkB_active[OF a2])
  have cD: "car (checkD dst (checkB dst ?g2)) = car ?g2"
    using checkD_active[of "checkB dst ?g2" dst] cB a2 by simp
  have cC: "car (checkC dst (checkD dst (checkB dst ?g2))) = car ?g2"
    using checkC_active[of "checkD dst (checkB dst ?g2)" dst] cD a2 by simp
  let ?g3 = "checkC dst (checkD dst (checkB dst ?g2))"
  let ?g4 = "?g3\<lparr>car := ringLaneCheck dst (car ?g3)\<rparr>"
  have c4: "car ?g4 = car ?g2" using ringLaneCheck_active[of "car ?g2" dst] a2 cC by simp
  have c5: "car (laneChangeCheck dst ?g4) = car ?g2"
    using laneChangeCheck_active[of ?g4 dst] c4 a2 by simp
  show ?thesis
    unfolding phaseOnRoundabout_def Let_def
    using c5 k2 by (simp add: exitTransition_def Let_def)
qed

lemma phaseStep_active:
  assumes "graceActive (car g)"
  shows "graceRequired (car (phaseStep dst g)) = graceRequired (car g) \<and>
         graceTimer (car (phaseStep dst g)) = graceTimer (car g)"
  using phaseApproaching_active[OF assms] phaseOnRoundabout_active[OF assms]
  by (simp add: phaseStep_def phaseExiting_def split: phase.splits)

text \<open>
  Claim C3. The car has one grace period at most: one flag, one timer, one requirement.
  \<open>startGrace\<close> on a car whose grace period is active changes nothing, so the timer and
  the required correction stay. Over a whole tick of the rule engine: when a grace period
  is active and its requirement is not met, the requirement after the tick is the one
  before, and the timer is the old one or the old one less \<open>dt\<close> (the countdown); no
  violation found in that tick starts it afresh.
\<close>

theorem grace_idempotent:
  "(graceActive c \<longrightarrow>
      startGrace r duration c = c \<and>
      graceTimer (startGrace r duration c) = graceTimer c \<and>
      graceRequired (startGrace r duration c) = graceRequired c) \<and>
   (graceActive (car g) \<and> \<not> condOk (car g) (distFromCenter (car g)) (graceRequired (car g)) \<longrightarrow>
      graceRequired (car (updateStateMachine dt g)) = graceRequired (car g) \<and>
      (graceTimer (car (updateStateMachine dt g)) = graceTimer (car g) \<or>
       graceTimer (car (updateStateMachine dt g)) = graceTimer (car g) - dt))"
proof -
  have p1: "graceActive c \<longrightarrow>
      startGrace r duration c = c \<and>
      graceTimer (startGrace r duration c) = graceTimer c \<and>
      graceRequired (startGrace r duration c) = graceRequired c"
    by (simp add: startGrace_active)
  have p2: "graceRequired (car (updateStateMachine dt g)) = graceRequired (car g) \<and>
      (graceTimer (car (updateStateMachine dt g)) = graceTimer (car g) \<or>
       graceTimer (car (updateStateMachine dt g)) = graceTimer (car g) - dt)"
    if a: "graceActive (car g) \<and> \<not> condOk (car g) (distFromCenter (car g)) (graceRequired (car g))"
  proof -
  let ?d = "distFromCenter (car g)"
  let ?c1 = "(car g)\<lparr>graceTimer := graceTimer (car g) - dt\<rparr>"
  have ok: "condOk ?c1 ?d r = condOk (car g) ?d r" for r
    by (simp add: condOk_def split: option.splits req.splits)
  have gc: "graceCountdown dt ?d (car g) =
      (if graceTimer (car g) - dt \<le> 0
       then Inl (?c1\<lparr>failed := True, graceActive := False,
                 failReason := Some (graceFailReason (graceRequired (car g)))\<rparr>)
       else Inr ?c1)"
    using a by (simp add: graceCountdown_def Let_def ok)
  have act: "graceActive (car (g\<lparr>car := ?c1\<rparr>))" using a by simp
  note ps = phaseStep_active[OF act, of ?d]
  show ?thesis
    using ps by (simp add: updateStateMachine_def Let_def gc)
  qed
  show ?thesis using p1 p2 by blast
qed

theorem grace_idempotent_witness:
  "graceActive (car gGrace) \<and> \<not> condOk (car gGrace) (distFromCenter (car gGrace)) (graceRequired (car gGrace)) \<and>
   startGrace (Some Signal) 2 (car gGrace) = car gGrace \<and>
   graceRequired (car (updateStateMachine 0.1 gGrace)) = Some ReqLeft \<and>
   (graceTimer (car (updateStateMachine 0.1 gGrace)) = 2 \<or>
    graceTimer (car (updateStateMachine 0.1 gGrace)) = 2 - 0.1)"
  using grace_idempotent[of "car gGrace" "Some Signal" 2 gGrace "0.1"]
  by (simp add: gGrace_def newGame_def assignMission_def Let_def newCar_def condOk_def)

subsection \<open>Missions and restart\<close>


lemma assignMission_ok: "missionOk (assignMission g)"
  by (simp add: missionOk_def assignMission_def activeMission_def Let_def)

lemma assignMission_index: "missionIndex (assignMission g) = missionIndex g"
  by (simp add: assignMission_def Let_def)

lemma restart_ok: "missionOk (restart g)"
  by (simp add: restart_def assignMission_ok)

lemma restart_index: "missionIndex (restart g) = missionIndex g"
  by (simp add: restart_def assignMission_index)










text \<open>
  Claim C8. \<open>restart\<close> gives the car the values of the constructor: the start position on
  the outer approach lane of the south arm, heading, speed, steering and yaw rate 0, phase
  \<open>approaching\<close>, indicators off, travelled angle 0, no grace period with timer 0 and no
  requirement, no failure and no reason. It clears the ring trackers, the completion timer
  and the five checkpoint flags. It keeps the mission index, and the car carries the
  mission of that index: the one it had, when it carried the mission of its index before.
  Keys, traffic and mode flags are left as they are.
\<close>

theorem restart_frame:
  "car (restart g) = car (assignMission (g\<lparr>car := newCar\<rparr>)) \<and>
   (let c = car (restart g)
    in pos_x c = - 5.25 \<and> pos_z c = 82.5 \<and> heading c = 0 \<and> speed c = 0 \<and> steer c = 0 \<and>
       yawRate c = 0 \<and> phase c = Approaching \<and> \<not> leftIndicator c \<and> \<not> rightIndicator c \<and>
       entryAngle c = 3 * pi / 2 \<and> traveledAngle c = 0 \<and>
       approachLane c = Outer \<and> ringLane c = Outer \<and>
       \<not> graceActive c \<and> graceTimer c = 0 \<and> graceRequired c = None \<and>
       \<not> failed c \<and> failReason c = None) \<and>
   prevRingAngle (restart g) = None \<and> prevDistFromCenter (restart g) = None \<and>
   completeTimer (restart g) = 0 \<and>
   \<not> checkADone (restart g) \<and> \<not> checkBDone (restart g) \<and> \<not> checkCDone (restart g) \<and>
   \<not> checkDDone (restart g) \<and> \<not> checkLaneApproachDone (restart g) \<and>
   missionIndex (restart g) = missionIndex g \<and>
   activeMission (restart g) = activeMission g \<and>
   missionOk (restart g) \<and>
   (missionOk g \<longrightarrow>
      targetExit (car (restart g)) = targetExit (car g) \<and>
      targetExitNum (car (restart g)) = targetExitNum (car g) \<and>
      exitTravelTarget (car (restart g)) = exitTravelTarget (car g) \<and>
      requiredLane (car (restart g)) = requiredLane (car g) \<and>
      requiredRingLane (car (restart g)) = requiredRingLane (car g)) \<and>
   keys (restart g) = keys g \<and> npcs (restart g) = npcs g \<and> rng (restart g) = rng g \<and>
   preview (restart g) = preview g \<and> indDebug (restart g) = indDebug g"
proof -
  have a: "car (restart g) = car (assignMission (g\<lparr>car := newCar\<rparr>))"
    by (simp add: restart_def assignMission_def Let_def newCar_def)
  have b: "let c = car (restart g)
    in pos_x c = - 5.25 \<and> pos_z c = 82.5 \<and> heading c = 0 \<and> speed c = 0 \<and> steer c = 0 \<and>
       yawRate c = 0 \<and> phase c = Approaching \<and> \<not> leftIndicator c \<and> \<not> rightIndicator c \<and>
       entryAngle c = 3 * pi / 2 \<and> traveledAngle c = 0 \<and>
       approachLane c = Outer \<and> ringLane c = Outer \<and>
       \<not> graceActive c \<and> graceTimer c = 0 \<and> graceRequired c = None \<and>
       \<not> failed c \<and> failReason c = None"
    by (simp add: restart_def assignMission_def Let_def LANE_W_def RB_OUT_def ROAD_L_def
        SOUTH_ENTRY_ANGLE_def)
  have c: "prevRingAngle (restart g) = None \<and> prevDistFromCenter (restart g) = None \<and>
   completeTimer (restart g) = 0 \<and>
   \<not> checkADone (restart g) \<and> \<not> checkBDone (restart g) \<and> \<not> checkCDone (restart g) \<and>
   \<not> checkDDone (restart g) \<and> \<not> checkLaneApproachDone (restart g) \<and>
   keys (restart g) = keys g \<and> npcs (restart g) = npcs g \<and> rng (restart g) = rng g \<and>
   preview (restart g) = preview g \<and> indDebug (restart g) = indDebug g"
    by (simp add: restart_def assignMission_def Let_def)
  have d: "activeMission (restart g) = activeMission g"
    by (simp add: activeMission_def restart_index)
  have e: "targetExit (car (restart g)) = targetExit (car g) \<and>
      targetExitNum (car (restart g)) = targetExitNum (car g) \<and>
      exitTravelTarget (car (restart g)) = exitTravelTarget (car g) \<and>
      requiredLane (car (restart g)) = requiredLane (car g) \<and>
      requiredRingLane (car (restart g)) = requiredRingLane (car g)" if "missionOk g"
    using that restart_ok[of g] d by (simp add: missionOk_def)
  show ?thesis
    using a b c d e restart_index[of g] restart_ok[of g] by blast
qed

theorem restart_frame_witness:
  "missionOk gFailed \<and> failed (car gFailed) \<and> missionIndex gFailed = 1 \<and> targetExit (car gFailed) = North \<and>
   missionIndex (restart gFailed) = 1 \<and> targetExit (car (restart gFailed)) = North \<and>
   targetExitNum (car (restart gFailed)) = 2 \<and>
   pos_x (car (restart gFailed)) = - 5.25 \<and> pos_z (car (restart gFailed)) = 82.5 \<and>
   phase (car (restart gFailed)) = Approaching \<and> \<not> failed (car (restart gFailed)) \<and>
   failReason (car (restart gFailed)) = None \<and> \<not> checkADone (restart gFailed) \<and>
   prevRingAngle (restart gFailed) = None"
proof -
  have m: "missionOk gFailed \<and> failed (car gFailed) \<and> missionIndex gFailed = 1 \<and> targetExit (car gFailed) = North
      \<and> targetExitNum (car gFailed) = 2"
    by (simp add: gFailed_def missionOk_def activeMission_def nextMission_def restart_def
        assignMission_def Let_def startGame_def newGame_def EXITS_def)
  show ?thesis
    using restart_frame[of gFailed, THEN conjunct2] m by (simp add: Let_def)
qed

subsection \<open>What the phases leave alone\<close>

lemma startGrace_fields:
  "failed (startGrace r d c) = failed c" "failReason (startGrace r d c) = failReason c"
  "traveledAngle (startGrace r d c) = traveledAngle c" "phase (startGrace r d c) = phase c"
  "approachLane (startGrace r d c) = approachLane c"
  by (simp_all add: startGrace_def)

lemma checkLaneApproach_fields:
  "failed (car (checkLaneApproach dst g)) = failed (car g)"
  "failReason (car (checkLaneApproach dst g)) = failReason (car g)"
  "checkBDone (checkLaneApproach dst g) = checkBDone g"
  "checkCDone (checkLaneApproach dst g) = checkCDone g"
  "checkDDone (checkLaneApproach dst g) = checkDDone g"
  "completeTimer (checkLaneApproach dst g) = completeTimer g"
  by (simp_all add: checkLaneApproach_def Let_def startGrace_fields)

lemma checkA_fields:
  "failed (car (checkA dst g)) = failed (car g)"
  "failReason (car (checkA dst g)) = failReason (car g)"
  "checkBDone (checkA dst g) = checkBDone g"
  "checkCDone (checkA dst g) = checkCDone g"
  "checkDDone (checkA dst g) = checkDDone g"
  "completeTimer (checkA dst g) = completeTimer g"
  by (simp_all add: checkA_def Let_def startGrace_fields)

lemma phaseApproaching_fields:
  "failed (car (phaseApproaching dst g)) = failed (car g)"
  "failReason (car (phaseApproaching dst g)) = failReason (car g)"
  "checkBDone (phaseApproaching dst g) = checkBDone g"
  "checkCDone (phaseApproaching dst g) = checkCDone g"
  "checkDDone (phaseApproaching dst g) = checkDDone g"
  "completeTimer (phaseApproaching dst g) = completeTimer g"
  by (simp_all add: phaseApproaching_def Let_def enterRing_def checkA_fields
      checkLaneApproach_fields)

lemma trackAngle_fields:
  "failed (car (trackAngle g)) = failed (car g)"
  "failReason (car (trackAngle g)) = failReason (car g)"
  "checkBDone (trackAngle g) = checkBDone g"
  "checkCDone (trackAngle g) = checkCDone g"
  "checkDDone (trackAngle g) = checkDDone g"
  "completeTimer (trackAngle g) = completeTimer g"
  "targetExitNum (car (trackAngle g)) = targetExitNum (car g)"
  "exitTravelTarget (car (trackAngle g)) = exitTravelTarget (car g)"
  "traveledAngle (car (trackAngle g)) =
     accumulate (prevRingAngle g) (ringAngleOf (car g)) (traveledAngle (car g))"
  by (simp_all add: trackAngle_def Let_def)

lemma checkB_fields:
  "failed (car (checkB dst g)) = failed (car g)"
  "failReason (car (checkB dst g)) = failReason (car g)"
  "checkBDone (checkB dst g) = (checkBDone g \<or> traveledAngle (car g) \<ge> pi - 0.1)"
  "checkCDone (checkB dst g) = checkCDone g"
  "checkDDone (checkB dst g) = checkDDone g"
  "completeTimer (checkB dst g) = completeTimer g"
  "targetExitNum (car (checkB dst g)) = targetExitNum (car g)"
  "exitTravelTarget (car (checkB dst g)) = exitTravelTarget (car g)"
  "traveledAngle (car (checkB dst g)) = traveledAngle (car g)"
  by (auto simp: checkB_def startGrace_def)

lemma checkD_fields:
  "failed (car (checkD dst g)) = failed (car g)"
  "failReason (car (checkD dst g)) = failReason (car g)"
  "checkBDone (checkD dst g) = checkBDone g"
  "checkCDone (checkD dst g) = checkCDone g"
  "checkDDone (checkD dst g) =
     (checkDDone g \<or> (targetExitNum (car g) = 2 \<and> traveledAngle (car g) \<ge> pi / 2))"
  "completeTimer (checkD dst g) = completeTimer g"
  "targetExitNum (car (checkD dst g)) = targetExitNum (car g)"
  "exitTravelTarget (car (checkD dst g)) = exitTravelTarget (car g)"
  "traveledAngle (car (checkD dst g)) = traveledAngle (car g)"
  by (auto simp: checkD_def startGrace_def)

lemma checkC_fields:
  "failed (car (checkC dst g)) = failed (car g)"
  "failReason (car (checkC dst g)) = failReason (car g)"
  "checkBDone (checkC dst g) = checkBDone g"
  "checkCDone (checkC dst g) =
     (checkCDone g \<or> traveledAngle (car g) \<ge> exitTravelTarget (car g) - 0.7)"
  "checkDDone (checkC dst g) = checkDDone g"
  "completeTimer (checkC dst g) = completeTimer g"
  "targetExitNum (car (checkC dst g)) = targetExitNum (car g)"
  "exitTravelTarget (car (checkC dst g)) = exitTravelTarget (car g)"
  "traveledAngle (car (checkC dst g)) = traveledAngle (car g)"
  by (auto simp: checkC_def startGrace_def)

lemma ringLaneCheck_fields:
  "failed (ringLaneCheck dst c) = failed c" "failReason (ringLaneCheck dst c) = failReason c"
  "traveledAngle (ringLaneCheck dst c) = traveledAngle c"
  by (simp_all add: ringLaneCheck_def startGrace_fields)

lemma laneChangeCheck_fields:
  "failed (car (laneChangeCheck dst g)) = failed (car g)"
  "failReason (car (laneChangeCheck dst g)) = failReason (car g)"
  "checkBDone (laneChangeCheck dst g) = checkBDone g"
  "checkCDone (laneChangeCheck dst g) = checkCDone g"
  "checkDDone (laneChangeCheck dst g) = checkDDone g"
  "completeTimer (laneChangeCheck dst g) = completeTimer g"
  "traveledAngle (car (laneChangeCheck dst g)) = traveledAngle (car g)"
  by (simp_all add: laneChangeCheck_def Let_def startGrace_fields split: option.splits)

lemma exitTransition_fields:
  "failed (exitTransition c) = failed c" "failReason (exitTransition c) = failReason c"
  "traveledAngle (exitTransition c) = traveledAngle c"
  by (simp_all add: exitTransition_def Let_def)

lemmas ring_fields = trackAngle_fields checkB_fields checkC_fields checkD_fields
  ringLaneCheck_fields laneChangeCheck_fields exitTransition_fields

lemma phaseOnRoundabout_fields:
  "failed (car (phaseOnRoundabout dst g)) = failed (car g)"
  "failReason (car (phaseOnRoundabout dst g)) = failReason (car g)"
  "completeTimer (phaseOnRoundabout dst g) = completeTimer g"
  "traveledAngle (car (phaseOnRoundabout dst g)) =
     accumulate (prevRingAngle g) (ringAngleOf (car g)) (traveledAngle (car g))"
  by (simp_all add: phaseOnRoundabout_def Let_def ring_fields ringAngleOf_def)

lemma phaseOnRoundabout_checks:
  "checkBDone (phaseOnRoundabout dst g) =
     (checkBDone g \<or> traveledAngle (car (phaseOnRoundabout dst g)) \<ge> pi - 0.1)"
  "checkDDone (phaseOnRoundabout dst g) =
     (checkDDone g \<or> (targetExitNum (car g) = 2 \<and>
        traveledAngle (car (phaseOnRoundabout dst g)) \<ge> pi / 2))"
  "checkCDone (phaseOnRoundabout dst g) =
     (checkCDone g \<or>
        traveledAngle (car (phaseOnRoundabout dst g)) \<ge> exitTravelTarget (car g) - 0.7)"
  unfolding phaseOnRoundabout_fields
  by (simp_all add: phaseOnRoundabout_def Let_def ring_fields ringAngleOf_def)

lemma phaseExiting_fields:
  "failed (car (phaseExiting dst g)) = failed (car g)"
  "failReason (car (phaseExiting dst g)) = failReason (car g)"
  "checkBDone (phaseExiting dst g) = checkBDone g"
  "checkCDone (phaseExiting dst g) = checkCDone g"
  "checkDDone (phaseExiting dst g) = checkDDone g"
  by (simp_all add: phaseExiting_def)

lemma phaseStep_verdict:
  "failed (car (phaseStep dst g)) = failed (car g)"
  "failReason (car (phaseStep dst g)) = failReason (car g)"
  by (simp_all add: phaseStep_def phaseApproaching_fields phaseOnRoundabout_fields
      phaseExiting_fields split: phase.splits)

lemma graceCountdown_verdict:
  "graceCountdown dt dst c = Inr c' \<Longrightarrow> failed c' = failed c \<and> failReason c' = failReason c"
  "graceCountdown dt dst c = Inl c' \<Longrightarrow>
     failed c' \<and> (failReason c' = Some NoSignal \<or> failReason c' = Some WrongLane)"
  by (auto simp: graceCountdown_def Let_def graceFailReason_def split: if_splits)

subsection \<open>Off-road failure\<close>







subsection \<open>Checkpoints\<close>

lemma updateStateMachine_ring:
  assumes "phase (car g) = OnRoundabout" "\<not> failed (car (updateStateMachine dt g))"
  shows "\<exists>c. graceCountdown dt (distFromCenter (car g)) (car g) = Inr c \<and>
             updateStateMachine dt g = phaseOnRoundabout (distFromCenter (car g)) (g\<lparr>car := c\<rparr>)"
proof -
  have nf: "\<not> failed (car g)" using assms by (auto simp: updateStateMachine_def)
  have on: "onRoad (car g) (distFromCenter (car g))"
    using assms nf by (auto simp: updateStateMachine_def Let_def split: if_splits)
  have nc: "\<not> collision (car g) (npcs g)"
    using assms nf on by (auto simp: updateStateMachine_def Let_def split: if_splits)
  show ?thesis
  proof (cases "graceCountdown dt (distFromCenter (car g)) (car g)")
    case (Inl c')
    then show ?thesis
      using assms nf on nc graceCountdown_verdict(2)[OF Inl]
      by (simp add: updateStateMachine_def Let_def)
  next
    case (Inr c')
    have "phase c' = OnRoundabout"
      using Inr assms(1) by (auto simp: graceCountdown_def Let_def split: if_splits)
    then show ?thesis
      using assms nf on nc Inr by (simp add: updateStateMachine_def Let_def phaseStep_def)
  qed
qed

lemma graceCountdown_Inr_fields:
  "graceCountdown dt dst c = Inr c' \<Longrightarrow>
     traveledAngle c' = traveledAngle c \<and> targetExitNum c' = targetExitNum c \<and>
     exitTravelTarget c' = exitTravelTarget c \<and> pos_x c' = pos_x c \<and> pos_z c' = pos_z c"
  by (auto simp: graceCountdown_def Let_def split: if_splits)

lemma updateStateMachine_flags_mono:
  "(checkBDone g \<longrightarrow> checkBDone (updateStateMachine dt g)) \<and>
   (checkCDone g \<longrightarrow> checkCDone (updateStateMachine dt g)) \<and>
   (checkDDone g \<longrightarrow> checkDDone (updateStateMachine dt g))"
proof -
  have ps: "(checkBDone g' \<longrightarrow> checkBDone (phaseStep dst g')) \<and>
   (checkCDone g' \<longrightarrow> checkCDone (phaseStep dst g')) \<and>
   (checkDDone g' \<longrightarrow> checkDDone (phaseStep dst g'))" for g' dst
    by (simp add: phaseStep_def phaseApproaching_fields phaseOnRoundabout_checks
        phaseExiting_fields split: phase.splits)
  show ?thesis
    using ps[of "g\<lparr>car := c\<rparr>" "distFromCenter (car g)" for c]
    by (auto simp: updateStateMachine_def Let_def split: sum.splits)
qed

lemma updateStateMachine_flags_off_ring:
  assumes "phase (car g) \<noteq> OnRoundabout"
  shows "checkBDone (updateStateMachine dt g) = checkBDone g \<and>
         checkCDone (updateStateMachine dt g) = checkCDone g \<and>
         checkDDone (updateStateMachine dt g) = checkDDone g"
proof -
  have ph: "graceCountdown dt dst c = Inr c' \<Longrightarrow> phase c' = phase c" for dst c c'
    by (auto simp: graceCountdown_def Let_def split: if_splits)
  have ps: "phase (car g') \<noteq> OnRoundabout \<Longrightarrow>
     checkBDone (phaseStep dst g') = checkBDone g' \<and>
     checkCDone (phaseStep dst g') = checkCDone g' \<and>
     checkDDone (phaseStep dst g') = checkDDone g'" for g' dst
    by (simp add: phaseStep_def phaseApproaching_fields phaseExiting_fields split: phase.splits)
  show ?thesis
    using assms ps[of "g\<lparr>car := c\<rparr>" "distFromCenter (car g)" for c] ph
    by (auto simp: updateStateMachine_def Let_def split: sum.splits)
qed

subsection \<open>The remainder and the normalised angle\<close>

lemma js_rem_id: "0 < b \<Longrightarrow> - b < a \<Longrightarrow> a < b \<Longrightarrow> js_rem a b = a"
proof -
  assume b: "0 < b" and l: "- b < a" and u: "a < b"
  have q: "- 1 < a / b \<and> a / b < 1" using b l u by (simp add: field_simps)
  show ?thesis
  proof (cases "0 \<le> a / b")
    case True
    then have "\<lfloor>a / b\<rfloor> = 0" using q by (simp add: floor_eq_iff)
    then show ?thesis using True by (simp add: js_rem_def)
  next
    case False
    then have "\<lceil>a / b\<rceil> = 0" using q by (simp add: ceiling_eq_iff)
    then show ?thesis using False by (simp add: js_rem_def)
  qed
qed

lemma js_rem_once: "0 < b \<Longrightarrow> b \<le> a \<Longrightarrow> a < 2 * b \<Longrightarrow> js_rem a b = a - b"
proof -
  assume b: "0 < b" and l: "b \<le> a" and u: "a < 2 * b"
  have q: "1 \<le> a / b \<and> a / b < 2" using b l u by (simp add: field_simps)
  then have "\<lfloor>a / b\<rfloor> = 1" by (simp add: floor_eq_iff)
  then show ?thesis using q by (simp add: js_rem_def)
qed

lemma js_rem_bounds:
  assumes "0 < b"
  shows "- b < js_rem a b \<and> js_rem a b < b \<and> (0 \<le> a \<longrightarrow> 0 \<le> js_rem a b)"
proof (cases "0 \<le> a / b")
  case True
  have f1: "of_int \<lfloor>a / b\<rfloor> \<le> a / b" by simp
  have f2: "a / b < of_int \<lfloor>a / b\<rfloor> + 1" by linarith
  have g1: "of_int \<lfloor>a / b\<rfloor> * b \<le> a"
    using f1 by (simp only: pos_le_divide_eq[OF assms])
  have g2: "a < (of_int \<lfloor>a / b\<rfloor> + 1) * b"
    using f2 by (simp only: pos_divide_less_eq[OF assms])
  have "of_int \<lfloor>a / b\<rfloor> * b \<le> a \<and> a < (of_int \<lfloor>a / b\<rfloor> + 1) * b"
    using g1 g2 by blast
  then have "b * of_int \<lfloor>a / b\<rfloor> \<le> a \<and> a < b * (of_int \<lfloor>a / b\<rfloor> + 1)"
    by (simp add: mult.commute)
  then have "0 \<le> js_rem a b \<and> js_rem a b < b"
    using True by (simp add: js_rem_def algebra_simps)
  then show ?thesis using assms by auto
next
  case False
  then have neg: "a < 0" using assms by (metis divide_nonneg_pos not_le less_imp_le)
  have f1: "of_int \<lceil>a / b\<rceil> - 1 < a / b" by linarith
  have f2: "a / b \<le> of_int \<lceil>a / b\<rceil>" by simp
  have g1: "(of_int \<lceil>a / b\<rceil> - 1) * b < a"
    using f1 by (simp only: pos_less_divide_eq[OF assms])
  have g2: "a \<le> of_int \<lceil>a / b\<rceil> * b"
    using f2 by (simp only: pos_divide_le_eq[OF assms])
  have "(of_int \<lceil>a / b\<rceil> - 1) * b < a \<and> a \<le> of_int \<lceil>a / b\<rceil> * b"
    using g1 g2 by blast
  then have "b * (of_int \<lceil>a / b\<rceil> - 1) < a \<and> a \<le> b * of_int \<lceil>a / b\<rceil>"
    by (simp add: mult.commute)
  then have "- b < js_rem a b \<and> js_rem a b \<le> 0"
    using False by (simp add: js_rem_def algebra_simps)
  then show ?thesis using assms neg by auto
qed

lemma TWO_PI_pos: "0 < TWO_PI"
  by (simp add: TWO_PI_def)

lemma normAngle_range: "0 \<le> normAngle r \<and> normAngle r < TWO_PI"
proof -
  let ?m = "js_rem r TWO_PI + TWO_PI"
  have "0 \<le> ?m" using js_rem_bounds[OF TWO_PI_pos, of r] by simp
  then have "0 \<le> js_rem ?m TWO_PI" using js_rem_bounds[OF TWO_PI_pos, of ?m] by simp
  then show ?thesis using js_rem_bounds[OF TWO_PI_pos, of ?m] by (simp add: normAngle_def)
qed

lemma normAngle_nonneg: "0 \<le> r \<Longrightarrow> r < TWO_PI \<Longrightarrow> normAngle r = r"
proof -
  assume a: "0 \<le> r" "r < TWO_PI"
  have 1: "js_rem r TWO_PI = r" using a by (intro js_rem_id TWO_PI_pos) simp_all
  have 2: "js_rem (r + TWO_PI) TWO_PI = r + TWO_PI - TWO_PI"
    using a by (intro js_rem_once TWO_PI_pos) simp_all
  show ?thesis by (simp add: normAngle_def 1 2)
qed

lemma normAngle_neg: "- TWO_PI < r \<Longrightarrow> r < 0 \<Longrightarrow> normAngle r = r + TWO_PI"
proof -
  assume a: "- TWO_PI < r" "r < 0"
  have 1: "js_rem r TWO_PI = r" using a TWO_PI_pos by (intro js_rem_id) simp_all
  have 2: "js_rem (r + TWO_PI) TWO_PI = r + TWO_PI"
    using a TWO_PI_pos by (intro js_rem_id) simp_all
  show ?thesis by (simp add: normAngle_def 1 2)
qed

lemma atan2_range: "- pi < atan2 y x \<and> atan2 y x \<le> pi"
proof -
  have a: "- (pi / 2) < arctan (y / x) \<and> arctan (y / x) < pi / 2"
    using arctan_lbound arctan_ubound by blast
  have p: "0 < pi" by simp
  show ?thesis
  proof (cases "0 < x")
    case True
    then show ?thesis using a p by (simp add: atan2_def; linarith)
  next
    case nx: False
    show ?thesis
    proof (cases "x < 0")
      case True
      show ?thesis
      proof (cases "0 \<le> y")
        case y: True
        then have "y / x \<le> 0" using True by (simp add: divide_nonneg_neg)
        then have "arctan (y / x) \<le> 0" by (simp add: arctan_le_zero_iff)
        then show ?thesis using True nx y a p by (simp add: atan2_def; linarith)
      next
        case y: False
        then have "0 < y / x" using True by (simp add: zero_less_divide_iff)
        then have "0 < arctan (y / x)" by (simp add: zero_less_arctan_iff)
        then show ?thesis using True nx y a p by (simp add: atan2_def; linarith)
      qed
    next
      case False
      then have "x = 0" using nx by simp
      then show ?thesis using p by (simp add: atan2_def; linarith)
    qed
  qed
qed

lemma normAngle_atan2:
  "normAngle (atan2 y x) = (if atan2 y x < 0 then atan2 y x + TWO_PI else atan2 y x)"
proof -
  have r: "- pi < atan2 y x \<and> atan2 y x \<le> pi" by (rule atan2_range)
  have p: "0 < pi" by simp
  show ?thesis
  proof (cases "atan2 y x < 0")
    case True
    then show ?thesis using r p by (simp add: normAngle_neg TWO_PI_def)
  next
    case False
    have "atan2 y x < TWO_PI" using r p by (simp add: TWO_PI_def)
    then show ?thesis using False by (simp add: normAngle_nonneg)
  qed
qed

lemma ringAngleOf_range: "0 \<le> ringAngleOf c \<and> ringAngleOf c < TWO_PI"
  by (simp add: ringAngleOf_def normAngle_range)

lemma angleGap_same: "0 \<le> a \<Longrightarrow> a < TWO_PI \<Longrightarrow> js_rem (a - a + TWO_PI) TWO_PI = 0"
  using js_rem_once[OF TWO_PI_pos, of TWO_PI] TWO_PI_pos by simp

lemma gap_closed_form:
  assumes "0 \<le> a" "a < TWO_PI" "0 \<le> b" "b < TWO_PI"
  shows "js_rem (a - b + TWO_PI) TWO_PI = (if b \<le> a then a - b else a - b + TWO_PI)"
proof (cases "b \<le> a")
  case True
  then have "js_rem (a - b + TWO_PI) TWO_PI = a - b + TWO_PI - TWO_PI"
    using assms by (intro js_rem_once TWO_PI_pos) simp_all
  then show ?thesis using True by simp
next
  case False
  then have "js_rem (a - b + TWO_PI) TWO_PI = a - b + TWO_PI"
    using assms TWO_PI_pos by (intro js_rem_id) simp_all
  then show ?thesis using False by simp
qed

subsection \<open>Checkpoints, continued\<close>

lemma updateStateMachine_through:
  assumes "\<not> failed (car g)" "phase (car g) \<noteq> Completed"
    "onRoad (car g) (distFromCenter (car g))" "\<not> collision (car g) (npcs g)"
    "\<not> graceActive (car g)"
  shows "updateStateMachine dt g = phaseStep (distFromCenter (car g)) g"
  using assms by (simp add: updateStateMachine_def Let_def graceCountdown_def)

lemma tick_flags:
  "missionIndex (fst (tick dt rnd g)) = missionIndex g + 1 \<or>
   ((checkBDone g \<longrightarrow> checkBDone (fst (tick dt rnd g))) \<and>
    (checkCDone g \<longrightarrow> checkCDone (fst (tick dt rnd g))) \<and>
    (checkDDone g \<longrightarrow> checkDDone (fst (tick dt rnd g))))"
proof (cases "preview g \<or> indDebug g")
  case True
  then show ?thesis by (auto simp: tick_def)
next
  case False
  let ?c1 = "physics (dt * 60) (keys g) (car g)"
  let ?tr = "updateNPCs dt (dt * 60) rnd ?c1 (npcs g) (rng g)"
  let ?g1 = "g\<lparr>car := ?c1, npcs := fst ?tr, rng := snd ?tr\<rparr>"
  let ?g2 = "updateStateMachine dt ?g1"
  have mi: "missionIndex ?g2 = missionIndex g"
    using updateStateMachine_same[of ?g1 dt] by (simp add: sameWorld_def)
  have mono: "(checkBDone g \<longrightarrow> checkBDone ?g2) \<and> (checkCDone g \<longrightarrow> checkCDone ?g2) \<and>
      (checkDDone g \<longrightarrow> checkDDone ?g2)"
    using updateStateMachine_flags_mono[of ?g1 dt] by simp
  have u: "fst (tick dt rnd g) = (case completeCountdown dt ?g2 of Inl g3 \<Rightarrow> g3 | Inr g3 \<Rightarrow> g3)"
    using False by (simp add: tick_def Let_def split: sum.splits)
  consider
    (a) "completeCountdown dt ?g2 =
          Inl (restart (?g2\<lparr>completeTimer := 0, missionIndex := missionIndex ?g2 + 1\<rparr>))"
  | (b) "completeCountdown dt ?g2 = Inr (?g2\<lparr>completeTimer := completeTimer ?g2 - dt\<rparr>)"
  | (c) "completeCountdown dt ?g2 = Inr ?g2"
    using completeCountdown_cases[of dt ?g2] by blast
  then show ?thesis
  proof cases
    case a
    then show ?thesis unfolding u by (simp add: restart_index mi)
  next
    case b
    then show ?thesis unfolding u using mono by simp
  next
    case c
    then show ?thesis unfolding u using mono by simp
  qed
qed

lemma update_flags:
  "missionIndex (fst (update delta rnd g)) = missionIndex g + 1 \<or>
   ((checkBDone g \<longrightarrow> checkBDone (fst (update delta rnd g))) \<and>
    (checkCDone g \<longrightarrow> checkCDone (fst (update delta rnd g))) \<and>
    (checkDDone g \<longrightarrow> checkDDone (fst (update delta rnd g))))"
  unfolding update_def Let_def by (rule tick_flags)

lemma gRing_car:
  "car gRing = newCar\<lparr>targetExit := East, targetExitNum := 3, exitTravelTarget := 3 * pi / 2,
      requiredLane := Inner, requiredRingLane := Inner, phase := OnRoundabout,
      pos_x := 0, pos_z := 15, traveledAngle := pi - 0.1\<rparr>"
  by (simp add: gRing_def nextMission_def restart_def assignMission_def Let_def startGame_def
      newGame_def newCar_def EXITS_def)

lemma gRing_flags:
  "\<not> checkBDone gRing \<and> \<not> checkCDone gRing \<and> \<not> checkDDone gRing \<and> npcs gRing = [] \<and>
   prevRingAngle gRing = Some (3 * pi / 2)"
  by (simp add: gRing_def nextMission_def restart_def assignMission_def Let_def startGame_def
      newGame_def)

lemma gRing_dist: "distFromCenter (car gRing) = 15"
  by (simp add: gRing_car distFromCenter_def newCar_def)

lemma gRing_angle: "ringAngleOf (car gRing) = 3 * pi / 2"
proof -
  have "atan2 (- 15) 0 = - (pi / 2)" by (simp add: atan2_def)
  moreover have "normAngle (- (pi / 2)) = - (pi / 2) + TWO_PI"
    by (rule normAngle_neg) (simp_all add: TWO_PI_def)
  ultimately show ?thesis by (simp add: ringAngleOf_def gRing_car newCar_def TWO_PI_def)
qed

lemma gRing_step:
  "updateStateMachine dt gRing = phaseOnRoundabout 15 gRing"
proof -
  have "onRoad (car gRing) 15"
    by (simp add: onRoad_def RB_IN_def RB_OUT_def)
  then show ?thesis
    using updateStateMachine_through[of gRing dt] gRing_flags
    by (simp add: gRing_dist phaseStep_def) (simp add: gRing_car newCar_def)
qed

subsection \<open>The traffic update, agent by agent\<close>

lemma updateNPC_shape:
  "\<exists>n' k'. updateNPC dt s rnd c i st = ((fst st)[i := n'], k')"
  by (auto simp: updateNPC_def Let_def split: npc_state.splits)

lemma updateNPC_length: "length (fst (updateNPC dt s rnd c i st)) = length (fst st)"
  using updateNPC_shape[of dt s rnd c i st] by auto

lemma updateNPC_other: "j \<noteq> i \<Longrightarrow> fst (updateNPC dt s rnd c i st) ! j = fst st ! j"
  using updateNPC_shape[of dt s rnd c i st] by auto

lemma updateNPC_despawned:
  assumes "npc_state (fst st ! i) = Npc_despawned" "0 < respawnTimer (fst st ! i) - dt"
  shows "updateNPC dt s rnd c i st =
           ((fst st)[i := (fst st ! i)\<lparr>respawnTimer := respawnTimer (fst st ! i) - dt\<rparr>], snd st)"
  using assms by (simp add: updateNPC_def Let_def)

lemma fold_updateNPC:
  assumes "m \<le> length ns"
  shows "length (fst (fold (updateNPC dt s rnd c) [0..<m] (ns, k))) = length ns \<and>
         (\<forall>j\<ge>m. fst (fold (updateNPC dt s rnd c) [0..<m] (ns, k)) ! j = ns ! j) \<and>
         (\<forall>j<m. npc_state (ns ! j) = Npc_despawned \<and> 0 < respawnTimer (ns ! j) - dt \<longrightarrow>
            fst (fold (updateNPC dt s rnd c) [0..<m] (ns, k)) ! j =
              (ns ! j)\<lparr>respawnTimer := respawnTimer (ns ! j) - dt\<rparr>)"
  using assms
proof (induction m)
  case 0
  show ?case by simp
next
  case (Suc m)
  let ?st = "fold (updateNPC dt s rnd c) [0..<m] (ns, k)"
  have ih: "length (fst ?st) = length ns"
    "\<forall>j\<ge>m. fst ?st ! j = ns ! j"
    "\<forall>j<m. npc_state (ns ! j) = Npc_despawned \<and> 0 < respawnTimer (ns ! j) - dt \<longrightarrow>
       fst ?st ! j = (ns ! j)\<lparr>respawnTimer := respawnTimer (ns ! j) - dt\<rparr>"
    using Suc by simp_all
  have f: "fold (updateNPC dt s rnd c) [0..<Suc m] (ns, k) = updateNPC dt s rnd c m ?st"
    by simp
  have m: "fst ?st ! m = ns ! m" using ih(2) by simp
  have len: "length (fst (updateNPC dt s rnd c m ?st)) = length ns"
    by (simp add: updateNPC_length ih(1))
  have above: "\<forall>j\<ge>Suc m. fst (updateNPC dt s rnd c m ?st) ! j = ns ! j"
    using ih(2) by (simp add: updateNPC_other)
  have below: "fst (updateNPC dt s rnd c m ?st) ! j =
      (ns ! j)\<lparr>respawnTimer := respawnTimer (ns ! j) - dt\<rparr>"
    if j: "j < Suc m" and d: "npc_state (ns ! j) = Npc_despawned \<and> 0 < respawnTimer (ns ! j) - dt"
    for j
  proof (cases "j = m")
    case True
    have "updateNPC dt s rnd c m ?st =
        ((fst ?st)[m := (fst ?st ! m)\<lparr>respawnTimer := respawnTimer (fst ?st ! m) - dt\<rparr>], snd ?st)"
      using d True m by (intro updateNPC_despawned) simp_all
    then show ?thesis using True m ih(1) Suc.prems by simp
  next
    case False
    then have "j < m" using j by simp
    then show ?thesis using ih(3) d False by (simp add: updateNPC_other)
  qed
  show ?case unfolding f using len above below by blast
qed

lemma updateNPCs_despawned:
  assumes "i < length ns" "npc_state (ns ! i) = Npc_despawned" "0 < respawnTimer (ns ! i) - dt"
  shows "fst (updateNPCs dt s rnd c ns k) ! i = (ns ! i)\<lparr>respawnTimer := respawnTimer (ns ! i) - dt\<rparr>"
    and "length (fst (updateNPCs dt s rnd c ns k)) = length ns"
  using fold_updateNPC[of "length ns" ns dt s rnd c k] assms by (simp_all add: updateNPCs_def)

subsection \<open>A failed player is no obstacle\<close>







subsection \<open>Entry yield\<close>

lemma yieldLoop_hit:
  "j < length rest \<Longrightarrow> start + j \<noteq> i \<Longrightarrow> otherYield entryInt (rest ! j) \<Longrightarrow>
   yieldLoop entryInt i start rest"
proof (induction rest arbitrary: start j)
  case Nil
  then show ?case by simp
next
  case (Cons other rest)
  show ?case
  proof (cases j)
    case 0
    then show ?thesis using Cons.prems by simp
  next
    case (Suc j')
    then have "yieldLoop entryInt i (Suc start) rest"
      using Cons.prems by (intro Cons.IH[of j']) simp_all
    then show ?thesis by auto
  qed
qed

lemma entryYield_other:
  assumes "npc_state (ns ! i) = Npc_approaching"
    "sqrt (mesh_x (ns ! i) * mesh_x (ns ! i) + mesh_z (ns ! i) * mesh_z (ns ! i)) < RB_OUT + 14"
    "j < length ns" "j \<noteq> i" "npc_state (ns ! j) = Npc_on_roundabout"
    "angleGap (entryAngleOf (ns ! i)) (mesh_x (ns ! j)) (mesh_z (ns ! j)) < 0.9"
  shows "entryYield c ns i"
proof -
  let ?e = "ringIntersect (entryArm (ns ! i)) (ringRadius (ns ! i))
              (ringRadius (ns ! i) = NPC_OUTER_R) True"
  have "otherYield ?e (ns ! j)"
    using assms(5,6) by (simp add: otherYield_def entryAngleOf_def)
  then have "yieldLoop ?e i 0 ns"
    using assms(3,4) by (intro yieldLoop_hit[of j]) simp_all
  then show ?thesis using assms(1,2) by (simp add: entryYield_def Let_def)
qed

lemma entryYield_player:
  assumes "npc_state (ns ! i) = Npc_approaching"
    "sqrt (mesh_x (ns ! i) * mesh_x (ns ! i) + mesh_z (ns ! i) * mesh_z (ns ! i)) < RB_OUT + 14"
    "\<not> failed c" "phase c = OnRoundabout"
    "angleGap (entryAngleOf (ns ! i)) (pos_x c) (pos_z c) < 0.9"
  shows "entryYield c ns i"
  using assms by (simp add: entryYield_def Let_def playerYield_def entryAngleOf_def)

lemma updateNPC_approaching_speed:
  assumes "i < length ns" "npc_state (ns ! i) = Npc_approaching"
  shows "npc_speed (fst (updateNPC dt s rnd c i (ns, k)) ! i) = npcFollowSpeed c ns i"
  using assms by (simp add: updateNPC_def Let_def stepApproaching_def)

lemma entryAngleOf_range: "0 \<le> entryAngleOf n \<and> entryAngleOf n < TWO_PI"
  by (simp add: entryAngleOf_def ringIntersect_def Let_def normAngle_range)

lemma angleGap_closed_form:
  "angleGap (entryAngleOf n) x z =
     (if normAngle (atan2 x (- z)) \<le> entryAngleOf n
      then entryAngleOf n - normAngle (atan2 x (- z))
      else entryAngleOf n - normAngle (atan2 x (- z)) + TWO_PI)"
  unfolding angleGap_def
  using gap_closed_form[of "entryAngleOf n" "normAngle (atan2 x (- z))"]
    entryAngleOf_range[of n] normAngle_range[of "atan2 x (- z)"]
  by simp

text \<open>
  Claim C5. Take an agent in state \<open>approaching\<close> whose distance from the ring centre is
  below \<open>RB_OUT + 14\<close>. If some other agent is in state \<open>on_roundabout\<close> with its ring
  angle within 0.9 radians before the entry angle, or if the player has not failed, is on
  the ring and is within that gap, then \<open>_npcFollowSpeed\<close> returns exactly 0, and that is
  the speed \<open>_updateNPCs\<close> stores in the agent on that tick. The gap is
  \<open>(entryAngle - angle + 2\<pi>) % 2\<pi>\<close>; both angles being normalised, that is
  \<open>entryAngle - angle\<close> taken modulo \<open>2\<pi>\<close>.
\<close>

theorem entry_yield:
  "(i < length ns \<and> npc_state (ns ! i) = Npc_approaching \<and>
    sqrt (mesh_x (ns ! i) * mesh_x (ns ! i) + mesh_z (ns ! i) * mesh_z (ns ! i)) < RB_OUT + 14 \<and>
    ((\<exists>j<length ns. j \<noteq> i \<and> npc_state (ns ! j) = Npc_on_roundabout \<and>
        angleGap (entryAngleOf (ns ! i)) (mesh_x (ns ! j)) (mesh_z (ns ! j)) < 0.9) \<or>
     (\<not> failed c \<and> phase c = OnRoundabout \<and>
        angleGap (entryAngleOf (ns ! i)) (pos_x c) (pos_z c) < 0.9)) \<longrightarrow>
    npcFollowSpeed c ns i = 0 \<and>
    npc_speed (fst (updateNPC dt dtScale rnd c i (ns, k)) ! i) = 0) \<and>
   angleGap (entryAngleOf n) x z =
     (if normAngle (atan2 x (- z)) \<le> entryAngleOf n
      then entryAngleOf n - normAngle (atan2 x (- z))
      else entryAngleOf n - normAngle (atan2 x (- z)) + TWO_PI)"
proof -
  have "npcFollowSpeed c ns i = 0 \<and>
    npc_speed (fst (updateNPC dt dtScale rnd c i (ns, k)) ! i) = 0"
    if a: "i < length ns \<and> npc_state (ns ! i) = Npc_approaching \<and>
    sqrt (mesh_x (ns ! i) * mesh_x (ns ! i) + mesh_z (ns ! i) * mesh_z (ns ! i)) < RB_OUT + 14 \<and>
    ((\<exists>j<length ns. j \<noteq> i \<and> npc_state (ns ! j) = Npc_on_roundabout \<and>
        angleGap (entryAngleOf (ns ! i)) (mesh_x (ns ! j)) (mesh_z (ns ! j)) < 0.9) \<or>
     (\<not> failed c \<and> phase c = OnRoundabout \<and>
        angleGap (entryAngleOf (ns ! i)) (pos_x c) (pos_z c) < 0.9))"
  proof -
    have "entryYield c ns i"
      using a entryYield_other[of ns i _ c] entryYield_player[of ns i c] by blast
    then have "npcFollowSpeed c ns i = 0" by (simp add: npcFollowSpeed_def)
    then show ?thesis using a updateNPC_approaching_speed[of i ns dt dtScale rnd c k] by simp
  qed
  then show ?thesis using angleGap_closed_form[of n x z] by blast
qed

lemma approachingNpc_dist:
  "sqrt (mesh_x approachingNpc * mesh_x approachingNpc
         + mesh_z approachingNpc * mesh_z approachingNpc) < RB_OUT + 14"
  by (rule real_less_lsqrt) (simp_all add: approachingNpc_def RB_OUT_def power2_eq_square)

lemma ringNpc_gap:
  "angleGap (entryAngleOf approachingNpc) (mesh_x ringNpc) (mesh_z ringNpc) = 0"
proof -
  let ?e = "ringIntersect South NPC_OUTER_R True True"
  have e: "entryAngleOf approachingNpc = int_ringAngle ?e"
    by (simp add: entryAngleOf_def approachingNpc_def)
  have o: "normAngle (atan2 (mesh_x ringNpc) (- mesh_z ringNpc)) = int_ringAngle ?e"
    by (simp add: ringNpc_def ringIntersect_def Let_def)
  show ?thesis
    unfolding angleGap_def e o
    using angleGap_same[of "int_ringAngle ?e"] entryAngleOf_range[of approachingNpc] e by simp
qed

theorem entry_yield_witness:
  "(0::nat) < length [approachingNpc, ringNpc] \<and>
   npc_state ([approachingNpc, ringNpc] ! 0) = Npc_approaching \<and>
   npc_state ([approachingNpc, ringNpc] ! 1) = Npc_on_roundabout \<and>
   sqrt (mesh_x approachingNpc * mesh_x approachingNpc
         + mesh_z approachingNpc * mesh_z approachingNpc) < RB_OUT + 14 \<and>
   angleGap (entryAngleOf approachingNpc) (mesh_x ringNpc) (mesh_z ringNpc) < 0.9 \<and>
   npcFollowSpeed newCar [approachingNpc, ringNpc] 0 = 0 \<and>
   npc_speed (fst (updateNPC 0.016 0.96 (\<lambda>_. 0) newCar 0 ([approachingNpc, ringNpc], 0)) ! 0) = 0"
proof -
  have s: "npc_state approachingNpc = Npc_approaching \<and> npc_state ringNpc = Npc_on_roundabout"
    by (simp add: approachingNpc_def ringNpc_def)
  have ex: "\<exists>j<length [approachingNpc, ringNpc]. j \<noteq> 0 \<and>
      npc_state ([approachingNpc, ringNpc] ! j) = Npc_on_roundabout \<and>
      angleGap (entryAngleOf ([approachingNpc, ringNpc] ! 0))
        (mesh_x ([approachingNpc, ringNpc] ! j)) (mesh_z ([approachingNpc, ringNpc] ! j)) < 0.9"
    by (rule exI[of _ 1]) (simp add: s ringNpc_gap)
  show ?thesis
    using entry_yield[of 0 "[approachingNpc, ringNpc]" newCar "0.016" "0.96" "\<lambda>_. 0" 0]
      ex s approachingNpc_dist ringNpc_gap
    by simp
qed

subsection \<open>The tick, part by part\<close>

lemma tick_play:
  assumes "\<not> preview g" "\<not> indDebug g"
  shows "fst (tick dt rnd g) =
     (case completeCountdown dt
        (updateStateMachine dt
           (g\<lparr>car := physics (dt * 60) (keys g) (car g),
              npcs := fst (updateNPCs dt (dt * 60) rnd (physics (dt * 60) (keys g) (car g))
                            (npcs g) (rng g)),
              rng := snd (updateNPCs dt (dt * 60) rnd (physics (dt * 60) (keys g) (car g))
                            (npcs g) (rng g))\<rparr>))
      of Inl g3 \<Rightarrow> g3 | Inr g3 \<Rightarrow> g3)"
  using assms by (simp add: tick_def Let_def split: sum.splits)

lemma completeCountdown_frame:
  "(case completeCountdown dt g of Inl g3 \<Rightarrow> npcs g3 | Inr g3 \<Rightarrow> npcs g3) = npcs g"
  using completeCountdown_cases[of dt g]
  by (auto simp: restart_def assignMission_def Let_def)

lemma tick_npcs:
  assumes "\<not> preview g" "\<not> indDebug g"
  shows "npcs (fst (tick dt rnd g)) =
     fst (updateNPCs dt (dt * 60) rnd (physics (dt * 60) (keys g) (car g)) (npcs g) (rng g))"
proof -
  let ?c1 = "physics (dt * 60) (keys g) (car g)"
  let ?tr = "updateNPCs dt (dt * 60) rnd ?c1 (npcs g) (rng g)"
  let ?g1 = "g\<lparr>car := ?c1, npcs := fst ?tr, rng := snd ?tr\<rparr>"
  let ?g2 = "updateStateMachine dt ?g1"
  have n2: "npcs ?g2 = fst ?tr"
    using updateStateMachine_same[of ?g1 dt] by (simp add: sameWorld_def)
  have "npcs (fst (tick dt rnd g)) =
      (case completeCountdown dt ?g2 of Inl g3 \<Rightarrow> npcs g3 | Inr g3 \<Rightarrow> npcs g3)"
    unfolding tick_play[OF assms] by (simp split: sum.splits)
  then show ?thesis using completeCountdown_frame[of dt ?g2] n2 by simp
qed

lemma updateStateMachine_completeTimer:
  "completeTimer (updateStateMachine dt g) = completeTimer g \<or>
   completeTimer (updateStateMachine dt g) = 2"
proof -
  have ps: "completeTimer (phaseStep dst g') = completeTimer g' \<or>
            completeTimer (phaseStep dst g') = 2" for dst g'
    by (simp add: phaseStep_def phaseApproaching_fields phaseOnRoundabout_fields
        phaseExiting_def split: phase.splits)
  show ?thesis
    using ps[of "distFromCenter (car g)" "g\<lparr>car := c\<rparr>" for c]
    by (auto simp: updateStateMachine_def Let_def split: sum.splits)
qed

lemma grace_not_expired:
  assumes "\<not> failed (car g)" "graceActive (car g)" "dt < graceTimer (car g)"
  shows "\<not> (failed (car (updateStateMachine dt g)) \<and>
            failReason (car (updateStateMachine dt g)) \<in> {Some NoSignal, Some WrongLane})"
proof (cases "phase (car g) = Completed")
  case True
  then show ?thesis using assms by (simp add: updateStateMachine_def)
next
  case nc: False
  show ?thesis
  proof (cases "onRoad (car g) (distFromCenter (car g))")
    case False
    then show ?thesis
      using assms nc by (simp add: updateStateMachine_def Let_def offRoadReason_def)
  next
    case on: True
    show ?thesis
    proof (cases "collision (car g) (npcs g)")
      case True
      then show ?thesis using assms nc on by (simp add: updateStateMachine_def Let_def)
    next
      case False
      have "\<exists>c. graceCountdown dt (distFromCenter (car g)) (car g) = Inr c \<and> \<not> failed c"
        using assms by (simp add: graceCountdown_def Let_def)
      then obtain c where
        gc: "graceCountdown dt (distFromCenter (car g)) (car g) = Inr c" and nf: "\<not> failed c"
        by blast
      have "\<not> failed (car (updateStateMachine dt g))"
        using assms nc on False gc nf
        by (simp add: updateStateMachine_def Let_def phaseStep_verdict)
      then show ?thesis by simp
    qed
  qed
qed

lemma physics_rule_fields:
  "phase (physics s ks c) = phase c \<and> traveledAngle (physics s ks c) = traveledAngle c \<and>
   approachLane (physics s ks c) = approachLane c \<and> ringLane (physics s ks c) = ringLane c \<and>
   graceActive (physics s ks c) = graceActive c \<and> graceTimer (physics s ks c) = graceTimer c \<and>
   graceRequired (physics s ks c) = graceRequired c \<and> failed (physics s ks c) = failed c \<and>
   failReason (physics s ks c) = failReason c \<and>
   leftIndicator (physics s ks c) = leftIndicator c \<and>
   rightIndicator (physics s ks c) = rightIndicator c"
  by (simp add: physics_def Let_def)

lemma tick_grace:
  assumes "\<not> failed (car g)" "graceActive (car g)" "dt < graceTimer (car g)"
  shows "\<not> (failed (car (fst (tick dt rnd g))) \<and>
            failReason (car (fst (tick dt rnd g))) \<in> {Some NoSignal, Some WrongLane})"
proof (cases "preview g \<or> indDebug g")
  case True
  then show ?thesis using assms by (auto simp: tick_def)
next
  case False
  let ?c1 = "physics (dt * 60) (keys g) (car g)"
  let ?tr = "updateNPCs dt (dt * 60) rnd ?c1 (npcs g) (rng g)"
  let ?g1 = "g\<lparr>car := ?c1, npcs := fst ?tr, rng := snd ?tr\<rparr>"
  let ?g2 = "updateStateMachine dt ?g1"
  have a1: "\<not> failed (car ?g1)" "graceActive (car ?g1)" "dt < graceTimer (car ?g1)"
    using assms by (simp_all add: physics_rule_fields)
  note ne = grace_not_expired[OF a1]
  have u: "fst (tick dt rnd g) = (case completeCountdown dt ?g2 of Inl g3 \<Rightarrow> g3 | Inr g3 \<Rightarrow> g3)"
    using False by (simp add: tick_play)
  consider
    (a) "completeCountdown dt ?g2 =
          Inl (restart (?g2\<lparr>completeTimer := 0, missionIndex := missionIndex ?g2 + 1\<rparr>))"
  | (b) "completeCountdown dt ?g2 = Inr (?g2\<lparr>completeTimer := completeTimer ?g2 - dt\<rparr>)"
  | (c) "completeCountdown dt ?g2 = Inr ?g2"
    using completeCountdown_cases[of dt ?g2] by blast
  then show ?thesis
  proof cases
    case a
    then show ?thesis unfolding u by (simp add: restart_def assignMission_def Let_def)
  next
    case b
    then show ?thesis unfolding u using ne by simp
  next
    case c
    then show ?thesis unfolding u using ne by simp
  qed
qed

lemma tick_complete:
  assumes "dt < completeTimer g" "0 < completeTimer g" "dt \<le> 0.1"
  shows "missionIndex (fst (tick dt rnd g)) = missionIndex g \<and> 0 < completeTimer (fst (tick dt rnd g))"
proof (cases "preview g \<or> indDebug g")
  case True
  then show ?thesis using assms by (auto simp: tick_def)
next
  case False
  let ?c1 = "physics (dt * 60) (keys g) (car g)"
  let ?tr = "updateNPCs dt (dt * 60) rnd ?c1 (npcs g) (rng g)"
  let ?g1 = "g\<lparr>car := ?c1, npcs := fst ?tr, rng := snd ?tr\<rparr>"
  let ?g2 = "updateStateMachine dt ?g1"
  have mi: "missionIndex ?g2 = missionIndex g"
    using updateStateMachine_same[of ?g1 dt] by (simp add: sameWorld_def)
  have ct: "completeTimer ?g2 = completeTimer g \<or> completeTimer ?g2 = 2"
    using updateStateMachine_completeTimer[of dt ?g1] by simp
  have pos: "0 < completeTimer ?g2 \<and> 0 < completeTimer ?g2 - dt"
    using ct assms by auto
  have cc: "completeCountdown dt ?g2 = Inr (?g2\<lparr>completeTimer := completeTimer ?g2 - dt\<rparr>)"
    using pos by (simp add: completeCountdown_def Let_def)
  have u: "fst (tick dt rnd g) = (case completeCountdown dt ?g2 of Inl g3 \<Rightarrow> g3 | Inr g3 \<Rightarrow> g3)"
    using False by (simp add: tick_play)
  show ?thesis unfolding u cc using mi pos by simp
qed

text \<open>
  Claim C9. \<open>_update\<close> passes \<open>min delta 0.1\<close>, never more than 0.1 seconds, to everything
  that takes a time: the integrator (as \<open>dtScale\<close>, 60 times it), the rule engine with
  the grace timer, the traffic with the respawn timers, and the completion countdown. A
  gap of 0.1 seconds or more gives the tick of a gap of 0.1 exactly. So, whatever the gap:
  a grace period with more than 0.1 seconds left does not expire on that tick; a
  completion countdown with more than 0.1 left does not run out (the mission index stays
  and the timer stays positive); a despawned agent with more than 0.1 seconds of cooldown
  left stays despawned, its timer lower by the capped step.
\<close>

theorem tick_duration_cap:
  "update delta rnd g = tick (min delta 0.1) rnd g \<and> min delta 0.1 \<le> (0.1::real) \<and>
   (0.1 \<le> delta \<longrightarrow> update delta rnd g = update 0.1 rnd g) \<and>
   (\<not> failed (car g) \<and> graceActive (car g) \<and> 0.1 < graceTimer (car g) \<longrightarrow>
      \<not> (failed (car (fst (update delta rnd g))) \<and>
         failReason (car (fst (update delta rnd g))) \<in> {Some NoSignal, Some WrongLane})) \<and>
   (0.1 < completeTimer g \<longrightarrow>
      missionIndex (fst (update delta rnd g)) = missionIndex g \<and>
      0 < completeTimer (fst (update delta rnd g))) \<and>
   (\<not> preview g \<and> \<not> indDebug g \<and> i < length (npcs g) \<and>
    npc_state (npcs g ! i) = Npc_despawned \<and> 0.1 < respawnTimer (npcs g ! i) \<longrightarrow>
      npc_state (npcs (fst (update delta rnd g)) ! i) = Npc_despawned \<and>
      respawnTimer (npcs (fst (update delta rnd g)) ! i) =
        respawnTimer (npcs g ! i) - min delta 0.1 \<and>
      0 < respawnTimer (npcs (fst (update delta rnd g)) ! i))"
proof -
  define dt where "dt = min delta (0.1::real)"
  have le: "dt \<le> 0.1" by (simp add: dt_def)
  have u: "update delta rnd g = tick dt rnd g" by (simp add: update_def Let_def dt_def)
  have big: "update delta rnd g = update 0.1 rnd g" if "0.1 \<le> delta"
  proof -
    have "min delta 0.1 = (0.1::real)" using that by (rule min_absorb2)
    then show ?thesis by (simp add: update_def Let_def)
  qed
  have gr: "\<not> (failed (car (fst (tick dt rnd g))) \<and>
         failReason (car (fst (tick dt rnd g))) \<in> {Some NoSignal, Some WrongLane})"
    if "\<not> failed (car g) \<and> graceActive (car g) \<and> 0.1 < graceTimer (car g)"
    using that le by (intro tick_grace) simp_all
  have co: "missionIndex (fst (tick dt rnd g)) = missionIndex g \<and>
      0 < completeTimer (fst (tick dt rnd g))" if "0.1 < completeTimer g"
    using that le by (intro tick_complete) simp_all
  have np: "npc_state (npcs (fst (tick dt rnd g)) ! i) = Npc_despawned \<and>
      respawnTimer (npcs (fst (tick dt rnd g)) ! i) = respawnTimer (npcs g ! i) - dt \<and>
      0 < respawnTimer (npcs (fst (tick dt rnd g)) ! i)"
    if a: "\<not> preview g \<and> \<not> indDebug g \<and> i < length (npcs g) \<and>
      npc_state (npcs g ! i) = Npc_despawned \<and> 0.1 < respawnTimer (npcs g ! i)"
  proof -
    have p: "0 < respawnTimer (npcs g ! i) - dt" using a le by simp
    have "npcs (fst (tick dt rnd g)) ! i =
        (npcs g ! i)\<lparr>respawnTimer := respawnTimer (npcs g ! i) - dt\<rparr>"
      using a p by (simp add: tick_npcs updateNPCs_despawned(1))
    then show ?thesis using a p by simp
  qed
  show ?thesis
    unfolding u using le big[unfolded u] gr co np unfolding dt_def[symmetric]
    by (simp add: dt_def[symmetric])
qed

lemma gWait_facts:
  "\<not> preview gWait \<and> \<not> indDebug gWait \<and> completeTimer gWait = 1.5 \<and> missionIndex gWait = 0 \<and>
   length (npcs gWait) = 5 \<and> npc_state (npcs gWait ! 0) = Npc_despawned \<and>
   respawnTimer (npcs gWait ! 0) = 2.5"
  by (simp add: gWait_def startGame_def newGame_def assignMission_def Let_def newNpc_def)

lemma gLate_facts:
  "\<not> failed (car gLate) \<and> graceActive (car gLate) \<and> graceTimer (car gLate) = 3"
  by (simp add: gLate_def startGame_def newGame_def assignMission_def Let_def newCar_def)

theorem tick_duration_cap_witness:
  "(0.1::real) \<le> 30 \<and> min 30 0.1 = (0.1::real) \<and>
   update 30 (\<lambda>_. 0) gWait = update 0.1 (\<lambda>_. 0) gWait \<and>
   0.1 < completeTimer gWait \<and>
   missionIndex (fst (update 30 (\<lambda>_. 0) gWait)) = missionIndex gWait \<and>
   0 < completeTimer (fst (update 30 (\<lambda>_. 0) gWait)) \<and>
   \<not> preview gWait \<and> \<not> indDebug gWait \<and> 0 < length (npcs gWait) \<and>
   npc_state (npcs gWait ! 0) = Npc_despawned \<and> 0.1 < respawnTimer (npcs gWait ! 0) \<and>
   npc_state (npcs (fst (update 30 (\<lambda>_. 0) gWait)) ! 0) = Npc_despawned \<and>
   respawnTimer (npcs (fst (update 30 (\<lambda>_. 0) gWait)) ! 0) = 2.4 \<and>
   \<not> failed (car gLate) \<and> graceActive (car gLate) \<and> 0.1 < graceTimer (car gLate) \<and>
   \<not> (failed (car (fst (update 30 (\<lambda>_. 0) gLate))) \<and>
      failReason (car (fst (update 30 (\<lambda>_. 0) gLate))) \<in> {Some NoSignal, Some WrongLane})"
proof -
  note w = tick_duration_cap[of 30 "\<lambda>_. 0" gWait 0]
  note l = tick_duration_cap[of 30 "\<lambda>_. 0" gLate 0]
  have h1: "(0.1::real) \<le> 30" by simp
  have h2: "min 30 0.1 = (0.1::real)" by simp
  have h3: "0.1 < completeTimer gWait" using gWait_facts by simp
  have h4: "\<not> preview gWait \<and> \<not> indDebug gWait \<and> 0 < length (npcs gWait) \<and>
      npc_state (npcs gWait ! 0) = Npc_despawned \<and> 0.1 < respawnTimer (npcs gWait ! 0)"
    using gWait_facts by simp
  have h5: "\<not> failed (car gLate) \<and> graceActive (car gLate) \<and> 0.1 < graceTimer (car gLate)"
    using gLate_facts by simp
  have c1: "update 30 (\<lambda>_. 0) gWait = update 0.1 (\<lambda>_. 0) gWait" using w h1 by blast
  have c2: "missionIndex (fst (update 30 (\<lambda>_. 0) gWait)) = missionIndex gWait \<and>
      0 < completeTimer (fst (update 30 (\<lambda>_. 0) gWait))" using w h3 by blast
  have c3: "npc_state (npcs (fst (update 30 (\<lambda>_. 0) gWait)) ! 0) = Npc_despawned \<and>
      respawnTimer (npcs (fst (update 30 (\<lambda>_. 0) gWait)) ! 0) =
        respawnTimer (npcs gWait ! 0) - min 30 0.1" using w h4 by blast
  have c4: "respawnTimer (npcs (fst (update 30 (\<lambda>_. 0) gWait)) ! 0) = 2.4"
    using c3 gWait_facts by simp
  have c5: "\<not> (failed (car (fst (update 30 (\<lambda>_. 0) gLate))) \<and>
      failReason (car (fst (update 30 (\<lambda>_. 0) gLate))) \<in> {Some NoSignal, Some WrongLane})"
    using l h5 by blast
  show ?thesis using h1 h2 h3 h4 h5 c1 c2 c3 c4 c5 by blast
qed

subsection \<open>After a failure\<close>








subsection \<open>The angle of a point of the ring\<close>

lemma sqrt_inv_cos2:
  assumes "cos th \<noteq> 0"
  shows "sqrt (1 + (sin th / cos th)\<^sup>2) = 1 / \<bar>cos th\<bar>"
proof -
  have "1 + (sin th / cos th)\<^sup>2 = 1 / (cos th)\<^sup>2"
    using assms sin_cos_squared_add2[of th] by (simp add: power_divide field_simps)
  also have "\<dots> = (1 / \<bar>cos th\<bar>)\<^sup>2" by (simp add: power_divide)
  finally have "sqrt (1 + (sin th / cos th)\<^sup>2) = sqrt ((1 / \<bar>cos th\<bar>)\<^sup>2)" by simp
  then show ?thesis by simp
qed

lemma atan2_polar:
  assumes "0 < r"
  shows "cos (atan2 (r * sin th) (r * cos th)) = cos th \<and>
         sin (atan2 (r * sin th) (r * cos th)) = sin th"
proof -
  have q: "r * sin th / (r * cos th) = sin th / cos th" using assms by simp
  consider (pos) "0 < cos th" | (neg) "cos th < 0" | (zero) "cos th = 0" by linarith
  then show ?thesis
  proof cases
    case pos
    then have x: "0 < r * cos th" using assms by simp
    have s: "sqrt (1 + (sin th / cos th)\<^sup>2) = 1 / cos th"
      using sqrt_inv_cos2[of th] pos by simp
    have a: "atan2 (r * sin th) (r * cos th) = arctan (sin th / cos th)"
      unfolding atan2_def q using x by simp
    show ?thesis unfolding a using pos by (simp add: cos_arctan sin_arctan s)
  next
    case neg
    then have x: "r * cos th < 0" using assms by (simp add: mult_pos_neg)
    have s: "sqrt (1 + (sin th / cos th)\<^sup>2) = - (1 / cos th)"
      using sqrt_inv_cos2[of th] neg by simp
    have a: "atan2 (r * sin th) (r * cos th) = arctan (sin th / cos th) + pi \<or>
             atan2 (r * sin th) (r * cos th) = arctan (sin th / cos th) - pi"
      unfolding atan2_def q using x by simp
    have c: "cos (arctan (sin th / cos th)) = - cos th"
      using neg by (simp add: cos_arctan s)
    have d: "sin (arctan (sin th / cos th)) = - sin th"
      using neg by (simp add: sin_arctan s)
    show ?thesis using a c d by (auto simp: cos_add sin_add cos_diff sin_diff)
  next
    case zero
    then have x: "r * cos th = 0" by simp
    have "(sin th)\<^sup>2 = 1" using sin_cos_squared_add[of th] zero by simp
    then have s: "sin th = 1 \<or> sin th = - 1" by (simp add: power2_eq_1_iff)
    show ?thesis
    proof (cases "sin th = 1")
      case True
      then have e: "atan2 (r * sin th) (r * cos th) = pi / 2"
        using assms x by (simp add: atan2_def)
      show ?thesis unfolding e using True zero by simp
    next
      case False
      then have m: "sin th = - 1" using s by simp
      then have e: "atan2 (r * sin th) (r * cos th) = - (pi / 2)"
        using assms x by (simp add: atan2_def)
      show ?thesis unfolding e using m zero by simp
    qed
  qed
qed

lemma normAngle_polar:
  assumes "0 < r"
  shows "\<exists>n::int. normAngle (atan2 (r * sin th) (r * cos th)) = th + 2 * pi * of_int n"
proof -
  let ?a = "atan2 (r * sin th) (r * cos th)"
  from atan2_polar[OF assms, of th] obtain n :: int where n: "?a = th + 2 * pi * of_int n"
    using sin_cos_eq_iff[of ?a th] by blast
  show ?thesis
  proof (cases "?a < 0")
    case True
    have "normAngle ?a = ?a + TWO_PI" using True by (simp only: normAngle_atan2 if_True)
    also have "\<dots> = th + 2 * pi * of_int (n + 1)"
      unfolding n by (simp add: TWO_PI_def algebra_simps)
    finally show ?thesis by blast
  next
    case False
    have "normAngle ?a = ?a" using False by (simp only: normAngle_atan2 if_False)
    then have "normAngle ?a = th + 2 * pi * of_int n" using n by simp
    then show ?thesis by blast
  qed
qed

lemma ringAngleOf_placeCar:
  "ringAngleOf (car (placeCar (ringPos r th) g)) = normAngle (atan2 (r * sin th) (r * cos th))"
  by (simp add: ringAngleOf_def placeCar_def ringPos_def)

subsection \<open>Accumulating the travelled angle\<close>

lemma clockwiseStep_nonneg: "0 \<le> p \<Longrightarrow> a < TWO_PI \<Longrightarrow> 0 \<le> clockwiseStep p a"
  by (simp add: clockwiseStep_def)

lemma accumulate_clockwise:
  assumes "0 \<le> p" "p < TWO_PI" "0 \<le> a" "a < TWO_PI" "clockwiseStep p a < pi"
  shows "accumulate (Some p) a t = t + clockwiseStep p a"
proof (cases "a \<le> p")
  case True
  then have "angleDelta p a = a - p"
    using assms by (simp add: angleDelta_def Let_def clockwiseStep_def TWO_PI_def)
  then show ?thesis using True by (simp add: accumulate_def clockwiseStep_def)
next
  case False
  then have "angleDelta p a = a - p - TWO_PI"
    using assms by (simp add: angleDelta_def Let_def clockwiseStep_def TWO_PI_def)
  then show ?thesis using False by (simp add: accumulate_def clockwiseStep_def)
qed

lemma int_between:
  fixes m :: int
  assumes "- (2 * pi) < 2 * pi * of_int m" "2 * pi * of_int m < 2 * pi"
  shows "m = 0"
proof -
  have "2 * pi * (of_int m - 1) < 0" using assms(2) by (simp add: algebra_simps)
  then have u: "real_of_int m < 1" by (simp add: mult_less_0_iff)
  have "0 < 2 * pi * (of_int m + 1)" using assms(1) by (simp add: algebra_simps)
  then have l: "- 1 < real_of_int m" by (simp add: zero_less_mult_iff)
  from u l show ?thesis by linarith
qed

lemma clockwise_on_circle:
  assumes "0 < r" "0 \<le> d" "d < TWO_PI"
  shows "clockwiseStep (normAngle (atan2 (r * sin th) (r * cos th)))
           (normAngle (atan2 (r * sin (th - d)) (r * cos (th - d)))) = d"
proof -
  let ?A = "normAngle (atan2 (r * sin th) (r * cos th))"
  let ?B = "normAngle (atan2 (r * sin (th - d)) (r * cos (th - d)))"
  obtain n1 :: int where n1: "?A = th + 2 * pi * of_int n1"
    using normAngle_polar[OF assms(1), of th] by blast
  obtain n2 :: int where n2: "?B = th - d + 2 * pi * of_int n2"
    using normAngle_polar[OF assms(1), of "th - d"] by blast
  have ra: "0 \<le> ?A \<and> ?A < 2 * pi" using normAngle_range[of "atan2 (r * sin th) (r * cos th)"]
    by (simp add: TWO_PI_def)
  have rb: "0 \<le> ?B \<and> ?B < 2 * pi"
    using normAngle_range[of "atan2 (r * sin (th - d)) (r * cos (th - d))"]
    by (simp add: TWO_PI_def)
  have D: "?A - ?B = d + 2 * pi * of_int (n1 - n2)"
    unfolding n1 n2 by (simp add: algebra_simps)
  have dd: "0 \<le> d \<and> d < 2 * pi" using assms by (simp add: TWO_PI_def)
  show ?thesis
  proof (cases "?B \<le> ?A")
    case True
    have "n1 - n2 = 0"
    proof (rule int_between)
      show "- (2 * pi) < 2 * pi * real_of_int (n1 - n2)" using D True dd by linarith
      show "2 * pi * real_of_int (n1 - n2) < 2 * pi" using D ra rb dd by linarith
    qed
    then have "?A - ?B = d" using D by simp
    then show ?thesis using True by (simp add: clockwiseStep_def)
  next
    case False
    have "n1 - n2 + 1 = 0"
    proof (rule int_between)
      have e: "2 * pi * real_of_int (n1 - n2 + 1) = 2 * pi * real_of_int (n1 - n2) + 2 * pi"
        by (simp add: algebra_simps)
      show "- (2 * pi) < 2 * pi * real_of_int (n1 - n2 + 1)"
        unfolding e using D ra rb dd by linarith
      show "2 * pi * real_of_int (n1 - n2 + 1) < 2 * pi"
        unfolding e using D False dd by linarith
    qed
    then have "real_of_int (n1 - n2) = - 1" by linarith
    then have "?A - ?B = d - 2 * pi" using D by simp
    then show ?thesis using False by (simp add: clockwiseStep_def TWO_PI_def)
  qed
qed

lemma circulate_snoc: "circulate (ps @ [p]) g = trackAngle (placeCar p (circulate ps g))"
  by (induction ps arbitrary: g) simp_all

lemma trackAngle_placeCar:
  "prevRingAngle (trackAngle (placeCar p g)) = Some (ringAngleOf (car (placeCar p g)))"
  "traveledAngle (car (trackAngle (placeCar p g))) =
     accumulate (prevRingAngle g) (ringAngleOf (car (placeCar p g))) (traveledAngle (car g))"
  by (simp_all add: trackAngle_def Let_def placeCar_def)

lemma lap_steps:
  assumes "0 < r" "0 \<le> d" "d < pi"
    "prevRingAngle g = Some (ringAngleOf (car (placeCar (ringPos r th) g)))"
  shows "prevRingAngle (circulate (map (\<lambda>k. ringPos r (th - real k * d)) [1..<Suc m]) g) =
           Some (normAngle (atan2 (r * sin (th - real m * d)) (r * cos (th - real m * d)))) \<and>
         traveledAngle (car (circulate (map (\<lambda>k. ringPos r (th - real k * d)) [1..<Suc m]) g)) =
           traveledAngle (car g) + real m * d"
proof (induction m)
  case 0
  show ?case using assms(4) by (simp add: ringAngleOf_placeCar)
next
  case (Suc m)
  let ?ps = "map (\<lambda>k. ringPos r (th - real k * d)) [1..<Suc m]"
  let ?G = "circulate ?ps g"
  let ?th = "th - real m * d"
  have l: "map (\<lambda>k. ringPos r (th - real k * d)) [1..<Suc (Suc m)] =
      ?ps @ [ringPos r (?th - d)]"
    by (simp add: algebra_simps)
  have na: "ringAngleOf (car (placeCar (ringPos r (?th - d)) ?G)) =
      normAngle (atan2 (r * sin (?th - d)) (r * cos (?th - d)))"
    by (rule ringAngleOf_placeCar)
  have d2: "d < TWO_PI" using assms(3) pi_gt_zero unfolding TWO_PI_def by linarith
  have cs: "clockwiseStep (normAngle (atan2 (r * sin ?th) (r * cos ?th)))
      (normAngle (atan2 (r * sin (?th - d)) (r * cos (?th - d)))) = d"
    by (rule clockwise_on_circle[OF assms(1,2) d2])
  have acc: "accumulate (Some (normAngle (atan2 (r * sin ?th) (r * cos ?th))))
      (normAngle (atan2 (r * sin (?th - d)) (r * cos (?th - d)))) t = t + d" for t
    using accumulate_clockwise[of "normAngle (atan2 (r * sin ?th) (r * cos ?th))"
        "normAngle (atan2 (r * sin (?th - d)) (r * cos (?th - d)))" t]
      normAngle_range cs assms(3) by simp
  have e: "th - real (Suc m) * d = ?th - d" by (simp add: algebra_simps)
  show ?case
    unfolding l circulate_snoc trackAngle_placeCar na e
    using Suc.IH acc by (simp add: algebra_simps)
qed

lemma phaseOnRoundabout_prev:
  "prevRingAngle (phaseOnRoundabout dst g) = Some (ringAngleOf (car g))"
  by (simp add: phaseOnRoundabout_def Let_def laneChangeCheck_def checkC_def checkD_def
      checkB_def trackAngle_def ringAngleOf_def)

lemma ring_tick_travel:
  assumes "phase (car g) = OnRoundabout" "\<not> failed (car (updateStateMachine dt g))"
  shows "traveledAngle (car (updateStateMachine dt g)) =
           accumulate (prevRingAngle g) (ringAngleOf (car g)) (traveledAngle (car g)) \<and>
         prevRingAngle (updateStateMachine dt g) = Some (ringAngleOf (car g))"
proof -
  from assms updateStateMachine_ring[of g dt] obtain c where
    gc: "graceCountdown dt (distFromCenter (car g)) (car g) = Inr c" and
    u: "updateStateMachine dt g = phaseOnRoundabout (distFromCenter (car g)) (g\<lparr>car := c\<rparr>)"
    by blast
  note f = graceCountdown_Inr_fields[OF gc]
  have ra: "ringAngleOf c = ringAngleOf (car g)" using f by (simp add: ringAngleOf_def)
  show ?thesis
    unfolding u by (simp add: phaseOnRoundabout_fields phaseOnRoundabout_prev ra f)
qed

text \<open>
  Claim C1. The ring phase samples the polar angle \<open>atan2(-z, x)\<close>, normalised to
  \<open>[0, 2\<pi>)\<close>, once a tick. When it has gone down since the previous sample, modulo the
  wrap, by less than \<open>\<pi>\<close> (the clockwise reading of two samples; one tick moves the car by
  a small fraction of that), the travelled angle grows by exactly that amount, so it does
  not decrease. This holds for the accumulation itself and for the whole tick of the
  rule engine on the ring, which also records the new sample. For a car placed at \<open>n\<close>
  successive points of a circle around the centre, each \<open>2\<pi>/n\<close> clockwise of the one
  before with \<open>n \<ge> 3\<close>, the travelled angle after \<open>m\<close> steps is \<open>m\<close> times \<open>2\<pi>/n\<close> more
  than at the start, and \<open>2\<pi>\<close> more after the full revolution: it never wraps back. (With
  the reals for the numbers the sum is exact; the rounding of the floating-point sum is
  outside this model.)
\<close>

theorem traveled_angle_clockwise:
  "(0 \<le> p \<and> p < TWO_PI \<and> 0 \<le> a \<and> a < TWO_PI \<and> clockwiseStep p a < pi \<longrightarrow>
      accumulate (Some p) a t = t + clockwiseStep p a \<and> t \<le> accumulate (Some p) a t) \<and>
   (phase (car g) = OnRoundabout \<and> \<not> failed (car (updateStateMachine dt g)) \<and>
    prevRingAngle g = Some p \<and> 0 \<le> p \<and> p < TWO_PI \<and>
    clockwiseStep p (ringAngleOf (car g)) < pi \<longrightarrow>
      traveledAngle (car (updateStateMachine dt g)) =
        traveledAngle (car g) + clockwiseStep p (ringAngleOf (car g)) \<and>
      traveledAngle (car g) \<le> traveledAngle (car (updateStateMachine dt g)) \<and>
      prevRingAngle (updateStateMachine dt g) = Some (ringAngleOf (car g))) \<and>
   (0 < r \<and> 3 \<le> n \<and>
    prevRingAngle g' = Some (ringAngleOf (car (placeCar (ringPos r th) g'))) \<longrightarrow>
      (\<forall>m. traveledAngle (car (circulate
              (map (\<lambda>k. ringPos r (th - real k * (TWO_PI / real n))) [1..<Suc m]) g')) =
            traveledAngle (car g') + real m * (TWO_PI / real n)) \<and>
      traveledAngle (car (circulate
          (map (\<lambda>k. ringPos r (th - real k * (TWO_PI / real n))) [1..<Suc n]) g')) =
        traveledAngle (car g') + TWO_PI)"
proof -
  have A: "accumulate (Some p) a t = t + clockwiseStep p a \<and> t \<le> accumulate (Some p) a t"
    if "0 \<le> p \<and> p < TWO_PI \<and> 0 \<le> a \<and> a < TWO_PI \<and> clockwiseStep p a < pi" for p a t
    using that accumulate_clockwise[of p a t] clockwiseStep_nonneg[of p a] by simp
  have B: "traveledAngle (car (updateStateMachine dt g)) =
        traveledAngle (car g) + clockwiseStep p (ringAngleOf (car g)) \<and>
      traveledAngle (car g) \<le> traveledAngle (car (updateStateMachine dt g)) \<and>
      prevRingAngle (updateStateMachine dt g) = Some (ringAngleOf (car g))"
    if h: "phase (car g) = OnRoundabout \<and> \<not> failed (car (updateStateMachine dt g)) \<and>
      prevRingAngle g = Some p \<and> 0 \<le> p \<and> p < TWO_PI \<and>
      clockwiseStep p (ringAngleOf (car g)) < pi"
  proof -
    have t: "traveledAngle (car (updateStateMachine dt g)) =
        accumulate (Some p) (ringAngleOf (car g)) (traveledAngle (car g)) \<and>
        prevRingAngle (updateStateMachine dt g) = Some (ringAngleOf (car g))"
      using ring_tick_travel[of g dt] h by simp
    show ?thesis
      using t A[of p "ringAngleOf (car g)" "traveledAngle (car g)"] h ringAngleOf_range[of "car g"]
      by simp
  qed
  have C: "(\<forall>m. traveledAngle (car (circulate
              (map (\<lambda>k. ringPos r (th - real k * (TWO_PI / real n))) [1..<Suc m]) g')) =
            traveledAngle (car g') + real m * (TWO_PI / real n)) \<and>
      traveledAngle (car (circulate
          (map (\<lambda>k. ringPos r (th - real k * (TWO_PI / real n))) [1..<Suc n]) g')) =
        traveledAngle (car g') + TWO_PI"
    if h: "0 < r \<and> 3 \<le> n \<and>
      prevRingAngle g' = Some (ringAngleOf (car (placeCar (ringPos r th) g')))"
  proof -
    have n: "3 \<le> real n" using h by simp
    have d0: "0 \<le> TWO_PI / real n" using TWO_PI_pos n by simp
    have "TWO_PI / real n \<le> TWO_PI / 3"
      using n TWO_PI_pos by (intro divide_left_mono) simp_all
    also have "\<dots> < pi" using pi_gt_zero by (simp add: TWO_PI_def)
    finally have d1: "TWO_PI / real n < pi" .
    have s: "traveledAngle (car (circulate
              (map (\<lambda>k. ringPos r (th - real k * (TWO_PI / real n))) [1..<Suc m]) g')) =
            traveledAngle (car g') + real m * (TWO_PI / real n)" for m
      using lap_steps[of r "TWO_PI / real n" g' th m] h d0 d1 by simp
    have "real n * (TWO_PI / real n) = TWO_PI" using n by simp
    then show ?thesis using s[of n] s by simp
  qed
  show ?thesis using A[of p a t] B C by blast
qed

lemma gTurn_facts:
  "car gTurn = (car gRing)\<lparr>traveledAngle := 1\<rparr> \<and> npcs gTurn = [] \<and>
   prevRingAngle gTurn = Some (3 * pi / 2 + 0.1)"
  using gRing_flags by (simp add: gTurn_def)

lemma gTurn_angle: "ringAngleOf (car gTurn) = 3 * pi / 2"
  using gRing_angle by (simp add: gTurn_facts ringAngleOf_def)

lemma gTurn_alive: "\<not> failed (car (updateStateMachine dt gTurn))"
proof -
  have d: "distFromCenter (car gTurn) = 15"
    using gRing_dist by (simp add: gTurn_facts distFromCenter_def)
  have on: "onRoad (car gTurn) 15" by (simp add: onRoad_def RB_IN_def RB_OUT_def)
  have "updateStateMachine dt gTurn = phaseStep 15 gTurn"
    using updateStateMachine_through[of gTurn dt] on d
    by (simp add: gTurn_facts gRing_car newCar_def)
  then show ?thesis by (simp add: phaseStep_verdict gTurn_facts gRing_car newCar_def)
qed

lemma gLap_start: "prevRingAngle gLap = Some (ringAngleOf (car (placeCar (ringPos 15 0) gLap)))"
proof -
  have "atan2 0 15 = 0" by (simp add: atan2_def)
  moreover have "normAngle 0 = 0" by (rule normAngle_nonneg) (simp_all add: TWO_PI_def)
  ultimately show ?thesis by (simp add: ringAngleOf_placeCar gLap_def)
qed

theorem traveled_angle_clockwise_witness:
  "(0::real) \<le> 1 \<and> 1 < TWO_PI \<and> (0::real) \<le> 1 / 2 \<and> 1 / 2 < TWO_PI \<and>
   clockwiseStep 1 (1 / 2) < pi \<and> accumulate (Some 1) (1 / 2) 0 = 1 / 2 \<and>
   phase (car gTurn) = OnRoundabout \<and> \<not> failed (car (updateStateMachine 0.016 gTurn)) \<and>
   prevRingAngle gTurn = Some (3 * pi / 2 + 0.1) \<and> 0 \<le> 3 * pi / 2 + 0.1 \<and>
   3 * pi / 2 + 0.1 < TWO_PI \<and>
   clockwiseStep (3 * pi / 2 + 0.1) (ringAngleOf (car gTurn)) < pi \<and>
   traveledAngle (car gTurn) = 1 \<and>
   traveledAngle (car (updateStateMachine 0.016 gTurn)) = 1.1 \<and>
   (0::real) < 15 \<and> (3::nat) \<le> 4 \<and>
   prevRingAngle gLap = Some (ringAngleOf (car (placeCar (ringPos 15 0) gLap))) \<and>
   traveledAngle (car gLap) = 0 \<and>
   traveledAngle (car (circulate
      (map (\<lambda>k. ringPos 15 (0 - real k * (TWO_PI / real (4::nat)))) [1..<Suc 4]) gLap)) = TWO_PI"
proof -
  have p2: "2 \<le> pi" by (rule pi_ge_two)
  have a1: "(0::real) \<le> 1 \<and> 1 < TWO_PI \<and> (0::real) \<le> 1 / 2 \<and> 1 / 2 < TWO_PI"
    using p2 by (simp add: TWO_PI_def)
  have a2: "clockwiseStep 1 (1 / 2) = 1 / 2" by (simp add: clockwiseStep_def)
  have a3: "clockwiseStep 1 (1 / 2) < pi" using p2 by (simp add: a2)
  note A = traveled_angle_clockwise[of 1 "1 / 2" 0 gTurn "0.016" 15 4 gLap 0, THEN conjunct1]
  have a4: "accumulate (Some 1) (1 / 2) 0 = 1 / 2" using A a1 a3 a2 by simp
  have b1: "phase (car gTurn) = OnRoundabout \<and> traveledAngle (car gTurn) = 1"
    by (simp add: gTurn_facts gRing_car)
  have b2: "0 \<le> 3 * pi / 2 + 0.1 \<and> 3 * pi / 2 + 0.1 < TWO_PI"
    using p2 by (simp add: TWO_PI_def)
  have b3: "clockwiseStep (3 * pi / 2 + 0.1) (ringAngleOf (car gTurn)) = 0.1"
    by (simp add: gTurn_angle clockwiseStep_def)
  have b4: "clockwiseStep (3 * pi / 2 + 0.1) (ringAngleOf (car gTurn)) < pi"
    using p2 by (simp add: b3)
  note B = traveled_angle_clockwise[of "3 * pi / 2 + 0.1" 0 0 gTurn "0.016" 15 4 gLap 0,
      THEN conjunct2, THEN conjunct1]
  have b5: "traveledAngle (car (updateStateMachine 0.016 gTurn)) = 1.1"
    using B b1 b2 b4 b3 gTurn_alive[of "0.016"] gTurn_facts by simp
  note C = traveled_angle_clockwise[of 0 0 0 gTurn "0.016" 15 4 gLap 0,
      THEN conjunct2, THEN conjunct2]
  have c1: "traveledAngle (car gLap) = 0" by (simp add: gLap_def)
  have c2: "traveledAngle (car (circulate
      (map (\<lambda>k. ringPos 15 (0 - real k * (TWO_PI / real (4::nat)))) [1..<Suc 4]) gLap)) = TWO_PI"
    using C gLap_start c1 by simp
  show ?thesis
    using a1 a3 a4 b1 b2 b4 b5 c1 c2 gTurn_alive[of "0.016"] gTurn_facts gLap_start by simp
qed

subsection \<open>What a checkpoint does when it fires\<close>

lemma checkB_fired: "checkBDone g \<Longrightarrow> checkB dst g = g"
  by (simp add: checkB_def)

lemma checkD_fired: "checkDDone g \<Longrightarrow> checkD dst g = g"
  by (simp add: checkD_def)

lemma checkC_fired: "checkCDone g \<Longrightarrow> checkC dst g = g"
  by (simp add: checkC_def)

lemma checkB_grace:
  assumes "\<not> graceActive (car g)"
  shows "car (checkB dst g) =
     (if \<not> checkBDone g \<and> targetExitNum (car g) = 3 \<and> \<not> rightIndicator (car g)
         \<and> traveledAngle (car g) \<ge> pi - 0.1
      then (car g)\<lparr>graceActive := True, graceTimer := 3, graceRequired := Some ReqRight\<rparr>
      else car g)"
  using assms by (simp add: checkB_def startGrace_def condOk_def)

lemma checkD_grace:
  assumes "\<not> graceActive (car g)"
  shows "car (checkD dst g) =
     (if \<not> checkDDone g \<and> targetExitNum (car g) = 2 \<and> \<not> leftIndicator (car g)
         \<and> traveledAngle (car g) \<ge> pi / 2
      then (car g)\<lparr>graceActive := True, graceTimer := 3, graceRequired := Some ReqLeft\<rparr>
      else car g)"
  using assms by (simp add: checkD_def startGrace_def condOk_def)

lemma checkC_grace:
  assumes "\<not> graceActive (car g)"
  shows "car (checkC dst g) =
     (if \<not> checkCDone g \<and> \<not> leftIndicator (car g)
         \<and> traveledAngle (car g) \<ge> exitTravelTarget (car g) - 0.7
      then (car g)\<lparr>graceActive := True, graceTimer := 3, graceRequired := Some ReqLeft\<rparr>
      else car g)"
  using assms by (simp add: checkC_def startGrace_def condOk_def)

lemma check_flags_apart:
  "checkDDone (checkB dst g) = checkDDone g" "checkCDone (checkB dst g) = checkCDone g"
  "checkCDone (checkD dst g) = checkCDone g"
  by (simp_all add: checkB_def checkD_def)

lemma checks_grace:
  assumes "\<not> graceActive (car g)"
  shows "car (checkC dst (checkD dst (checkB dst g))) =
     (if \<not> checkBDone g \<and> targetExitNum (car g) = 3 \<and> \<not> rightIndicator (car g)
         \<and> traveledAngle (car g) \<ge> pi - 0.1
      then (car g)\<lparr>graceActive := True, graceTimer := 3, graceRequired := Some ReqRight\<rparr>
      else if \<not> checkDDone g \<and> targetExitNum (car g) = 2 \<and> \<not> leftIndicator (car g)
         \<and> traveledAngle (car g) \<ge> pi / 2
      then (car g)\<lparr>graceActive := True, graceTimer := 3, graceRequired := Some ReqLeft\<rparr>
      else if \<not> checkCDone g \<and> \<not> leftIndicator (car g)
         \<and> traveledAngle (car g) \<ge> exitTravelTarget (car g) - 0.7
      then (car g)\<lparr>graceActive := True, graceTimer := 3, graceRequired := Some ReqLeft\<rparr>
      else car g)"
proof -
  define fb where "fb \<longleftrightarrow> \<not> checkBDone g \<and> targetExitNum (car g) = 3 \<and> \<not> rightIndicator (car g)
         \<and> traveledAngle (car g) \<ge> pi - 0.1"
  define fd where "fd \<longleftrightarrow> \<not> checkDDone g \<and> targetExitNum (car g) = 2 \<and> \<not> leftIndicator (car g)
         \<and> traveledAngle (car g) \<ge> pi / 2"
  define fc where "fc \<longleftrightarrow> \<not> checkCDone g \<and> \<not> leftIndicator (car g)
         \<and> traveledAngle (car g) \<ge> exitTravelTarget (car g) - 0.7"
  let ?b = "checkB dst g"
  let ?d = "checkD dst ?b"
  let ?R = "(car g)\<lparr>graceActive := True, graceTimer := 3, graceRequired := Some ReqRight\<rparr>"
  let ?L = "(car g)\<lparr>graceActive := True, graceTimer := 3, graceRequired := Some ReqLeft\<rparr>"
  have cb: "car ?b = (if fb then ?R else car g)"
    unfolding fb_def by (rule checkB_grace[OF assms])
  have r: "car (checkC dst ?d) = (if fb then ?R else if fd then ?L else if fc then ?L else car g)"
  proof (cases fb)
    case True
    then have a: "graceActive (car ?b)" using cb by simp
    have "car (checkC dst ?d) = car ?d"
      by (rule checkC_active) (simp add: checkD_active a)
    also have "\<dots> = car ?b" by (rule checkD_active[OF a])
    finally show ?thesis using True cb by simp
  next
    case nb: False
    then have b: "car ?b = car g" using cb by simp
    then have na: "\<not> graceActive (car ?b)" using assms by simp
    have cd: "car ?d = (if fd then ?L else car g)"
      using checkD_grace[OF na, of dst] unfolding fd_def b check_flags_apart by simp
    show ?thesis
    proof (cases fd)
      case True
      then have a: "graceActive (car ?d)" using cd by simp
      have "car (checkC dst ?d) = car ?d" by (rule checkC_active[OF a])
      then show ?thesis using True nb cd by simp
    next
      case nd: False
      then have d: "car ?d = car g" using cd by simp
      then have na2: "\<not> graceActive (car ?d)" using assms by simp
      have "car (checkC dst ?d) = (if fc then ?L else car g)"
        using checkC_grace[OF na2, of dst] unfolding fc_def d check_flags_apart by simp
      then show ?thesis using nb nd by simp
    qed
  qed
  show ?thesis using r unfolding fb_def fd_def fc_def .
qed

lemma ringLaneCheck_keeps:
  assumes "r = ReqLeft \<or> r = ReqRight"
  shows "(graceActive (ringLaneCheck dst c) \<and> graceRequired (ringLaneCheck dst c) = Some r) =
           (graceActive c \<and> graceRequired c = Some r)"
    and "graceActive c \<Longrightarrow> graceTimer (ringLaneCheck dst c) = graceTimer c"
    and "leftIndicator (ringLaneCheck dst c) = leftIndicator c"
    and "rightIndicator (ringLaneCheck dst c) = rightIndicator c"
  using assms by (auto simp: ringLaneCheck_def startGrace_def)

lemma laneChangeCheck_keeps:
  assumes "r = ReqLeft \<or> r = ReqRight"
  shows "(graceActive (car (laneChangeCheck dst g)) \<and>
          graceRequired (car (laneChangeCheck dst g)) = Some r) =
           (graceActive (car g) \<and> graceRequired (car g) = Some r)"
    and "graceActive (car g) \<Longrightarrow> graceTimer (car (laneChangeCheck dst g)) = graceTimer (car g)"
  using assms by (auto simp: laneChangeCheck_def Let_def startGrace_def split: option.splits)

lemma exitTransition_keeps:
  "(graceActive (exitTransition c) \<and> graceRequired (exitTransition c) = r) =
     (\<not> onExitArm c \<and> graceActive c \<and> graceRequired c = r)"
  "graceTimer (exitTransition c) = graceTimer c"
  by (auto simp: exitTransition_def Let_def)

lemma onExitArm_cong:
  "targetExit c' = targetExit c \<Longrightarrow> pos_x c' = pos_x c \<Longrightarrow> pos_z c' = pos_z c \<Longrightarrow>
   onExitArm c' = onExitArm c"
  by (simp add: onExitArm_def)


text \<open>
  The ring phase from a state with no grace period pending. \<open>t\<close> is the travelled angle
  that the tick has accumulated when the checks read it.
\<close>

lemma phaseOnRoundabout_grace:
  fixes g :: game and dst :: real
  assumes ng: "\<not> graceActive (car g)"
  defines "g' \<equiv> phaseOnRoundabout dst g"
  defines "t \<equiv> traveledAngle (car (phaseOnRoundabout dst g))"
  defines "fb \<equiv> \<not> checkBDone g \<and> targetExitNum (car g) = 3 \<and> \<not> rightIndicator (car g)
         \<and> t \<ge> pi - 0.1"
  defines "fd \<equiv> \<not> checkDDone g \<and> targetExitNum (car g) = 2 \<and> \<not> leftIndicator (car g)
         \<and> t \<ge> pi / 2"
  defines "fc \<equiv> \<not> checkCDone g \<and> \<not> leftIndicator (car g)
         \<and> t \<ge> exitTravelTarget (car g) - 0.7"
  shows "(graceActive (car g') \<and> graceRequired (car g') = Some ReqRight) =
           (\<not> onExitArm (car g) \<and> fb)"
    and "(graceActive (car g') \<and> graceRequired (car g') = Some ReqLeft) =
           (\<not> onExitArm (car g) \<and> \<not> fb \<and> (fd \<or> fc))"
    and "graceActive (car g') \<and>
         (graceRequired (car g') = Some ReqRight \<or> graceRequired (car g') = Some ReqLeft) \<longrightarrow>
         graceTimer (car g') = 3"
proof -
  let ?g1 = "g\<lparr>car := (car g)\<lparr>ringLane := (if dst < RB_MID then Inner else Outer)\<rparr>\<rparr>"
  let ?g2 = "trackAngle ?g1"
  let ?g3 = "checkC dst (checkD dst (checkB dst ?g2))"
  let ?g4 = "?g3\<lparr>car := ringLaneCheck dst (car ?g3)\<rparr>"
  let ?g5 = "laneChangeCheck dst ?g4"
  have g': "car g' = exitTransition (car ?g5)"
    by (simp add: g'_def phaseOnRoundabout_def Let_def)
  have t: "t = traveledAngle (car ?g2)"
    by (simp add: t_def phaseOnRoundabout_def Let_def ring_fields)
  have f2: "checkBDone ?g2 = checkBDone g" "checkDDone ?g2 = checkDDone g"
    "checkCDone ?g2 = checkCDone g" "targetExitNum (car ?g2) = targetExitNum (car g)"
    "exitTravelTarget (car ?g2) = exitTravelTarget (car g)"
    "leftIndicator (car ?g2) = leftIndicator (car g)"
    "rightIndicator (car ?g2) = rightIndicator (car g)"
    "\<not> graceActive (car ?g2)"
    using ng by (simp_all add: trackAngle_def Let_def)
  let ?R = "(car ?g2)\<lparr>graceActive := True, graceTimer := 3, graceRequired := Some ReqRight\<rparr>"
  let ?L = "(car ?g2)\<lparr>graceActive := True, graceTimer := 3, graceRequired := Some ReqLeft\<rparr>"
  have c3: "car ?g3 = (if fb then ?R else if fd then ?L else if fc then ?L else car ?g2)"
    using checks_grace[OF f2(8), of dst] unfolding f2(1-7) fb_def fd_def fc_def t .
  have s3: "(graceActive (car ?g3) \<and> graceRequired (car ?g3) = Some ReqRight) = fb"
    "(graceActive (car ?g3) \<and> graceRequired (car ?g3) = Some ReqLeft) = (\<not> fb \<and> (fd \<or> fc))"
    "graceActive (car ?g3) \<longrightarrow> graceTimer (car ?g3) = 3"
    using f2(8) unfolding c3 by auto
  have s4: "(graceActive (car ?g4) \<and> graceRequired (car ?g4) = Some ReqRight) = fb"
    "(graceActive (car ?g4) \<and> graceRequired (car ?g4) = Some ReqLeft) = (\<not> fb \<and> (fd \<or> fc))"
    "graceActive (car ?g3) \<longrightarrow> graceTimer (car ?g4) = 3"
    using s3 ringLaneCheck_keeps(1)[of ReqRight dst "car ?g3"]
      ringLaneCheck_keeps(1)[of ReqLeft dst "car ?g3"]
      ringLaneCheck_keeps(2)[of ReqLeft "car ?g3" dst]
    by simp_all
  have a4: "graceActive (car ?g4) \<and>
      (graceRequired (car ?g4) = Some ReqRight \<or> graceRequired (car ?g4) = Some ReqLeft) \<longrightarrow>
      graceActive (car ?g3)"
    using s3(1,2) s4(1,2) by blast
  have s5: "(graceActive (car ?g5) \<and> graceRequired (car ?g5) = Some ReqRight) = fb"
    "(graceActive (car ?g5) \<and> graceRequired (car ?g5) = Some ReqLeft) = (\<not> fb \<and> (fd \<or> fc))"
    using s4(1,2) laneChangeCheck_keeps(1)[of ReqRight dst ?g4]
      laneChangeCheck_keeps(1)[of ReqLeft dst ?g4]
    by simp_all
  have t5: "graceActive (car ?g5) \<and>
      (graceRequired (car ?g5) = Some ReqRight \<or> graceRequired (car ?g5) = Some ReqLeft) \<longrightarrow>
      graceTimer (car ?g5) = 3"
  proof
    assume h: "graceActive (car ?g5) \<and>
      (graceRequired (car ?g5) = Some ReqRight \<or> graceRequired (car ?g5) = Some ReqLeft)"
    then have "graceActive (car ?g4) \<and>
      (graceRequired (car ?g4) = Some ReqRight \<or> graceRequired (car ?g4) = Some ReqLeft)"
      using s5 s4(1,2) by blast
    then have "graceActive (car ?g4)" "graceActive (car ?g3)" using a4 by blast+
    then show "graceTimer (car ?g5) = 3"
      using laneChangeCheck_keeps(2)[of ReqLeft ?g4 dst] s4(3) by simp
  qed
  have sw: "sameWorld g ?g5"
    by (intro sameWorld_trans[OF _ laneChangeCheck_same]
        sameWorld_trans[OF _ car_upd_same[OF ringLaneCheck_same]]
        sameWorld_trans[OF _ checkC_same] sameWorld_trans[OF _ checkD_same]
        sameWorld_trans[OF _ checkB_same] sameWorld_trans[OF _ trackAngle_same])
      (simp add: sameWorld_def sameVehicle_def)
  have ox: "onExitArm (car ?g5) = onExitArm (car g)"
    using sw by (intro onExitArm_cong) (simp_all add: sameWorld_def sameVehicle_def)
  show "(graceActive (car g') \<and> graceRequired (car g') = Some ReqRight) =
           (\<not> onExitArm (car g) \<and> fb)"
    unfolding g' exitTransition_keeps(1) ox using s5(1) by blast
  show "(graceActive (car g') \<and> graceRequired (car g') = Some ReqLeft) =
           (\<not> onExitArm (car g) \<and> \<not> fb \<and> (fd \<or> fc))"
    unfolding g' exitTransition_keeps(1) ox using s5(2) by blast
  show "graceActive (car g') \<and>
         (graceRequired (car g') = Some ReqRight \<or> graceRequired (car g') = Some ReqLeft) \<longrightarrow>
         graceTimer (car g') = 3"
    unfolding g' exitTransition_keeps(2)
    using t5 exitTransition_keeps(1)[of "car ?g5"] by blast
qed

lemma graceCountdown_met:
  assumes "graceActive c \<longrightarrow> condOk c dst (graceRequired c)"
    and "graceCountdown dt dst c = Inr c'"
  shows "\<not> graceActive c'"
proof -
  have "condOk (c\<lparr>graceTimer := x\<rparr>) dst r = condOk c dst r" for x r
    by (simp add: condOk_def split: option.splits req.splits)
  then show ?thesis
    using assms by (auto simp: graceCountdown_def Let_def split: if_splits)
qed

text \<open>
  The same for a whole tick of the rule engine on the ring, when no grace period is
  pending: none is active, or the countdown of the tick finds its requirement met.
\<close>

lemma ring_tick_grace:
  fixes g :: game and dt :: real
  assumes ph: "phase (car g) = OnRoundabout"
    and nf: "\<not> failed (car (updateStateMachine dt g))"
    and np: "graceActive (car g) \<longrightarrow>
               condOk (car g) (distFromCenter (car g)) (graceRequired (car g))"
  defines "g' \<equiv> updateStateMachine dt g"
  defines "fb \<equiv> \<not> checkBDone g \<and> targetExitNum (car g) = 3 \<and> \<not> rightIndicator (car g)
         \<and> traveledAngle (car (updateStateMachine dt g)) \<ge> pi - 0.1"
  defines "fd \<equiv> \<not> checkDDone g \<and> targetExitNum (car g) = 2 \<and> \<not> leftIndicator (car g)
         \<and> traveledAngle (car (updateStateMachine dt g)) \<ge> pi / 2"
  defines "fc \<equiv> \<not> checkCDone g \<and> \<not> leftIndicator (car g)
         \<and> traveledAngle (car (updateStateMachine dt g)) \<ge> exitTravelTarget (car g) - 0.7"
  shows "(graceActive (car g') \<and> graceRequired (car g') = Some ReqRight) =
           (\<not> onExitArm (car g) \<and> fb)"
    and "(graceActive (car g') \<and> graceRequired (car g') = Some ReqLeft) =
           (\<not> onExitArm (car g) \<and> \<not> fb \<and> (fd \<or> fc))"
    and "graceActive (car g') \<and>
         (graceRequired (car g') = Some ReqRight \<or> graceRequired (car g') = Some ReqLeft) \<longrightarrow>
         graceTimer (car g') = 3"
proof -
  from ph nf updateStateMachine_ring[of g dt] obtain c where
    gc: "graceCountdown dt (distFromCenter (car g)) (car g) = Inr c" and
    u: "updateStateMachine dt g = phaseOnRoundabout (distFromCenter (car g)) (g\<lparr>car := c\<rparr>)"
    by blast
  have ng: "\<not> graceActive (car (g\<lparr>car := c\<rparr>))"
    using graceCountdown_met[OF np gc] by simp
  have sv: "sameVehicle (car g) c"
    using graceCountdown_same[of dt "distFromCenter (car g)" "car g" c] gc by simp
  have f: "targetExitNum c = targetExitNum (car g)" "exitTravelTarget c = exitTravelTarget (car g)"
    "leftIndicator c = leftIndicator (car g)" "rightIndicator c = rightIndicator (car g)"
    using sv by (simp_all add: sameVehicle_def)
  have ox: "onExitArm c = onExitArm (car g)"
    using sv by (intro onExitArm_cong) (simp_all add: sameVehicle_def)
  note r = phaseOnRoundabout_grace[OF ng, of "distFromCenter (car g)"]
  show "(graceActive (car g') \<and> graceRequired (car g') = Some ReqRight) =
           (\<not> onExitArm (car g) \<and> fb)"
    using r(1) unfolding g'_def fb_def u by (simp add: f ox)
  show "(graceActive (car g') \<and> graceRequired (car g') = Some ReqLeft) =
           (\<not> onExitArm (car g) \<and> \<not> fb \<and> (fd \<or> fc))"
    using r(2) unfolding g'_def fb_def fd_def fc_def u by (simp add: f ox)
  show "graceActive (car g') \<and>
         (graceRequired (car g') = Some ReqRight \<or> graceRequired (car g') = Some ReqLeft) \<longrightarrow>
         graceTimer (car g') = 3"
    using r(3) unfolding g'_def u by simp
qed

subsection \<open>A run through check (b)\<close>

lemma phaseOnRoundabout_prevDist:
  "prevDistFromCenter (phaseOnRoundabout dst g) = Some dst"
  by (simp add: phaseOnRoundabout_def Let_def laneChangeCheck_def)

lemma ring_phase_kept:
  "phase (car (trackAngle g)) = phase (car g)"
  "phase (car (checkB dst g)) = phase (car g)"
  "phase (car (checkD dst g)) = phase (car g)"
  "phase (car (checkC dst g)) = phase (car g)"
  "phase (ringLaneCheck dst c) = phase c"
  "phase (car (laneChangeCheck dst g)) = phase (car g)"
  by (simp_all add: trackAngle_def Let_def checkB_def checkD_def checkC_def ringLaneCheck_def
      laneChangeCheck_def startGrace_fields split: option.splits)

lemma phaseOnRoundabout_phase:
  "phase (car (phaseOnRoundabout dst g)) =
     (if traveledAngle (car (phaseOnRoundabout dst g)) \<ge> exitTravelTarget (car g) - 0.15
         \<or> onExitArm (car g)
      then Exiting else phase (car g))"
proof -
  let ?g1 = "g\<lparr>car := (car g)\<lparr>ringLane := (if dst < RB_MID then Inner else Outer)\<rparr>\<rparr>"
  let ?g5 = "laneChangeCheck dst
      ((checkC dst (checkD dst (checkB dst (trackAngle ?g1))))\<lparr>car :=
         ringLaneCheck dst (car (checkC dst (checkD dst (checkB dst (trackAngle ?g1)))))\<rparr>)"
  have e: "car (phaseOnRoundabout dst g) = exitTransition (car ?g5)"
    by (simp add: phaseOnRoundabout_def Let_def)
  have sw: "sameWorld g ?g5"
    by (intro sameWorld_trans[OF _ laneChangeCheck_same]
        sameWorld_trans[OF _ car_upd_same[OF ringLaneCheck_same]]
        sameWorld_trans[OF _ checkC_same] sameWorld_trans[OF _ checkD_same]
        sameWorld_trans[OF _ checkB_same] sameWorld_trans[OF _ trackAngle_same])
      (simp add: sameWorld_def sameVehicle_def)
  have ox: "onExitArm (car ?g5) = onExitArm (car g)"
    using sw by (intro onExitArm_cong) (simp_all add: sameWorld_def sameVehicle_def)
  have et: "exitTravelTarget (car ?g5) = exitTravelTarget (car g)"
    using sw by (simp add: sameWorld_def sameVehicle_def)
  have ph: "phase (car ?g5) = phase (car g)"
    by (simp add: ring_phase_kept)
  have ex: "phase (exitTransition c) =
      (if traveledAngle (exitTransition c) \<ge> exitTravelTarget c - 0.15 \<or> onExitArm c
       then Exiting else phase c)" for c
    by (simp add: exitTransition_def Let_def)
  show ?thesis unfolding e ex ox et ph ..
qed

lemma ringHeld_gRing: "ringHeld gRing"
  using gRing_flags by (simp add: ringHeld_def gRing_car newCar_def) (simp add: gRing_def)

lemma ringHeld_toggle: "ringHeld g \<Longrightarrow> ringHeld (toggleIndicator sd g)"
  by (simp add: ringHeld_def toggleIndicator_def split: side.splits)

lemma ringHeld_engine:
  assumes h: "ringHeld g"
    and ok: "graceActive (car g) \<longrightarrow>
               condOk (car g) 15 (graceRequired (car g)) \<or> dt < graceTimer (car g)"
  shows "\<exists>c. graceCountdown dt 15 (car g) = Inr c \<and>
             updateStateMachine dt g = phaseOnRoundabout 15 (g\<lparr>car := c\<rparr>) \<and>
             ringAngleOf c = 3 * pi / 2 \<and> distFromCenter (car g) = 15"
proof -
  have hp: "pos_x (car g) = 0" "pos_z (car g) = 15" "phase (car g) = OnRoundabout"
    "\<not> failed (car g)" "npcs g = []"
    using h by (simp_all add: ringHeld_def)
  have d: "distFromCenter (car g) = 15"
    by (simp add: hp distFromCenter_def)
  have on: "onRoad (car g) 15"
    by (simp add: onRoad_def RB_IN_def RB_OUT_def)
  have cok: "condOk ((car g)\<lparr>graceTimer := x\<rparr>) 15 r = condOk (car g) 15 r" for x r
    by (simp add: condOk_def split: option.splits req.splits)
  have "\<exists>c. graceCountdown dt 15 (car g) = Inr c"
    using ok by (auto simp: graceCountdown_def Let_def cok)
  then obtain c where gc: "graceCountdown dt 15 (car g) = Inr c" ..
  have pc: "phase c = OnRoundabout"
    using gc hp(3) by (auto simp: graceCountdown_def Let_def split: if_splits)
  note f = graceCountdown_Inr_fields[OF gc]
  have a: "atan2 (- 15) 0 = - (pi / 2)" by (simp add: atan2_def)
  have n: "normAngle (- (pi / 2)) = - (pi / 2) + TWO_PI"
    by (rule normAngle_neg) (simp_all add: TWO_PI_def)
  have ra: "ringAngleOf c = 3 * pi / 2"
    using f by (simp add: ringAngleOf_def hp a n TWO_PI_def)
  have u: "updateStateMachine dt g = phaseOnRoundabout 15 (g\<lparr>car := c\<rparr>)"
    using on by (simp add: updateStateMachine_def Let_def d hp gc phaseStep_def pc)
  show ?thesis using gc u ra d by blast
qed

lemma ringHeld_tick:
  assumes h: "ringHeld g"
    and ok: "graceActive (car g) \<longrightarrow>
               condOk (car g) 15 (graceRequired (car g)) \<or> dt < graceTimer (car g)"
  shows "ringHeld (updateStateMachine dt g)"
proof -
  from ringHeld_engine[OF h ok] obtain c where
    gc: "graceCountdown dt 15 (car g) = Inr c" and
    u: "updateStateMachine dt g = phaseOnRoundabout 15 (g\<lparr>car := c\<rparr>)" and
    ra: "ringAngleOf c = 3 * pi / 2"
    by blast
  have hp: "pos_x (car g) = 0" "pos_z (car g) = 15" "phase (car g) = OnRoundabout"
    "\<not> failed (car g)" "npcs g = []" "prevRingAngle g = Some (3 * pi / 2)"
    "targetExit (car g) = East" "targetExitNum (car g) = 3"
    "exitTravelTarget (car g) = 3 * pi / 2" "traveledAngle (car g) = pi - 0.1"
    using h by (simp_all add: ringHeld_def)
  note f = graceCountdown_Inr_fields[OF gc]
  note v = graceCountdown_verdict(1)[OF gc]
  have sv: "sameVehicle (car g) c"
    using graceCountdown_same[of dt 15 "car g" c] gc by simp
  have sw: "sameWorld (g\<lparr>car := c\<rparr>) (phaseOnRoundabout 15 (g\<lparr>car := c\<rparr>))"
    by (rule phaseOnRoundabout_same)
  have keep: "pos_x (car (phaseOnRoundabout 15 (g\<lparr>car := c\<rparr>))) = 0"
    "pos_z (car (phaseOnRoundabout 15 (g\<lparr>car := c\<rparr>))) = 15"
    "npcs (phaseOnRoundabout 15 (g\<lparr>car := c\<rparr>)) = []"
    "targetExit (car (phaseOnRoundabout 15 (g\<lparr>car := c\<rparr>))) = East"
    "targetExitNum (car (phaseOnRoundabout 15 (g\<lparr>car := c\<rparr>))) = 3"
    "exitTravelTarget (car (phaseOnRoundabout 15 (g\<lparr>car := c\<rparr>))) = 3 * pi / 2"
    using sw sv hp by (simp_all add: sameWorld_def sameVehicle_def)
  have tc: "traveledAngle c = pi - 0.1" using f hp by simp
  have tr: "traveledAngle (car (phaseOnRoundabout 15 (g\<lparr>car := c\<rparr>))) = pi - 0.1"
    by (simp add: phaseOnRoundabout_fields ra hp tc accumulate_def angleDelta_def Let_def)
  have nx: "\<not> onExitArm c"
    using sv hp by (simp add: onExitArm_def sameVehicle_def RB_OUT_def)
  have lt: "\<not> 3 * pi / 2 - 0.15 \<le> pi - 0.1"
    using pi_ge_two by simp
  have pc: "phase c = OnRoundabout"
    using gc hp(3) by (auto simp: graceCountdown_def Let_def split: if_splits)
  have ec: "exitTravelTarget c = 3 * pi / 2" using f hp by simp
  have ph: "phase (car (phaseOnRoundabout 15 (g\<lparr>car := c\<rparr>))) = OnRoundabout"
    unfolding phaseOnRoundabout_phase tr using nx lt by (simp add: ec pc)
  have nf: "\<not> failed (car (phaseOnRoundabout 15 (g\<lparr>car := c\<rparr>)))"
    using v hp by (simp add: phaseOnRoundabout_fields)
  have pr: "prevRingAngle (phaseOnRoundabout 15 (g\<lparr>car := c\<rparr>)) = Some (3 * pi / 2)"
    by (simp add: phaseOnRoundabout_prev ra)
  have pd: "prevDistFromCenter (phaseOnRoundabout 15 (g\<lparr>car := c\<rparr>)) = Some 15"
    by (simp add: phaseOnRoundabout_prevDist)
  show ?thesis
    unfolding ringHeld_def u using keep tr ph nf pr pd by blast
qed

lemma ringHeld_quiet:
  assumes h: "ringHeld g"
    and b: "checkBDone g"
    and np: "graceActive (car g) \<longrightarrow> condOk (car g) 15 (graceRequired (car g))"
  shows "\<not> graceActive (car (updateStateMachine dt g))"
proof -
  have ok: "graceActive (car g) \<longrightarrow>
      condOk (car g) 15 (graceRequired (car g)) \<or> dt < graceTimer (car g)"
    using np by blast
  from ringHeld_engine[OF h ok] obtain c where
    gc: "graceCountdown dt 15 (car g) = Inr c" and
    u: "updateStateMachine dt g = phaseOnRoundabout 15 (g\<lparr>car := c\<rparr>)" and
    ra: "ringAngleOf c = 3 * pi / 2"
    by blast
  have hp: "prevRingAngle g = Some (3 * pi / 2)" "prevDistFromCenter g = Some 15"
    "targetExitNum (car g) = 3" "exitTravelTarget (car g) = 3 * pi / 2"
    "traveledAngle (car g) = pi - 0.1"
    using h by (simp_all add: ringHeld_def)
  note f = graceCountdown_Inr_fields[OF gc]
  have nc: "\<not> graceActive c" by (rule graceCountdown_met[OF np gc])
  let ?g1 = "g\<lparr>car := c\<lparr>ringLane := Inner\<rparr>\<rparr>"
  let ?g2 = "trackAngle ?g1"
  let ?g3 = "checkC 15 (checkD 15 (checkB 15 ?g2))"
  let ?g4 = "?g3\<lparr>car := ringLaneCheck 15 (car ?g3)\<rparr>"
  let ?g5 = "laneChangeCheck 15 ?g4"
  have e: "car (phaseOnRoundabout 15 (g\<lparr>car := c\<rparr>)) = exitTransition (car ?g5)"
    by (simp add: phaseOnRoundabout_def Let_def RB_MID_def)
  have ra1: "ringAngleOf (c\<lparr>ringLane := l\<rparr>) = 3 * pi / 2" for l
    using ra by (simp add: ringAngleOf_def)
  have tc: "traveledAngle c = pi - 0.1" using f hp by simp
  have t2: "traveledAngle (car ?g2) = pi - 0.1"
    by (simp add: trackAngle_fields ra1 hp tc accumulate_def angleDelta_def Let_def)
  have f2: "checkBDone ?g2" "targetExitNum (car ?g2) = 3"
    "exitTravelTarget (car ?g2) = 3 * pi / 2" "\<not> graceActive (car ?g2)"
    "prevDistFromCenter ?g2 = Some 15"
    using b f hp nc by (simp_all add: trackAngle_def Let_def)
  have lt: "\<not> 3 * pi / 2 - 0.7 \<le> pi - 0.1"
    using pi_ge_two by simp
  have c3: "car ?g3 = car ?g2"
    using checks_grace[OF f2(4), of 15] lt by (simp add: f2 t2)
  have p3: "prevDistFromCenter ?g3 = Some 15"
    using f2(5) by (simp add: checkB_def checkD_def checkC_def)
  have r4: "ringLaneCheck 15 (car ?g2) = car ?g2"
    using lt by (simp add: ringLaneCheck_def needOuterRing_def f2(2,3) t2 RB_MID_def)
  have c4: "car ?g4 = car ?g2"
    by (simp add: c3 r4)
  have c5: "car ?g5 = car ?g2"
    using p3 c4 by (simp add: laneChangeCheck_def Let_def)
  have x: "graceActive (exitTransition k) \<Longrightarrow> graceActive k" for k
    by (auto simp: exitTransition_def Let_def split: if_splits)
  show ?thesis
    unfolding u e c5 using x[of "car ?g2"] f2(4) by blast
qed

lemma gRing_quiet_start:
  "\<not> graceActive (car gRing) \<and> \<not> rightIndicator (car gRing) \<and> \<not> leftIndicator (car gRing) \<and>
   \<not> onExitArm (car gRing)"
  by (simp add: gRing_car newCar_def onExitArm_def RB_OUT_def)

lemma ringHeld_facts:
  assumes "ringHeld g"
  shows "phase (car g) = OnRoundabout" "targetExitNum (car g) = 3"
    "traveledAngle (car g) = pi - 0.1" "\<not> failed (car g)" "distFromCenter (car g) = 15"
    "exitTravelTarget (car g) = 3 * pi / 2"
  using assms by (simp_all add: ringHeld_def distFromCenter_def)

lemma toggle_right:
  "rightIndicator (car (toggleIndicator RightSide g)) = (\<not> rightIndicator (car g))"
  "graceActive (car (toggleIndicator RightSide g)) = graceActive (car g)"
  "graceRequired (car (toggleIndicator RightSide g)) = graceRequired (car g)"
  "checkBDone (toggleIndicator RightSide g) = checkBDone g"
  by (simp_all add: toggleIndicator_def)

lemma tick_indicator:
  "rightIndicator (car (updateStateMachine dt g)) = rightIndicator (car g)"
  using updateStateMachine_same[of g dt] by (simp add: sameWorld_def sameVehicle_def)

text \<open>
  Claim C6. The three one-shot checkpoints of the ring, (b) at \<open>\<pi> - 0.1\<close>, (d) at \<open>\<pi>/2\<close>
  for the straight exit and (c) at 0.7 before the exit, each have a flag. The rule engine
  never clears a flag, and a tick of \<open>_update\<close> clears one only by the restart that
  follows a completed mission. On a ring tick that the engine runs to its end, a flag is
  set afterwards exactly when it was set before or the travelled angle of that tick has
  reached or passed the threshold: the comparison is \<open>\<ge>\<close>, so the checkpoint fires on the
  first such tick, at equality too and however far the step jumped. Off the ring the flags
  do not change.

  Firing is the evaluation of the rule, and it happens on that tick only. Take a ring
  tick run to its end with no grace period pending (none active, or the countdown of the
  tick finds its requirement met). Afterwards a grace period asking for the right
  indicator is active exactly when check (b) was unfired, the mission is the third exit,
  the right indicator is off and the travelled angle has reached \<open>\<pi> - 0.1\<close>; one asking
  for the left indicator is active exactly when check (b) has opened none, the left
  indicator is off and check (d) or check (c) was unfired with its threshold reached
  (check (d) for the straight exit only); both last 3 seconds; and the car is not on its
  exit arm, where the engine clears the grace period. So a checkpoint whose flag is set
  opens no grace period again, whatever the indicators and the angle: its block is
  skipped, and the check leaves the whole state as it is.
\<close>

theorem checkpoint_one_shot:
  "((checkBDone g \<longrightarrow> checkBDone (updateStateMachine dt g)) \<and>
    (checkDDone g \<longrightarrow> checkDDone (updateStateMachine dt g)) \<and>
    (checkCDone g \<longrightarrow> checkCDone (updateStateMachine dt g))) \<and>
   (phase (car g) = OnRoundabout \<and> \<not> failed (car (updateStateMachine dt g)) \<longrightarrow>
      checkBDone (updateStateMachine dt g) =
        (checkBDone g \<or> traveledAngle (car (updateStateMachine dt g)) \<ge> pi - 0.1) \<and>
      checkDDone (updateStateMachine dt g) =
        (checkDDone g \<or> (targetExitNum (car g) = 2 \<and>
           traveledAngle (car (updateStateMachine dt g)) \<ge> pi / 2)) \<and>
      checkCDone (updateStateMachine dt g) =
        (checkCDone g \<or>
           traveledAngle (car (updateStateMachine dt g)) \<ge> exitTravelTarget (car g) - 0.7)) \<and>
   (phase (car g) \<noteq> OnRoundabout \<longrightarrow>
      checkBDone (updateStateMachine dt g) = checkBDone g \<and>
      checkDDone (updateStateMachine dt g) = checkDDone g \<and>
      checkCDone (updateStateMachine dt g) = checkCDone g) \<and>
   (missionIndex (fst (update delta rnd g)) = missionIndex g + 1 \<or>
      ((checkBDone g \<longrightarrow> checkBDone (fst (update delta rnd g))) \<and>
       (checkDDone g \<longrightarrow> checkDDone (fst (update delta rnd g))) \<and>
       (checkCDone g \<longrightarrow> checkCDone (fst (update delta rnd g))))) \<and>
   (phase (car g) = OnRoundabout \<and> \<not> failed (car (updateStateMachine dt g)) \<and>
    (graceActive (car g) \<longrightarrow>
       condOk (car g) (distFromCenter (car g)) (graceRequired (car g))) \<longrightarrow>
      ((graceActive (car (updateStateMachine dt g)) \<and>
        graceRequired (car (updateStateMachine dt g)) = Some ReqRight) =
         (\<not> onExitArm (car g) \<and>
          \<not> checkBDone g \<and> targetExitNum (car g) = 3 \<and> \<not> rightIndicator (car g) \<and>
          traveledAngle (car (updateStateMachine dt g)) \<ge> pi - 0.1)) \<and>
      ((graceActive (car (updateStateMachine dt g)) \<and>
        graceRequired (car (updateStateMachine dt g)) = Some ReqLeft) =
         (\<not> onExitArm (car g) \<and>
          \<not> (\<not> checkBDone g \<and> targetExitNum (car g) = 3 \<and> \<not> rightIndicator (car g) \<and>
             traveledAngle (car (updateStateMachine dt g)) \<ge> pi - 0.1) \<and>
          ((\<not> checkDDone g \<and> targetExitNum (car g) = 2 \<and> \<not> leftIndicator (car g) \<and>
            traveledAngle (car (updateStateMachine dt g)) \<ge> pi / 2) \<or>
           (\<not> checkCDone g \<and> \<not> leftIndicator (car g) \<and>
            traveledAngle (car (updateStateMachine dt g)) \<ge> exitTravelTarget (car g) - 0.7)))) \<and>
      (graceActive (car (updateStateMachine dt g)) \<and>
       (graceRequired (car (updateStateMachine dt g)) = Some ReqRight \<or>
        graceRequired (car (updateStateMachine dt g)) = Some ReqLeft) \<longrightarrow>
         graceTimer (car (updateStateMachine dt g)) = 3)) \<and>
   ((checkBDone g \<longrightarrow> checkB dst g = g) \<and>
    (checkDDone g \<longrightarrow> checkD dst g = g) \<and>
    (checkCDone g \<longrightarrow> checkC dst g = g))"
proof -
  have ring: "checkBDone (updateStateMachine dt g) =
        (checkBDone g \<or> traveledAngle (car (updateStateMachine dt g)) \<ge> pi - 0.1) \<and>
      checkDDone (updateStateMachine dt g) =
        (checkDDone g \<or> (targetExitNum (car g) = 2 \<and>
           traveledAngle (car (updateStateMachine dt g)) \<ge> pi / 2)) \<and>
      checkCDone (updateStateMachine dt g) =
        (checkCDone g \<or>
           traveledAngle (car (updateStateMachine dt g)) \<ge> exitTravelTarget (car g) - 0.7)"
    if a: "phase (car g) = OnRoundabout \<and> \<not> failed (car (updateStateMachine dt g))"
  proof -
    from a updateStateMachine_ring[of g dt] obtain c where
      gc: "graceCountdown dt (distFromCenter (car g)) (car g) = Inr c" and
      u: "updateStateMachine dt g = phaseOnRoundabout (distFromCenter (car g)) (g\<lparr>car := c\<rparr>)"
      by blast
    note f = graceCountdown_Inr_fields[OF gc]
    show ?thesis
      unfolding u using phaseOnRoundabout_checks[of "distFromCenter (car g)" "g\<lparr>car := c\<rparr>"] f
      by simp
  qed
  have flags: "((checkBDone g \<longrightarrow> checkBDone (updateStateMachine dt g)) \<and>
    (checkDDone g \<longrightarrow> checkDDone (updateStateMachine dt g)) \<and>
    (checkCDone g \<longrightarrow> checkCDone (updateStateMachine dt g))) \<and>
   (phase (car g) = OnRoundabout \<and> \<not> failed (car (updateStateMachine dt g)) \<longrightarrow>
      checkBDone (updateStateMachine dt g) =
        (checkBDone g \<or> traveledAngle (car (updateStateMachine dt g)) \<ge> pi - 0.1) \<and>
      checkDDone (updateStateMachine dt g) =
        (checkDDone g \<or> (targetExitNum (car g) = 2 \<and>
           traveledAngle (car (updateStateMachine dt g)) \<ge> pi / 2)) \<and>
      checkCDone (updateStateMachine dt g) =
        (checkCDone g \<or>
           traveledAngle (car (updateStateMachine dt g)) \<ge> exitTravelTarget (car g) - 0.7)) \<and>
   (phase (car g) \<noteq> OnRoundabout \<longrightarrow>
      checkBDone (updateStateMachine dt g) = checkBDone g \<and>
      checkDDone (updateStateMachine dt g) = checkDDone g \<and>
      checkCDone (updateStateMachine dt g) = checkCDone g) \<and>
   (missionIndex (fst (update delta rnd g)) = missionIndex g + 1 \<or>
      ((checkBDone g \<longrightarrow> checkBDone (fst (update delta rnd g))) \<and>
       (checkDDone g \<longrightarrow> checkDDone (fst (update delta rnd g))) \<and>
       (checkCDone g \<longrightarrow> checkCDone (fst (update delta rnd g)))))"
    using ring updateStateMachine_flags_mono[of g dt] updateStateMachine_flags_off_ring[of g dt]
      update_flags[of delta rnd g]
    by blast
  have fire: "((graceActive (car (updateStateMachine dt g)) \<and>
        graceRequired (car (updateStateMachine dt g)) = Some ReqRight) =
         (\<not> onExitArm (car g) \<and>
          \<not> checkBDone g \<and> targetExitNum (car g) = 3 \<and> \<not> rightIndicator (car g) \<and>
          traveledAngle (car (updateStateMachine dt g)) \<ge> pi - 0.1)) \<and>
      ((graceActive (car (updateStateMachine dt g)) \<and>
        graceRequired (car (updateStateMachine dt g)) = Some ReqLeft) =
         (\<not> onExitArm (car g) \<and>
          \<not> (\<not> checkBDone g \<and> targetExitNum (car g) = 3 \<and> \<not> rightIndicator (car g) \<and>
             traveledAngle (car (updateStateMachine dt g)) \<ge> pi - 0.1) \<and>
          ((\<not> checkDDone g \<and> targetExitNum (car g) = 2 \<and> \<not> leftIndicator (car g) \<and>
            traveledAngle (car (updateStateMachine dt g)) \<ge> pi / 2) \<or>
           (\<not> checkCDone g \<and> \<not> leftIndicator (car g) \<and>
            traveledAngle (car (updateStateMachine dt g)) \<ge> exitTravelTarget (car g) - 0.7)))) \<and>
      (graceActive (car (updateStateMachine dt g)) \<and>
       (graceRequired (car (updateStateMachine dt g)) = Some ReqRight \<or>
        graceRequired (car (updateStateMachine dt g)) = Some ReqLeft) \<longrightarrow>
         graceTimer (car (updateStateMachine dt g)) = 3)"
    if a: "phase (car g) = OnRoundabout \<and> \<not> failed (car (updateStateMachine dt g)) \<and>
      (graceActive (car g) \<longrightarrow>
         condOk (car g) (distFromCenter (car g)) (graceRequired (car g)))"
  proof -
    have ph: "phase (car g) = OnRoundabout"
      and nf: "\<not> failed (car (updateStateMachine dt g))"
      and np: "graceActive (car g) \<longrightarrow>
         condOk (car g) (distFromCenter (car g)) (graceRequired (car g))"
      using a by blast+
    note r = ring_tick_grace[OF ph nf np]
    show ?thesis by (rule conjI[OF r(1) conjI[OF r(2) r(3)]])
  qed
  have once: "(checkBDone g \<longrightarrow> checkB dst g = g) \<and>
    (checkDDone g \<longrightarrow> checkD dst g = g) \<and>
    (checkCDone g \<longrightarrow> checkC dst g = g)"
    by (simp add: checkB_fired checkD_fired checkC_fired)
  show ?thesis
    by (rule conjI[OF flags[THEN conjunct1]
          conjI[OF flags[THEN conjunct2, THEN conjunct1]
            conjI[OF flags[THEN conjunct2, THEN conjunct2, THEN conjunct1]
              conjI[OF flags[THEN conjunct2, THEN conjunct2, THEN conjunct2]
                conjI[OF impI[OF fire] once]]]]])
qed

theorem checkpoint_one_shot_witness:
  "phase (car gRing) = OnRoundabout \<and> targetExitNum (car gRing) = 3 \<and>
   \<not> checkBDone gRing \<and> \<not> rightIndicator (car gRing) \<and> \<not> graceActive (car gRing) \<and>
   traveledAngle (car (updateStateMachine 0.016 gRing)) = pi - 0.1 \<and>
   \<not> failed (car (updateStateMachine 0.016 gRing)) \<and>
   checkBDone (updateStateMachine 0.016 gRing) \<and>
   \<not> checkCDone (updateStateMachine 0.016 gRing) \<and>
   \<not> checkDDone (updateStateMachine 0.016 gRing) \<and>
   graceActive (car (updateStateMachine 0.016 gRing)) \<and>
   graceRequired (car (updateStateMachine 0.016 gRing)) = Some ReqRight \<and>
   graceTimer (car (updateStateMachine 0.016 gRing)) = 3 \<and>
   rightIndicator (car gSignal) \<and> checkBDone gSignal \<and>
   \<not> failed (car (updateStateMachine 0.016 gSignal)) \<and>
   checkBDone (updateStateMachine 0.016 gSignal) \<and>
   \<not> graceActive (car (updateStateMachine 0.016 gSignal)) \<and>
   phase (car gCancel) = OnRoundabout \<and> targetExitNum (car gCancel) = 3 \<and>
   checkBDone gCancel \<and> \<not> rightIndicator (car gCancel) \<and> \<not> graceActive (car gCancel) \<and>
   traveledAngle (car (updateStateMachine 0.016 gCancel)) = pi - 0.1 \<and>
   \<not> failed (car (updateStateMachine 0.016 gCancel)) \<and>
   checkBDone (updateStateMachine 0.016 gCancel) \<and>
   \<not> (graceActive (car (updateStateMachine 0.016 gCancel)) \<and>
      graceRequired (car (updateStateMachine 0.016 gCancel)) = Some ReqRight) \<and>
   checkB 15 gCancel = gCancel"
proof -
  let ?g1 = "updateStateMachine 0.016 gRing"
  let ?g2 = "updateStateMachine 0.016 gSignal"
  let ?g3 = "updateStateMachine 0.016 gCancel"
  note s0 = gRing_quiet_start
  note h0 = ringHeld_facts[OF ringHeld_gRing]
  have r1: "ringHeld ?g1"
    using s0 by (intro ringHeld_tick[OF ringHeld_gRing]) simp
  note h1 = ringHeld_facts[OF r1]
  have lt: "\<not> 3 * pi / 2 - 0.7 \<le> pi - 0.1"
    using pi_ge_two by simp
  have np0: "graceActive (car gRing) \<longrightarrow>
      condOk (car gRing) (distFromCenter (car gRing)) (graceRequired (car gRing))"
    using s0 by simp
  note t0 = checkpoint_one_shot[of gRing "0.016" 1 "\<lambda>_. 0" 15]
  note t0_flags = t0[THEN conjunct2, THEN conjunct1, THEN mp, OF conjI[OF h0(1) h1(4)]]
  note t0_fire = t0[THEN conjunct2, THEN conjunct2, THEN conjunct2, THEN conjunct2,
      THEN conjunct1, THEN mp, OF conjI[OF h0(1) conjI[OF h1(4) np0]]]
  have fl1: "checkBDone ?g1 \<and> \<not> checkCDone ?g1 \<and> \<not> checkDDone ?g1"
    using t0_flags gRing_flags lt h0(2,6) h1(3) by simp
  have gr1: "graceActive (car ?g1) \<and> graceRequired (car ?g1) = Some ReqRight"
    using t0_fire[THEN conjunct1] gRing_flags s0 h0(2) h1(3) by simp
  have tm1: "graceTimer (car ?g1) = 3"
    using t0_fire[THEN conjunct2, THEN conjunct2] gr1 by blast
  have rs: "ringHeld gSignal"
    unfolding gSignal_def by (rule ringHeld_toggle[OF r1])
  note hs = ringHeld_facts[OF rs]
  have ri: "rightIndicator (car gSignal)"
    using s0 by (simp add: gSignal_def toggle_right tick_indicator)
  have gs: "graceActive (car gSignal) \<and> graceRequired (car gSignal) = Some ReqRight"
    using gr1 by (simp add: gSignal_def toggle_right)
  have bs: "checkBDone gSignal"
    using fl1 by (simp add: gSignal_def toggle_right)
  have ms: "graceActive (car gSignal) \<longrightarrow>
      condOk (car gSignal) 15 (graceRequired (car gSignal))"
    using gs ri by (simp add: condOk_def)
  have r2: "ringHeld ?g2"
    using ms by (intro ringHeld_tick[OF rs]) blast
  note h2 = ringHeld_facts[OF r2]
  have q2: "\<not> graceActive (car ?g2)"
    by (rule ringHeld_quiet[OF rs bs ms])
  note ts = checkpoint_one_shot[of gSignal "0.016" 1 "\<lambda>_. 0" 15]
  have b2: "checkBDone ?g2"
    using ts[THEN conjunct1, THEN conjunct1] bs by blast
  have rc: "ringHeld gCancel"
    unfolding gCancel_def by (rule ringHeld_toggle[OF r2])
  note hc = ringHeld_facts[OF rc]
  have ic: "\<not> rightIndicator (car gCancel)"
    using ri by (simp add: gCancel_def toggle_right tick_indicator)
  have gc: "\<not> graceActive (car gCancel)"
    using q2 by (simp add: gCancel_def toggle_right)
  have bc: "checkBDone gCancel"
    using b2 by (simp add: gCancel_def toggle_right)
  have r3: "ringHeld ?g3"
    using gc by (intro ringHeld_tick[OF rc]) simp
  note h3 = ringHeld_facts[OF r3]
  have npc: "graceActive (car gCancel) \<longrightarrow>
      condOk (car gCancel) (distFromCenter (car gCancel)) (graceRequired (car gCancel))"
    using gc by simp
  note tc = checkpoint_one_shot[of gCancel "0.016" 1 "\<lambda>_. 0" 15]
  note tc_fire = tc[THEN conjunct2, THEN conjunct2, THEN conjunct2, THEN conjunct2,
      THEN conjunct1, THEN mp, OF conjI[OF hc(1) conjI[OF h3(4) npc]]]
  have b3: "checkBDone ?g3"
    using tc[THEN conjunct1, THEN conjunct1] bc by blast
  have n3: "\<not> (graceActive (car ?g3) \<and> graceRequired (car ?g3) = Some ReqRight)"
    using tc_fire[THEN conjunct1] bc by blast
  have o3: "checkB 15 gCancel = gCancel"
    using tc[THEN conjunct2, THEN conjunct2, THEN conjunct2, THEN conjunct2, THEN conjunct2,
        THEN conjunct1] bc by blast
  have a1: "phase (car gRing) = OnRoundabout \<and> targetExitNum (car gRing) = 3 \<and>
      \<not> checkBDone gRing \<and> \<not> rightIndicator (car gRing) \<and> \<not> graceActive (car gRing)"
    using h0(1,2) gRing_flags s0 by blast
  have a2: "traveledAngle (car ?g1) = pi - 0.1 \<and> \<not> failed (car ?g1)"
    using h1(3,4) by blast
  have a3: "\<not> failed (car ?g2)" by (rule h2(4))
  have a4: "phase (car gCancel) = OnRoundabout \<and> targetExitNum (car gCancel) = 3"
    using hc(1,2) by blast
  have a5: "traveledAngle (car ?g3) = pi - 0.1 \<and> \<not> failed (car ?g3)"
    using h3(3,4) by blast
  show ?thesis
    using a1 a2 fl1 gr1 tm1 ri bs a3 b2 q2 a4 bc ic gc a5 b3 n3 o3
    by simp
qed

end
